(* ===== verification/Prelude.thy ===== *)
theory Prelude
  imports Main "HOL-Library.Word"
begin

text \<open>
  Shared vocabulary of the development: the machine integer types of the C++ sources, the byte
  order conversions of \<^verbatim>\<open><arpa/inet.h>\<close> on the little-endian targets the project is built for,
  and the generic lemmas on words, bit sets and lists that the component theories rely on.

  Fact collections: \<^verbatim>\<open>wf_intros\<close> gathers the preservation lemmas of well-formedness predicates,
  \<^verbatim>\<open>abs_simps\<close> gathers the equations that push an abstraction function through an operation.
\<close>

unbundle bit_operations_syntax

named_theorems wf_intros \<open>preservation of representation invariants\<close>
named_theorems abs_simps \<open>abstraction functions applied to operations\<close>

type_synonym u8 = "8 word"
type_synonym u16 = "16 word"
type_synonym u32 = "32 word"
type_synonym u64 = "64 word"

subsection \<open>Byte order\<close>

definition bswap32 :: "u32 \<Rightarrow> u32" where
  "bswap32 x = push_bit 24 (take_bit 8 x) OR push_bit 16 (take_bit 8 (drop_bit 8 x))
     OR push_bit 8 (take_bit 8 (drop_bit 16 x)) OR take_bit 8 (drop_bit 24 x)"

definition bswap16 :: "u16 \<Rightarrow> u16" where
  "bswap16 x = push_bit 8 (take_bit 8 x) OR take_bit 8 (drop_bit 8 x)"

abbreviation htonl :: "u32 \<Rightarrow> u32" where "htonl \<equiv> bswap32"
abbreviation ntohl :: "u32 \<Rightarrow> u32" where "ntohl \<equiv> bswap32"
abbreviation htons :: "u16 \<Rightarrow> u16" where "htons \<equiv> bswap16"
abbreviation ntohs :: "u16 \<Rightarrow> u16" where "ntohs \<equiv> bswap16"

lemma bit_bswap32: "bit (bswap32 x) n \<longleftrightarrow> (if n < 8 then bit x (n + 24) else if n < 16 then bit x (n + 8)
    else if n < 24 then bit x (n - 8) else n < 32 \<and> bit x (n - 24))"
  by (auto simp: bswap32_def bit_simps add.commute dest: bit_imp_le_length)

lemma bit_bswap16: "bit (bswap16 x) n \<longleftrightarrow> (if n < 8 then bit x (n + 8) else n < 16 \<and> bit x (n - 8))"
  by (auto simp: bswap16_def bit_simps add.commute dest: bit_imp_le_length)

lemma bswap32_bswap32 [simp]: "bswap32 (bswap32 x) = x"
  by (rule bit_word_eqI) (auto simp: bit_bswap32)

lemma bswap16_bswap16 [simp]: "bswap16 (bswap16 x) = x"
  by (rule bit_word_eqI) (auto simp: bit_bswap16)

lemma bswap32_inject [simp]: "bswap32 x = bswap32 y \<longleftrightarrow> x = y"
  by (metis bswap32_bswap32)

lemma bswap16_inject [simp]: "bswap16 x = bswap16 y \<longleftrightarrow> x = y"
  by (metis bswap16_bswap16)

subsection \<open>Indices of a bit array stored in 32-bit words\<close>

lemma div32_lt_iff: "n div 32 < k \<longleftrightarrow> n < 32 * (k :: nat)"
  by (simp add: div_less_iff_less_mult mult.commute)

subsection \<open>Halving and parity\<close>

lemma unat_half [simp]: "unat (drop_bit (Suc 0) x) = unat (x :: 'a :: len word) div 2"
  by (subst unat_drop_bit_eq) (simp add: drop_bit_Suc)

lemma half_eq_0_iff: "drop_bit (Suc 0) x = 0 \<longleftrightarrow> unat (x :: 'a :: len word) div 2 = 0"
  by (metis unat_half unat_eq_0)

lemma low_bit_zero_iff: "x AND 1 = 0 \<longleftrightarrow> even (unat (x :: 'a :: len word))"
proof -
  have "odd (unat x) \<longleftrightarrow> odd x" by (simp flip: bit_0 add: bit_unsigned_iff)
  then show ?thesis by (metis and_one_eq even_iff_mod_2_eq_zero)
qed

lemma unat_exp [simp]:
  assumes "k < LENGTH('a)"
  shows "unat ((2 :: 'a :: len word) ^ k) = 2 ^ k"
proof -
  have "(2 :: 'a word) ^ k = of_nat (2 ^ k)" by simp
  moreover have "unat (of_nat (2 ^ k) :: 'a word) = 2 ^ k"
    using assms by (simp add: unat_of_nat del: of_nat_power)
  ultimately show ?thesis by (simp only:)
qed

lemma unat_ucast_fits:
  assumes "unat x < 2 ^ LENGTH('b)"
  shows "unat (ucast (x :: 'a :: len word) :: 'b :: len word) = unat x"
  using assms by (simp add: unsigned_ucast_eq take_bit_nat_eq_self)

lemma unat_u32_less: "unat (x :: u32) < 2 ^ 32"
  using unsigned_less [of x] by simp

lemma unat_u16_less: "unat (x :: u16) < 2 ^ 16"
  using unsigned_less [of x] by simp

lemma unat_u32_up [simp]: "unat (ucast (x :: u32) :: u64) = unat x"
  using unat_u32_less [of x] by (intro unat_ucast_fits) simp

subsection \<open>Union of an indexed family over a list\<close>

lemma UN_set_snoc: "(\<Union>x\<in>set (xs @ [y]). f x) = (\<Union>x\<in>set xs. f x) \<union> f y"
  by auto

end
