(* ===== verification/Fw_Bitmap.thy ===== *)
theory Fw_Bitmap
  imports Prelude
begin

text \<open>
  Rule bitmaps of the packet firewall: class \<^verbatim>\<open>Bitmap\<close> of \<^verbatim>\<open>bitmap_manager.cpp\<close> (the user space
  builder) and the inline helpers of \<^verbatim>\<open>netfirewall_bitmap.h\<close> (the kernel side). A bitmap is an array
  of \<^verbatim>\<open>BITMAP_LEN\<close> words, one bit per rule. The abstraction \<^verbatim>\<open>bits\<close> reads it as the set of rule
  indices, and every operation is shown to implement the corresponding set operation; the locale
  \<^verbatim>\<open>rule_set\<close> is that contract, which the rule maps and the matcher build on.
\<close>

type_synonym bitmap = "u32 list"

definition BITMAP_LEN :: nat where
  "BITMAP_LEN = 63"

definition BITMAP_BIT_COUNT :: nat where
  "BITMAP_BIT_COUNT = BITMAP_LEN * 4 * 8"

subsection \<open>Operations\<close>

definition Clear :: bitmap where
  "Clear = replicate BITMAP_LEN 0"

definition Set :: "nat \<Rightarrow> bitmap \<Rightarrow> bitmap" where
  "Set n b = (if n < BITMAP_BIT_COUNT
     then (let i = drop_bit 5 n; j = n AND 0x1f in b[i := b ! i OR push_bit j 1]) else b)"

definition Bitmap_of :: "nat \<Rightarrow> bitmap" where
  "Bitmap_of n = Set n Clear"

definition Or :: "bitmap \<Rightarrow> bitmap \<Rightarrow> bitmap" where
  "Or b other = map (\<lambda>i. b ! i OR other ! i) [0..<BITMAP_LEN]"

definition And :: "bitmap \<Rightarrow> bitmap \<Rightarrow> bitmap" where
  "And b other = map (\<lambda>i. b ! i AND other ! i) [0..<BITMAP_LEN]"

definition GetHash :: "u32 \<Rightarrow> u32" where
  "GetHash key0 = (let
     key1 = key0 + NOT (push_bit 15 key0);
     key2 = key1 XOR drop_bit 10 key1;
     key3 = key2 + push_bit 3 key2;
     key4 = key3 XOR drop_bit 6 key3;
     key5 = key4 + NOT (push_bit 11 key4)
   in key5 XOR drop_bit 16 key5)"

fun SpecialHash_from :: "nat \<Rightarrow> bitmap \<Rightarrow> u64" where
  "SpecialHash_from i [] = 0"
| "SpecialHash_from i (w # ws) =
     (if w \<noteq> 0 then push_bit i (ucast (GetHash w)) else SpecialHash_from (Suc i) ws)"

definition SpecialHash :: "bitmap \<Rightarrow> u64" where
  "SpecialHash b = SpecialHash_from 0 b"

text \<open>Kernel side, \<^verbatim>\<open>netfirewall_bitmap.h\<close>.\<close>

definition bitmap_and :: "bitmap \<Rightarrow> bitmap \<Rightarrow> bitmap" where
  "bitmap_and bm val = map (\<lambda>i. bm ! i AND val ! i) [0..<BITMAP_LEN]"

definition bitmap_and_inv :: "bitmap \<Rightarrow> bitmap \<Rightarrow> bitmap" where
  "bitmap_and_inv bm val = map (\<lambda>i. bm ! i AND NOT (val ! i)) [0..<BITMAP_LEN]"

definition bitmap_positive :: "bitmap \<Rightarrow> bool" where
  "bitmap_positive bm = list_ex (\<lambda>i. bm ! i > 0) [0..<BITMAP_LEN]"

text \<open>\<^verbatim>\<open>memset (key, 0xff, sizeof (struct bitmap))\<close>: the start value of the matcher.\<close>

definition bitmap_full :: bitmap where
  "bitmap_full = replicate BITMAP_LEN 0xffffffff"

subsection \<open>Abstraction: the set of rule indices\<close>

definition wf_bitmap :: "bitmap \<Rightarrow> bool" where
  "wf_bitmap b \<longleftrightarrow> length b = BITMAP_LEN"

definition bits :: "bitmap \<Rightarrow> nat set" where
  "bits b = {n. n < BITMAP_BIT_COUNT \<and> bit (b ! (n div 32)) (n mod 32)}"

lemma bit_count_iff: "n < BITMAP_BIT_COUNT \<longleftrightarrow> n div 32 < BITMAP_LEN"
  by (simp add: BITMAP_BIT_COUNT_def BITMAP_LEN_def div32_lt_iff)

lemma wf_Clear [wf_intros, simp]: "wf_bitmap Clear"
  by (simp add: wf_bitmap_def Clear_def)

lemma wf_Set [wf_intros, simp]: "wf_bitmap b \<Longrightarrow> wf_bitmap (Set n b)"
  by (simp add: wf_bitmap_def Set_def Let_def)

lemma wf_Or [wf_intros, simp]: "wf_bitmap (Or a b)"
  by (simp add: wf_bitmap_def Or_def)

lemma wf_And [wf_intros, simp]: "wf_bitmap (And a b)"
  by (simp add: wf_bitmap_def And_def)

lemma wf_Bitmap_of [wf_intros, simp]: "wf_bitmap (Bitmap_of n)"
  by (simp add: Bitmap_of_def)

lemma bits_Clear [abs_simps, simp]: "bits Clear = {}"
  by (auto simp: bits_def Clear_def bit_count_iff)

lemma bits_full [abs_simps, simp]: "bits bitmap_full = {..<BITMAP_BIT_COUNT}"
proof -
  have "bit (0xffffffff :: u32) k" if "k < 32" for k
  proof -
    have "(0xffffffff :: u32) = mask 32" by (simp add: mask_eq_exp_minus_1)
    then show ?thesis using that by (simp only: bit_mask_iff) simp
  qed
  then show ?thesis by (auto simp: bits_def bitmap_full_def bit_count_iff)
qed

lemma bits_Or [abs_simps, simp]: "bits (Or a b) = bits a \<union> bits b"
  by (auto simp: bits_def Or_def bit_count_iff bit_or_iff)

lemma bits_And [abs_simps, simp]: "bits (And a b) = bits a \<inter> bits b"
  by (auto simp: bits_def And_def bit_count_iff bit_and_iff)

lemma bits_bitmap_and [abs_simps, simp]: "bits (bitmap_and a b) = bits a \<inter> bits b"
  by (auto simp: bits_def bitmap_and_def bit_count_iff bit_and_iff)

lemma bits_bitmap_and_inv [abs_simps, simp]: "bits (bitmap_and_inv a b) = bits a - bits b"
  by (auto simp: bits_def bitmap_and_inv_def bit_count_iff bit_and_iff bit_not_iff)

lemma word_bit_exists: "w \<noteq> 0 \<longleftrightarrow> (\<exists>k < 32. bit (w :: u32) k)"
  using bit_imp_le_length [of w] by (auto simp: bit_eq_iff [of w 0])

lemma bitmap_positive_iff [abs_simps]: "bitmap_positive b \<longleftrightarrow> bits b \<noteq> {}"
proof
  assume "bitmap_positive b"
  then obtain i where i: "i < BITMAP_LEN" "b ! i \<noteq> 0"
    by (auto simp: bitmap_positive_def list_ex_iff word_gt_0)
  then obtain k where k: "k < 32" "bit (b ! i) k" using word_bit_exists by blast
  then have "(32 * i + k) div 32 = i" "(32 * i + k) mod 32 = k" by simp_all
  then have "32 * i + k \<in> bits b" using i k by (simp add: bits_def bit_count_iff)
  then show "bits b \<noteq> {}" by blast
next
  assume "bits b \<noteq> {}"
  then obtain n where n: "n div 32 < BITMAP_LEN" "bit (b ! (n div 32)) (n mod 32)"
    by (auto simp: bits_def bit_count_iff)
  then have "b ! (n div 32) \<noteq> 0" by auto
  then show "bitmap_positive b" using n by (auto simp: bitmap_positive_def list_ex_iff word_gt_0)
qed

lemma bits_Set [abs_simps]:
  assumes "wf_bitmap b"
  shows "bits (Set n b) = (if n < BITMAP_BIT_COUNT then insert n (bits b) else bits b)"
proof (cases "n < BITMAP_BIT_COUNT")
  case True
  have idx: "drop_bit 5 n = n div 32" "n AND 0x1f = n mod 32"
    using take_bit_eq_mask [of 5 n] by (simp_all add: drop_bit_eq_div take_bit_eq_mod mask_eq_exp_minus_1)
  have len: "n div 32 < length b" using True assms by (simp add: bit_count_iff wf_bitmap_def)
  have "bit (Set n b ! (m div 32)) (m mod 32) \<longleftrightarrow> m = n \<or> bit (b ! (m div 32)) (m mod 32)" for m
  proof (cases "m div 32 = n div 32")
    case True
    then have "m mod 32 = n mod 32 \<longleftrightarrow> m = n" by (metis div_mult_mod_eq)
    with True len \<open>n < BITMAP_BIT_COUNT\<close> show ?thesis
      by (auto simp: Set_def idx Let_def bit_or_iff bit_exp_iff possible_bit_word)
  next
    case False
    with \<open>n < BITMAP_BIT_COUNT\<close> show ?thesis by (auto simp: Set_def idx Let_def)
  qed
  with True show ?thesis by (auto simp: bits_def)
qed (simp add: Set_def)

lemma bits_Bitmap_of [abs_simps, simp]:
  "bits (Bitmap_of n) = (if n < BITMAP_BIT_COUNT then {n} else {})"
  by (simp add: Bitmap_of_def bits_Set)

lemma bitmap_eq_iff_bits:
  assumes "wf_bitmap a" "wf_bitmap b"
  shows "a = b \<longleftrightarrow> bits a = bits b"
proof
  assume eq: "bits a = bits b"
  have "a ! i = b ! i" if i: "i < BITMAP_LEN" for i
  proof (rule bit_word_eqI)
    fix k assume "k < LENGTH(32)"
    then have "(32 * i + k) div 32 = i" "(32 * i + k) mod 32 = k" by simp_all
    with eq i show "bit (a ! i) k \<longleftrightarrow> bit (b ! i) k"
      by (force simp: bits_def bit_count_iff set_eq_iff dest: spec [of _ "32 * i + k"])
  qed
  with assms show "a = b" by (auto simp: wf_bitmap_def intro: nth_equalityI)
qed simp

subsection \<open>The contract used by the rule maps and by the matcher\<close>

locale rule_set =
  fixes elems :: "'b \<Rightarrow> nat set"
    and empty_b :: 'b
    and or_b :: "'b \<Rightarrow> 'b \<Rightarrow> 'b"
  assumes elems_empty: "elems empty_b = {}"
    and elems_or: "elems (or_b a b) = elems a \<union> elems b"
begin

lemma elems_foldl: "elems (foldl or_b b bs) = elems b \<union> (\<Union>x\<in>set bs. elems x)"
  by (induction bs arbitrary: b) (auto simp: elems_or)

lemma elems_or_absorb: "elems b \<subseteq> elems a \<Longrightarrow> elems (or_b a b) = elems a"
  by (auto simp: elems_or)

end

locale rule_filter = rule_set +
  fixes and_b :: "'b \<Rightarrow> 'b \<Rightarrow> 'b"
    and and_inv_b :: "'b \<Rightarrow> 'b \<Rightarrow> 'b"
    and positive :: "'b \<Rightarrow> bool"
  assumes elems_and: "elems (and_b a b) = elems a \<inter> elems b"
    and elems_and_inv: "elems (and_inv_b a b) = elems a - elems b"
    and positive_iff: "positive a \<longleftrightarrow> elems a \<noteq> {}"
begin

lemma positive_and: "positive (and_b a b) \<longleftrightarrow> (\<exists>i \<in> elems a. i \<in> elems b)"
  by (auto simp: positive_iff elems_and)

lemma positive_and_inv: "positive (and_inv_b a b) \<longleftrightarrow> (\<exists>i \<in> elems a. i \<notin> elems b)"
  by (auto simp: positive_iff elems_and_inv)

end

interpretation bm: rule_filter bits Clear Or bitmap_and bitmap_and_inv bitmap_positive
  by unfold_locales (simp_all add: bitmap_positive_iff)

subsection \<open>Properties\<close>

text \<open>C40: On bitmaps of the declared size the user space operations are exactly the set operations on
  rule indices, and comparing the memory of two bitmaps decides equality of their index sets.\<close>

theorem bitmap_refines_set:
  assumes "wf_bitmap a" "wf_bitmap b"
  shows "bits (Or a b) = bits a \<union> bits b \<and> bits (And a b) = bits a \<inter> bits b \<and>
    bits (Set n a) = bits a \<union> ({n} \<inter> {..<BITMAP_BIT_COUNT}) \<and> (a = b \<longleftrightarrow> bits a = bits b) \<and>
    wf_bitmap (Or a b) \<and> wf_bitmap (And a b) \<and> wf_bitmap (Set n a)"
  using assms bitmap_eq_iff_bits [OF assms] by (auto simp: bits_Set)

theorem bitmap_refines_set_witness:
  "wf_bitmap (Bitmap_of 3) \<and> wf_bitmap (Bitmap_of 70) \<and>
   bits (Or (Bitmap_of 3) (Bitmap_of 70)) = {3, 70}"
  using bitmap_refines_set [of "Bitmap_of 3" "Bitmap_of 70"]
  by (auto simp: BITMAP_BIT_COUNT_def BITMAP_LEN_def)

end
