(* ===== verification/Fw_Segments.thy ===== *)
theory Fw_Segments
  imports Fw_Bitmap
begin

text \<open>
  Port segments: class \<^verbatim>\<open>SegmentBitmapMap\<close> of \<^verbatim>\<open>bitmap_manager.h\<close>. The map is a vector of closed port
  intervals, each with the bitmap of the rules that name it; \<^verbatim>\<open>AddMap\<close> splits and merges intervals so
  that the vector stays sorted and disjoint. The abstraction \<^verbatim>\<open>seg_bits\<close> reads the map as a function
  from ports to rule sets and \<^verbatim>\<open>seg_cov\<close> as the set of ports that some rule names.
\<close>

record SegmentBitmap =
  seg_start :: u16
  seg_end :: u16
  seg_bitmap :: bitmap

definition UINT16_MAX :: u16 where
  "UINT16_MAX = 0xffff"

subsection \<open>Operations\<close>

definition isValid :: "SegmentBitmap \<Rightarrow> bool" where
  "isValid s \<longleftrightarrow> seg_start s \<le> seg_end s"

definition CollectIntersectIndices :: "u16 \<Rightarrow> u16 \<Rightarrow> SegmentBitmap list \<Rightarrow> nat list" where
  "CollectIntersectIndices s e segs =
     filter (\<lambda>i. \<not> (e < seg_start (segs ! i) \<or> s > seg_end (segs ! i))) [0..<length segs]"

definition erase_at :: "'a list \<Rightarrow> nat \<Rightarrow> 'a list" where
  "erase_at xs i = (if i < length xs then take i xs @ drop (Suc i) xs else xs)"

definition RemoveSegments :: "nat list \<Rightarrow> SegmentBitmap list \<Rightarrow> SegmentBitmap list" where
  "RemoveSegments indices segs = foldl erase_at segs (rev (sort indices))"

definition addSegment :: "u16 \<Rightarrow> u16 \<Rightarrow> bitmap \<Rightarrow> SegmentBitmap list \<Rightarrow> SegmentBitmap list" where
  "addSegment s e b segs = (if s > e then segs
     else segs @ [\<lparr> seg_start = s, seg_end = e, seg_bitmap = b \<rparr>])"

text \<open>One round of the loop of \<^verbatim>\<open>ProcessIntersections\<close>: the new segments and, unless the round
  returned or broke out of the loop, the next position.\<close>

definition ProcessIntersections_body ::
  "u16 \<Rightarrow> bitmap \<Rightarrow> SegmentBitmap \<Rightarrow> u16 \<Rightarrow> SegmentBitmap list \<Rightarrow> SegmentBitmap list \<times> u16 option" where
  "ProcessIntersections_body targetEnd targetBitmap seg currentPos newSegs =
     (let (pos1, new1) = (if currentPos < seg_start seg
            then (seg_start seg, addSegment currentPos (seg_start seg - 1) targetBitmap newSegs)
            else (currentPos, newSegs));
          new2 = (if seg_start seg < pos1
            then addSegment (seg_start seg) (pos1 - 1) (seg_bitmap seg) new1 else new1);
          overlapEnd = min targetEnd (seg_end seg);
          new3 = addSegment pos1 overlapEnd (Or (seg_bitmap seg) targetBitmap) new2
      in if overlapEnd = UINT16_MAX then (new3, None)
         else let pos2 = overlapEnd + 1;
                  new4 = (if pos2 \<le> seg_end seg
                    then addSegment pos2 (seg_end seg) (seg_bitmap seg) new3 else new3)
              in (new4, if pos2 > targetEnd then None else Some pos2))"

fun ProcessIntersections_loop ::
  "u16 \<Rightarrow> bitmap \<Rightarrow> SegmentBitmap list \<Rightarrow> u16 \<Rightarrow> SegmentBitmap list \<Rightarrow> SegmentBitmap list" where
  "ProcessIntersections_loop targetEnd targetBitmap [] currentPos newSegs =
     (if currentPos \<le> targetEnd then addSegment currentPos targetEnd targetBitmap newSegs else newSegs)"
| "ProcessIntersections_loop targetEnd targetBitmap (seg # segs) currentPos newSegs =
     (case ProcessIntersections_body targetEnd targetBitmap seg currentPos newSegs of
        (newSegs', None) \<Rightarrow> newSegs'
      | (newSegs', Some pos) \<Rightarrow> ProcessIntersections_loop targetEnd targetBitmap segs pos newSegs')"

definition ProcessIntersections ::
  "u16 \<Rightarrow> u16 \<Rightarrow> bitmap \<Rightarrow> nat list \<Rightarrow> SegmentBitmap list \<Rightarrow> SegmentBitmap list" where
  "ProcessIntersections targetStart targetEnd targetBitmap intersectIndices segs =
     ProcessIntersections_loop targetEnd targetBitmap
       (sort_key seg_start (map (nth segs) intersectIndices)) targetStart []"

definition lower_bound_insert :: "SegmentBitmap \<Rightarrow> SegmentBitmap list \<Rightarrow> SegmentBitmap list" where
  "lower_bound_insert seg segs = takeWhile (\<lambda>a. seg_start a < seg_start seg) segs @ [seg]
     @ dropWhile (\<lambda>a. seg_start a < seg_start seg) segs"

definition InsertNewSegments :: "SegmentBitmap list \<Rightarrow> SegmentBitmap list \<Rightarrow> SegmentBitmap list" where
  "InsertNewSegments newSegs segs =
     foldl (\<lambda>acc seg. if \<not> isValid seg then acc else lower_bound_insert seg acc) segs newSegs"

definition AddMap :: "u16 \<Rightarrow> u16 \<Rightarrow> bitmap \<Rightarrow> SegmentBitmap list \<Rightarrow> SegmentBitmap list" where
  "AddMap s e b segs = (if s > e then segs
     else let intersectIndices = CollectIntersectIndices s e segs;
              newSegments = ProcessIntersections s e b intersectIndices segs
          in InsertNewSegments newSegments (RemoveSegments intersectIndices segs))"

subsection \<open>Invariant and abstraction\<close>

definition in_seg :: "u16 \<Rightarrow> SegmentBitmap \<Rightarrow> bool" where
  "in_seg p s \<longleftrightarrow> seg_start s \<le> p \<and> p \<le> seg_end s"

definition wf_segs :: "SegmentBitmap list \<Rightarrow> bool" where
  "wf_segs segs \<longleftrightarrow> list_all isValid segs \<and> sorted_wrt (\<lambda>a b. seg_end a < seg_start b) segs"

definition seg_bits :: "SegmentBitmap list \<Rightarrow> u16 \<Rightarrow> nat set" where
  "seg_bits segs p = (\<Union>s\<in>{s \<in> set segs. in_seg p s}. bits (seg_bitmap s))"

definition seg_cov :: "SegmentBitmap list \<Rightarrow> u16 set" where
  "seg_cov segs = {p. \<exists>s\<in>set segs. in_seg p s}"

definition apart :: "SegmentBitmap \<Rightarrow> SegmentBitmap \<Rightarrow> bool" where
  "apart a b \<longleftrightarrow> seg_end a < seg_start b \<or> seg_end b < seg_start a"

lemma seg_bits_Nil [simp]: "seg_bits [] p = {}"
  by (simp add: seg_bits_def)

lemma seg_bits_Cons [simp]:
  "seg_bits (s # segs) p = (if in_seg p s then bits (seg_bitmap s) else {}) \<union> seg_bits segs p"
  by (auto simp: seg_bits_def)

lemma seg_bits_append [simp]: "seg_bits (xs @ ys) p = seg_bits xs p \<union> seg_bits ys p"
  by (auto simp: seg_bits_def)

lemma seg_cov_Nil [simp]: "seg_cov [] = {}"
  by (simp add: seg_cov_def)

lemma seg_cov_Cons [simp]: "seg_cov (s # segs) = {p. in_seg p s} \<union> seg_cov segs"
  by (auto simp: seg_cov_def)

lemma seg_cov_append [simp]: "seg_cov (xs @ ys) = seg_cov xs \<union> seg_cov ys"
  by (auto simp: seg_cov_def)

lemma seg_set_cong:
  "set xs = set ys \<Longrightarrow> seg_bits xs p = seg_bits ys p \<and> seg_cov xs = seg_cov ys"
  by (auto simp: seg_bits_def seg_cov_def)

lemma wf_segs_Nil [simp]: "wf_segs []"
  by (simp add: wf_segs_def)

lemma wf_segs_Cons [simp]: "wf_segs (s # segs) \<longleftrightarrow>
    isValid s \<and> (\<forall>t\<in>set segs. seg_end s < seg_start t) \<and> wf_segs segs"
  by (auto simp: wf_segs_def)

lemma wf_segs_filter: "wf_segs segs \<Longrightarrow> wf_segs (filter P segs)"
  by (auto simp: wf_segs_def list_all_iff sorted_wrt_filter)

lemma wf_segs_valid: "wf_segs segs \<Longrightarrow> s \<in> set segs \<Longrightarrow> seg_start s \<le> seg_end s"
  by (auto simp: wf_segs_def list_all_iff isValid_def)

lemma wf_segs_sort: "wf_segs segs \<Longrightarrow> sort_key seg_start segs = segs"
proof (induction segs)
  case (Cons s segs)
  then have "seg_start s \<le> seg_start t" if "t \<in> set segs" for t
    using that by (auto simp: isValid_def dest!: bspec [of _ _ t])
  with Cons show ?case by (simp add: insort_is_Cons)
qed simp

subsection \<open>Collecting and removing the intersected segments\<close>

lemma map_nth_filter_upt: "map (nth xs) (filter (\<lambda>i. P (xs ! i)) [0..<length xs]) = filter P xs"
  by (metis (mono_tags, lifting) comp_apply filter_cong filter_map map_nth)

lemma erase_indices:
  "foldl erase_at xs (rev (filter (\<lambda>i. P (xs ! i)) [0..<length xs])) = filter (\<lambda>x. \<not> P x) xs"
proof (induction xs rule: rev_induct)
  case (snoc x xs)
  have eq: "filter (\<lambda>i. P ((xs @ [x]) ! i)) [0..<length xs] = filter (\<lambda>i. P (xs ! i)) [0..<length xs]"
    by (auto simp: nth_append intro: filter_cong)
  have later: "foldl erase_at (xs @ [x]) is = foldl erase_at xs is @ [x]"
    if "sorted_wrt (>) is" "\<forall>i\<in>set is. i < length xs" for "is" and xs :: "'a list"
    using that
  proof (induction "is" arbitrary: xs)
    case (Cons i "is")
    then have "\<forall>j\<in>set is. j < length (erase_at xs i)" by (auto simp: erase_at_def)
    moreover have "erase_at (xs @ [x]) i = erase_at xs i @ [x]"
      using Cons.prems by (simp add: erase_at_def)
    ultimately show ?case using Cons by simp
  qed simp
  have "sorted_wrt (>) (rev (filter (\<lambda>i. P (xs ! i)) [0..<length xs]))"
    by (simp add: sorted_wrt_rev sorted_wrt_filter)
  from later [OF this, of xs] show ?case using snoc
    by (simp add: eq later erase_at_def [of "xs @ [x]"])
qed simp

lemma RemoveSegments_Collect: "RemoveSegments (CollectIntersectIndices s e segs) segs =
    filter (\<lambda>t. e < seg_start t \<or> s > seg_end t) segs"
  using erase_indices [of segs "\<lambda>t. \<not> (e < seg_start t \<or> s > seg_end t)"]
  by (simp add: RemoveSegments_def CollectIntersectIndices_def sorted_sort_id sorted_wrt_filter)

subsection \<open>Splitting and merging\<close>

lemma UINT16_MAX_minus_one: "UINT16_MAX = - 1"
  by (simp add: UINT16_MAX_def)

lemma UINT16_MAX_max: "p \<le> UINT16_MAX"
  by (simp add: UINT16_MAX_minus_one)

lemma port_pred: "a < b \<Longrightarrow> \<not> b - 1 < (a :: u16)"
  by (simp add: less_imp_less_eq_dec leD)

lemma port_less_neq: "x < y \<Longrightarrow> x \<noteq> UINT16_MAX"
  using UINT16_MAX_max [of y] by (auto simp: leD)

lemma port_succ: "x \<noteq> UINT16_MAX \<Longrightarrow> x + 1 \<le> y \<longleftrightarrow> x < y"
  by (simp add: inc_less_eq_iff UINT16_MAX_minus_one)

lemma port_succ': "x \<noteq> UINT16_MAX \<Longrightarrow> y < x + 1 \<longleftrightarrow> y \<le> x"
  by (simp add: port_succ flip: not_le)

text \<open>The closed form of a round, when the segment meets the target from the current position on.\<close>

definition split_out :: "u16 \<Rightarrow> bitmap \<Rightarrow> SegmentBitmap \<Rightarrow> u16 \<Rightarrow> SegmentBitmap list" where
  "split_out te tb seg pos =
     (if pos < seg_start seg then [\<lparr> seg_start = pos, seg_end = seg_start seg - 1, seg_bitmap = tb \<rparr>]
      else if seg_start seg < pos
      then [\<lparr> seg_start = seg_start seg, seg_end = pos - 1, seg_bitmap = seg_bitmap seg \<rparr>] else [])
     @ [\<lparr> seg_start = max pos (seg_start seg), seg_end = min te (seg_end seg),
          seg_bitmap = Or (seg_bitmap seg) tb \<rparr>]
     @ (if te < seg_end seg
        then [\<lparr> seg_start = te + 1, seg_end = seg_end seg, seg_bitmap = seg_bitmap seg \<rparr>] else [])"

lemmas body_simps = ProcessIntersections_body_def split_out_def addSegment_def isValid_def Let_def
  port_pred port_succ port_succ' leD

lemma ProcessIntersections_body_eq:
  assumes "isValid seg" "pos \<le> te" "seg_start seg \<le> te" "pos \<le> seg_end seg"
  shows "ProcessIntersections_body te tb seg pos new =
    (new @ split_out te tb seg pos, if seg_end seg < te then Some (seg_end seg + 1) else None)"
proof (cases te "seg_end seg" rule: linorder_cases)
  case less
  with port_less_neq [OF this] assms show ?thesis
    by (cases pos "seg_start seg" rule: linorder_cases) (simp_all add: body_simps)
next
  case equal
  with assms show ?thesis
    by (cases "te = UINT16_MAX"; cases pos "seg_start seg" rule: linorder_cases)
      (simp_all add: body_simps)
next
  case greater
  with port_less_neq [OF this] assms show ?thesis
    by (cases pos "seg_start seg" rule: linorder_cases) (simp_all add: body_simps)
qed

text \<open>What one run of the loop produces from position \<^verbatim>\<open>pos\<close>: a well-formed list that covers the rest of
  the target and the intersected segments, with the bitmaps united where they overlap.\<close>

definition splits_ok :: "u16 \<Rightarrow> u16 \<Rightarrow> bitmap \<Rightarrow> SegmentBitmap list \<Rightarrow> SegmentBitmap list \<Rightarrow> bool" where
  "splits_ok pos te tb segs out \<longleftrightarrow> wf_segs out \<and>
     (\<forall>t\<in>set out. pos \<le> seg_start t \<or> (\<exists>s\<in>set segs. seg_start s \<le> seg_start t)) \<and>
     (\<forall>p. seg_bits out p = seg_bits segs p \<union> (if pos \<le> p \<and> p \<le> te then bits tb else {})) \<and>
     seg_cov out = seg_cov segs \<union> {pos..te}"

lemma port_le_pred: "a < b \<Longrightarrow> p \<le> b - 1 \<longleftrightarrow> p < (b :: u16)"
  by (auto simp: less_eq_dec_iff)

lemma port_pred_less: "a < b \<Longrightarrow> b - 1 < p \<longleftrightarrow> (b :: u16) \<le> p"
  using port_le_pred [of a b p] by (auto simp flip: not_le)

lemma port_pred_le: "a < b \<Longrightarrow> b \<le> p \<Longrightarrow> b - 1 \<le> (p :: u16)"
  using port_pred_less by (metis less_imp_le)

lemma port_le_succ: "x \<noteq> UINT16_MAX \<Longrightarrow> y \<le> x \<Longrightarrow> y \<le> x + 1"
  using port_succ' less_imp_le by blast

lemmas split_simps = splits_ok_def split_out_def isValid_def in_seg_def port_le_pred port_succ port_succ'
  port_pred_less port_pred_le port_le_succ

lemma split_out_ok:
  assumes "isValid seg" "pos \<le> te" "seg_start seg \<le> te" "pos \<le> seg_end seg"
  shows "splits_ok pos (min te (seg_end seg)) tb [seg] (split_out te tb seg pos)"
proof (cases "te < seg_end seg")
  case True
  with port_less_neq [OF this] assms show ?thesis
    by (cases pos "seg_start seg" rule: linorder_cases)
      (auto simp: split_simps)
next
  case False
  with assms show ?thesis
    by (cases pos "seg_start seg" rule: linorder_cases)
      (auto simp: split_simps)
qed

lemma ProcessIntersections_loop_acc:
  assumes "wf_segs segs" "pos \<le> te" "\<forall>s\<in>set segs. seg_start s \<le> te \<and> pos \<le> seg_end s"
  shows "ProcessIntersections_loop te tb segs pos new = new @ ProcessIntersections_loop te tb segs pos []"
  using assms
proof (induction segs arbitrary: pos new)
  case (Cons seg segs)
  note body = ProcessIntersections_body_eq [of seg pos te tb]
  show ?case
  proof (cases "seg_end seg < te")
    case True
    note succ = port_succ [OF port_less_neq [OF True]]
    have "\<forall>s\<in>set segs. seg_start s \<le> te \<and> seg_end seg + 1 \<le> seg_end s"
      using Cons.prems(1,3) wf_segs_valid [of segs] by (auto simp: succ intro: less_le_trans)
    moreover have "seg_end seg + 1 \<le> te" "wf_segs segs" using True Cons.prems(1) by (simp_all add: succ)
    ultimately have "ProcessIntersections_loop te tb segs (seg_end seg + 1) new' =
        new' @ ProcessIntersections_loop te tb segs (seg_end seg + 1) []" for new'
      by (intro Cons.IH)
    from this [of "new @ split_out te tb seg pos"] this [of "split_out te tb seg pos"]
    show ?thesis using Cons.prems True body by simp
  next
    case False
    with Cons.prems body show ?thesis by simp
  qed
qed (simp add: addSegment_def)

lemma wf_segs_append: "wf_segs (xs @ ys) \<longleftrightarrow>
    wf_segs xs \<and> wf_segs ys \<and> (\<forall>x\<in>set xs. \<forall>y\<in>set ys. seg_end x < seg_start y)"
  by (auto simp: wf_segs_def sorted_wrt_append)

lemma splits_ok_append:
  assumes A: "splits_ok pos (seg_end seg) tb [seg] A"
    and B: "splits_ok (seg_end seg + 1) te tb segs B"
    and wf: "wf_segs (seg # segs)" and lt: "seg_end seg < te" and pos: "pos \<le> seg_end seg"
  shows "splits_ok pos te tb (seg # segs) (A @ B)"
proof -
  note succ = port_succ [OF port_less_neq [OF lt]]
  have endA: "seg_end a \<le> seg_end seg" if "a \<in> set A" for a
  proof -
    have "seg_end a \<in> seg_cov A"
      using A that wf_segs_valid [of A a] by (auto simp: splits_ok_def seg_cov_def in_seg_def)
    with A show ?thesis by (auto simp: splits_ok_def in_seg_def)
  qed
  have startB: "seg_end seg < seg_start b" if "b \<in> set B" for b
    using B that wf by (force simp: splits_ok_def succ)
  have wfAB: "wf_segs (A @ B)"
    using A B endA startB by (auto simp: wf_segs_append splits_ok_def intro: le_less_trans)
  have starts: "pos \<le> seg_start t \<or> (\<exists>s\<in>set (seg # segs). seg_start s \<le> seg_start t)"
    if "t \<in> set (A @ B)" for t
    using that A startB [of t] pos by (auto simp: splits_ok_def)
  have parts: "(pos \<le> p \<and> p \<le> seg_end seg) \<or> (seg_end seg + 1 \<le> p \<and> p \<le> te) \<longleftrightarrow> pos \<le> p \<and> p \<le> te"
    for p
    unfolding succ using lt pos by (cases "p \<le> seg_end seg") auto
  have "{pos..seg_end seg} \<union> {seg_end seg + 1..te} = {pos..te}"
    by (simp only: set_eq_iff Un_iff atLeastAtMost_iff parts simp_thms)
  moreover have "seg_cov (A @ B) = seg_cov (seg # segs) \<union> ({pos..seg_end seg} \<union> {seg_end seg + 1..te})"
    using A B unfolding splits_ok_def seg_cov_append seg_cov_Cons seg_cov_Nil by blast
  ultimately have cov: "seg_cov (A @ B) = seg_cov (seg # segs) \<union> {pos..te}" by (simp only:)
  have "seg_bits (A @ B) p = seg_bits (seg # segs) p \<union> (if pos \<le> p \<and> p \<le> te then bits tb else {})" for p
  proof -
    have "seg_bits (A @ B) p = seg_bits (seg # segs) p \<union>
        (if (pos \<le> p \<and> p \<le> seg_end seg) \<or> (seg_end seg + 1 \<le> p \<and> p \<le> te) then bits tb else {})"
      using A B unfolding splits_ok_def seg_bits_append seg_bits_Cons seg_bits_Nil by auto
    then show ?thesis unfolding parts .
  qed
  with wfAB starts cov show ?thesis by (auto simp: splits_ok_def)
qed

lemma ProcessIntersections_loop_ok:
  assumes "wf_segs segs" "pos \<le> te" "\<forall>s\<in>set segs. seg_start s \<le> te \<and> pos \<le> seg_end s"
  shows "splits_ok pos te tb segs (ProcessIntersections_loop te tb segs pos [])"
  using assms
proof (induction segs arbitrary: pos)
  case Nil
  then show ?case by (auto simp: splits_ok_def addSegment_def isValid_def in_seg_def)
next
  case (Cons seg segs)
  have body: "ProcessIntersections_body te tb seg pos [] =
      (split_out te tb seg pos, if seg_end seg < te then Some (seg_end seg + 1) else None)"
    and first: "splits_ok pos (min te (seg_end seg)) tb [seg] (split_out te tb seg pos)"
    using Cons.prems by (simp_all add: ProcessIntersections_body_eq split_out_ok)
  show ?case
  proof (cases "seg_end seg < te")
    case False
    then have mn: "min te (seg_end seg) = te" by simp
    have "t \<notin> set segs" for t
      using Cons.prems False by (auto simp: not_less dest!: bspec [of _ _ t])
    then have "segs = []" by (metis last_in_set)
    with False first [unfolded mn] body show ?thesis by simp
  next
    case True
    note succ = port_succ [OF port_less_neq [OF True]]
    let ?pos = "seg_end seg + 1"
    have next_end: "\<forall>s\<in>set segs. seg_start s \<le> te \<and> ?pos \<le> seg_end s"
      using Cons.prems(1,3) wf_segs_valid [of segs] by (auto simp: succ intro: less_le_trans)
    have le: "?pos \<le> te" and wf: "wf_segs segs" using True Cons.prems(1) by (simp_all add: succ)
    have "ProcessIntersections_loop te tb (seg # segs) pos [] =
        split_out te tb seg pos @ ProcessIntersections_loop te tb segs ?pos []"
      using body True ProcessIntersections_loop_acc [OF wf le next_end, of tb "split_out te tb seg pos"]
      by simp
    moreover have "splits_ok pos (seg_end seg) tb [seg] (split_out te tb seg pos)"
      using first True by (simp add: min.absorb2)
    ultimately show ?thesis
      using splits_ok_append [OF _ Cons.IH [OF wf le next_end] Cons.prems(1) True] Cons.prems(3) by simp
  qed
qed

lemma wf_segs_unique:
  assumes "wf_segs segs" "a \<in> set segs" "b \<in> set segs" "in_seg p a" "in_seg p b"
  shows "a = b"
  using assms
proof (induction segs)
  case (Cons s segs)
  have "\<not> in_seg p t" if "t \<in> set segs" "in_seg p s" for t
    using Cons.prems(1) that by (auto simp: in_seg_def)
  with Cons show ?case by auto
qed simp

lemma not_apart_common:
  assumes "\<not> apart t u" "isValid t" "isValid u"
  shows "\<exists>p. in_seg p t \<and> in_seg p u"
  using assms by (intro exI [of _ "max (seg_start t) (seg_start u)"]) (auto simp: apart_def in_seg_def isValid_def)

subsection \<open>Insertion at the lower bound\<close>

lemma lower_bound_insert_set: "set (lower_bound_insert seg segs) = insert seg (set segs)"
  by (auto simp: lower_bound_insert_def dest: set_takeWhileD)
     (metis Un_iff set_append takeWhile_dropWhile_id)+

lemma lower_bound_insert_wf:
  assumes "wf_segs segs" "isValid seg" "\<forall>t\<in>set segs. apart t seg"
  shows "wf_segs (lower_bound_insert seg segs)"
  using assms
proof (induction segs)
  case (Cons t segs)
  show ?case
  proof (cases "seg_start t < seg_start seg")
    case True
    have rec: "lower_bound_insert seg (t # segs) = t # lower_bound_insert seg segs"
      using True by (simp add: lower_bound_insert_def)
    have "seg_end t < seg_start seg"
      using Cons.prems True by (auto simp: apart_def isValid_def)
    with Cons rec show ?thesis by (simp add: lower_bound_insert_set)
  next
    case False
    then have "lower_bound_insert seg (t # segs) = seg # t # segs"
      by (simp add: lower_bound_insert_def)
    moreover have "seg_end seg < seg_start t"
      using Cons.prems False by (auto simp: apart_def isValid_def)
    moreover have "seg_start t < seg_start u" if "u \<in> set segs" for u
      using Cons.prems(1) that by (auto simp: isValid_def)
    ultimately show ?thesis using Cons.prems by force
  qed
qed (simp add: lower_bound_insert_def)

lemma InsertNewSegments_ok:
  assumes "wf_segs segs" "wf_segs new" "\<forall>t\<in>set segs. \<forall>u\<in>set new. apart t u"
  shows "wf_segs (InsertNewSegments new segs) \<and> set (InsertNewSegments new segs) = set segs \<union> set new"
  using assms
proof (induction new arbitrary: segs)
  case (Cons u new)
  have "\<forall>t\<in>set (lower_bound_insert u segs). \<forall>v\<in>set new. apart t v"
    using Cons.prems by (auto simp: lower_bound_insert_set apart_def)
  with Cons lower_bound_insert_wf [of segs u] show ?case
    by (auto simp: InsertNewSegments_def lower_bound_insert_set)
qed (simp add: InsertNewSegments_def)

lemma AddMap_ok:
  assumes wf: "wf_segs segs" and se: "s \<le> e"
  shows "wf_segs (AddMap s e b segs) \<and>
    (\<forall>p. seg_bits (AddMap s e b segs) p = seg_bits segs p \<union> (if s \<le> p \<and> p \<le> e then bits b else {})) \<and>
    seg_cov (AddMap s e b segs) = seg_cov segs \<union> {s..e}"
proof -
  let ?out = "\<lambda>t. e < seg_start t \<or> s > seg_end t"
  define hit where "hit = filter (\<lambda>t. \<not> ?out t) segs"
  define rest where "rest = filter ?out segs"
  define new where "new = ProcessIntersections_loop e b hit s []"
  have "map (nth segs) (CollectIntersectIndices s e segs) = hit"
    unfolding CollectIntersectIndices_def hit_def by (rule map_nth_filter_upt)
  then have AddMap: "AddMap s e b segs = InsertNewSegments new rest"
    using se wf_segs_sort [of hit] wf_segs_filter [OF wf]
    by (simp add: AddMap_def Let_def ProcessIntersections_def RemoveSegments_Collect new_def rest_def
        hit_def leD)
  have wfs: "wf_segs hit" "wf_segs rest" using wf by (simp_all add: hit_def rest_def wf_segs_filter)
  have "\<forall>t\<in>set hit. seg_start t \<le> e \<and> s \<le> seg_end t" by (auto simp: hit_def)
  from ProcessIntersections_loop_ok [OF wfs(1) se this, of b]
  have ok: "splits_ok s e b hit new" by (simp add: new_def)
  have "apart t u" if t: "t \<in> set rest" and u: "u \<in> set new" for t u
  proof (rule ccontr)
    assume "\<not> apart t u"
    moreover have "isValid t" "isValid u"
      using t u wfs ok by (auto simp: wf_segs_def list_all_iff splits_ok_def)
    ultimately obtain p where p: "in_seg p t" "in_seg p u" using not_apart_common by blast
    then have "p \<in> seg_cov new" using u by (auto simp: seg_cov_def)
    then have "p \<in> seg_cov hit \<or> s \<le> p \<and> p \<le> e" using ok by (auto simp: splits_ok_def)
    moreover have "\<not> (s \<le> p \<and> p \<le> e)" using t p by (auto simp: rest_def in_seg_def)
    ultimately obtain h where h: "h \<in> set hit" "in_seg p h" by (auto simp: seg_cov_def)
    then have "h = t" using wf_segs_unique [OF wf _ _ h(2) p(1)] t by (auto simp: hit_def rest_def)
    then show False using h t by (auto simp: hit_def rest_def)
  qed
  with InsertNewSegments_ok [OF wfs(2)] ok
  have ins: "wf_segs (AddMap s e b segs)" "set (AddMap s e b segs) = set (rest @ new)"
    by (auto simp: AddMap splits_ok_def)
  have "set segs = set (rest @ hit)" by (auto simp: rest_def hit_def)
  then have "seg_bits segs p = seg_bits rest p \<union> seg_bits hit p"
     "seg_cov segs = seg_cov rest \<union> seg_cov hit" for p
    using seg_set_cong [of segs "rest @ hit"] by simp_all
  with ins ok seg_set_cong [OF ins(2)] show ?thesis
    by (simp add: splits_ok_def Un_ac)
qed

lemma AddMap_skip: "e < s \<Longrightarrow> AddMap s e b segs = segs"
  by (simp add: AddMap_def)

lemma AddMap_total:
  assumes "wf_segs segs"
  shows "wf_segs (AddMap s e b segs)"
    and "seg_bits (AddMap s e b segs) p = seg_bits segs p \<union> (if s \<le> p \<and> p \<le> e then bits b else {})"
    and "seg_cov (AddMap s e b segs) = seg_cov segs \<union> {s..e}"
  using assms AddMap_ok [OF assms, of s e b] AddMap_skip [of e s b segs] by (cases "s \<le> e"; force)+

subsection \<open>Properties\<close>

text \<open>C23: Whatever sequence of port ranges is added to an empty segment map, the vector stays sorted and
  disjoint, a port is covered exactly when some added range contains it, and the bitmap found at a
  port is the union of the bitmaps of the added ranges that contain it.\<close>

theorem segment_map_correct:
  "let segs = foldl (\<lambda>m (s, e, b). AddMap s e b m) [] adds in
     wf_segs segs \<and> seg_cov segs = (\<Union>(s, e, b)\<in>set adds. {s..e}) \<and>
     (\<forall>p. seg_bits segs p = (\<Union>(s, e, b)\<in>{(s, e, b) \<in> set adds. s \<le> p \<and> p \<le> e}. bits b))"
proof (induction adds rule: rev_induct)
  case (snoc a adds)
  obtain s e b where a: "a = (s, e, b)" by (cases a)
  from snoc AddMap_total [of "foldl (\<lambda>m (s, e, b). AddMap s e b m) [] adds" s e b] show ?case
    by (auto simp: a Let_def)
qed simp

end
