(* ===== verification/Fw_Ranges.thy ===== *)
theory Fw_Ranges
  imports Fw_Bitmap
begin

text \<open>
  From address and port ranges to prefixes: \<^verbatim>\<open>IpParamParser::GetIp4AndMask\<close> with its helpers and
  \<^verbatim>\<open>BitmapManager::GetPortRangeAndMask\<close> of \<^verbatim>\<open>bitmap_manager.cpp\<close>. Both loops walk a range in aligned
  blocks whose size is a power of two. The locale \<^verbatim>\<open>block_choice\<close> states what they rely on: the
  chosen block is aligned at the start and does not run past the end. The cover theorem is proved
  once in the locale over the reference walk \<^verbatim>\<open>block_list\<close>, and each loop is shown to emit the
  blocks of that walk.
\<close>

datatype NetFirewallError =
    NETFIREWALL_SUCCESS
  | NETFIREWALL_ERR
  | NETFIREWALL_IP_STR_ERR
  | NETFIREWALL_MASK_ERR
  | NETFIREWALL_FAMILY_ERR
  | NETFIREWALL_EMPTY_ERR

definition IPV4_BIT_COUNT :: nat where
  "IPV4_BIT_COUNT = 32"

definition PORT_MAX_MASK :: nat where
  "PORT_MAX_MASK = 16"

record Ip4Data =
  d4_mask :: nat
  d4_data :: u32

record portRule =
  pr_prefixlen :: nat
  pr_data :: u16

subsection \<open>IPv4 ranges\<close>

function GetCidrBlockBits_loop :: "u64 \<Rightarrow> nat \<Rightarrow> nat" where
  "GetCidrBlockBits_loop cidrSize count =
     (let cidrSize' = drop_bit 1 cidrSize
      in if cidrSize' \<noteq> 0 then GetCidrBlockBits_loop cidrSize' (count + 1) else count)"
  by auto
termination
proof (relation "measure (\<lambda>(c, n). unat c)")
  fix c d :: u64 and n :: nat
  assume "d = drop_bit 1 c" "d \<noteq> 0"
  then have "unat d = unat c div 2" "unat c div 2 \<noteq> 0" by (simp, simp add: half_eq_0_iff)
  then show "((d, n + 1), c, n) \<in> measure (\<lambda>(c, n). unat c)" by simp
qed simp

declare GetCidrBlockBits_loop.simps [simp del]

definition GetCidrBlockBits :: "u64 \<Rightarrow> nat" where
  "GetCidrBlockBits cidrSize = GetCidrBlockBits_loop cidrSize 0"

text \<open>The test \<^verbatim>\<open>ip = 0\<close> never fires inside the loop: \<^verbatim>\<open>GetSuffixZeroLength\<close> returns before it, and
  shifting out a zero bit of a non-zero word leaves it non-zero.\<close>

function GetSuffixZeroLength_loop :: "u32 \<Rightarrow> nat \<Rightarrow> nat" where
  "GetSuffixZeroLength_loop ip count =
     (if ip = 0 then count
      else if ip AND 1 = 0 then GetSuffixZeroLength_loop (drop_bit 1 ip) (count + 1) else count)"
  by auto
termination
proof (relation "measure (\<lambda>(c, n). unat c)")
  fix c :: u32 and n :: nat
  assume "c \<noteq> 0"
  then have "0 < unat c" by (simp add: unat_gt_0)
  then show "((drop_bit 1 c, n + 1), c, n) \<in> measure (\<lambda>(c, n). unat c)"
    by simp
qed simp

declare GetSuffixZeroLength_loop.simps [simp del]

definition GetSuffixZeroLength :: "u32 \<Rightarrow> nat" where
  "GetSuffixZeroLength ip = (if ip = 0 then IPV4_BIT_COUNT else GetSuffixZeroLength_loop ip 0)"

definition AddIp :: "u32 \<Rightarrow> nat \<Rightarrow> Ip4Data list \<Rightarrow> Ip4Data list" where
  "AddIp ip m ip4Vec = ip4Vec @ [\<lparr> d4_mask = m, d4_data = ip \<rparr>]"

lemma GetCidrBlockBits_loop_bound:
  "c \<noteq> 0 \<Longrightarrow> \<exists>k. GetCidrBlockBits_loop c n = n + k \<and> 2 ^ k \<le> unat c \<and> unat c < 2 ^ Suc k"
proof (induction c n rule: GetCidrBlockBits_loop.induct)
  case (1 c n)
  show ?case
  proof (cases "drop_bit 1 c = 0")
    case True
    then have "unat c div 2 = 0" by (simp add: half_eq_0_iff)
    moreover have "0 < unat c" using 1 by (simp add: unat_gt_0)
    ultimately have "2 ^ 0 \<le> unat c" "unat c < 2 ^ Suc 0" by auto
    with True show ?thesis by (subst GetCidrBlockBits_loop.simps) (intro exI [of _ 0], simp)
  next
    case False
    then obtain k where k: "GetCidrBlockBits_loop (drop_bit 1 c) (n + 1) = n + 1 + k"
      "2 ^ k \<le> unat c div 2" "unat c div 2 < 2 ^ Suc k"
      using 1 by auto
    then have "2 ^ Suc k \<le> unat c" "unat c < 2 ^ Suc (Suc k)" by auto
    with k(1) False show ?thesis
      by (subst GetCidrBlockBits_loop.simps) (intro exI [of _ "Suc k"], simp)
  qed
qed

lemma GetCidrBlockBits_bound:
  "c \<noteq> 0 \<Longrightarrow> 2 ^ GetCidrBlockBits c \<le> unat c \<and> unat c < 2 ^ Suc (GetCidrBlockBits c)"
  using GetCidrBlockBits_loop_bound [of c 0] by (auto simp: GetCidrBlockBits_def)

lemma GetSuffixZeroLength_loop_dvd:
  "ip \<noteq> 0 \<Longrightarrow> \<exists>k. GetSuffixZeroLength_loop ip n = n + k \<and> 2 ^ k dvd unat ip"
proof (induction ip n rule: GetSuffixZeroLength_loop.induct)
  case (1 ip n)
  show ?case
  proof (cases "ip AND 1 = 0")
    case False
    with 1 show ?thesis by (subst GetSuffixZeroLength_loop.simps) (intro exI [of _ 0], simp)
  next
    case True
    then have ev: "even (unat ip)" by (simp add: low_bit_zero_iff)
    have "drop_bit 1 ip \<noteq> 0"
    proof
      assume "drop_bit 1 ip = 0"
      then have "unat ip div 2 = 0" by (simp add: half_eq_0_iff)
      with ev have "unat ip = 0" by auto
      with 1 show False by (simp add: unat_eq_0)
    qed
    with 1 True obtain k where k: "GetSuffixZeroLength_loop (drop_bit 1 ip) (n + 1) = n + 1 + k"
      "2 ^ k dvd unat ip div 2" by auto
    then have "2 ^ Suc k dvd unat ip" using ev by (metis dvd_mult_div_cancel mult_dvd_mono dvd_refl power_Suc)
    with k(1) True 1 show ?thesis
      by (subst GetSuffixZeroLength_loop.simps) (intro exI [of _ "Suc k"], simp)
  qed
qed

lemma GetSuffixZeroLength_bound: "GetSuffixZeroLength ip \<le> 32 \<and> 2 ^ GetSuffixZeroLength ip dvd unat ip"
proof (cases "ip = 0")
  case False
  then obtain k where k: "GetSuffixZeroLength ip = k" "2 ^ k dvd unat ip"
    using GetSuffixZeroLength_loop_dvd [of ip 0] by (auto simp: GetSuffixZeroLength_def)
  have "(2 :: nat) ^ k \<le> unat ip" using k False by (simp add: dvd_imp_le unat_gt_0)
  also have "\<dots> < 2 ^ 32" by (rule unat_u32_less)
  finally have "k < 32" by (rule power_less_imp_less_exp [rotated]) simp
  with k show ?thesis by simp
qed (simp add: GetSuffixZeroLength_def IPV4_BIT_COUNT_def)

text \<open>The block chosen at a start address with \<^verbatim>\<open>remaining\<close> addresses left.\<close>

definition ip4_cidr_bits :: "u32 \<Rightarrow> u64 \<Rightarrow> nat" where
  "ip4_cidr_bits startIpInt remainingCidrSize =
     GetCidrBlockBits (min (push_bit (GetSuffixZeroLength startIpInt) 1) remainingCidrSize)"

lemma ip4_cidr_bits_ok:
  assumes "r \<noteq> 0"
  shows "2 ^ ip4_cidr_bits s r \<le> unat r" "2 ^ ip4_cidr_bits s r dvd unat s" "ip4_cidr_bits s r \<le> 32"
proof -
  let ?z = "GetSuffixZeroLength s"
  have "unat (push_bit ?z (1 :: u64)) = 2 ^ ?z"
    using GetSuffixZeroLength_bound [of s] by (simp add: push_bit_of_1)
  then have c: "unat (min (push_bit ?z 1) r) = min (2 ^ ?z) (unat r)"
    by (simp add: min_def word_le_nat_alt)
  have "0 < unat r" using assms by (simp add: unat_gt_0)
  then have "min (push_bit ?z 1) r \<noteq> 0" using c by (auto simp flip: unat_gt_0)
  from GetCidrBlockBits_bound [OF this] have b: "2 ^ ip4_cidr_bits s r \<le> min (2 ^ ?z) (unat r)"
    unfolding c ip4_cidr_bits_def by (rule conjunct1)
  then show "2 ^ ip4_cidr_bits s r \<le> unat r" by simp
  from b have "(2 :: nat) ^ ip4_cidr_bits s r \<le> 2 ^ ?z" by simp
  then have le: "ip4_cidr_bits s r \<le> ?z" by simp
  then show "2 ^ ip4_cidr_bits s r dvd unat s"
    using GetSuffixZeroLength_bound [of s] le_imp_power_dvd [OF le] by (metis dvd_trans)
  from le show "ip4_cidr_bits s r \<le> 32" using GetSuffixZeroLength_bound [of s] by simp
qed

function GetIp4AndMask_loop :: "u32 \<Rightarrow> u32 \<Rightarrow> Ip4Data list \<Rightarrow> Ip4Data list" where
  "GetIp4AndMask_loop startIpInt endIpInt list =
     (if startIpInt \<le> endIpInt then
        (let remainingCidrSize = ucast endIpInt - ucast startIpInt + 1;
             cidrBits = ip4_cidr_bits startIpInt remainingCidrSize;
             list' = AddIp startIpInt (IPV4_BIT_COUNT - cidrBits) list;
             nextStart = ucast startIpInt + push_bit cidrBits 1 :: u64
         in if nextStart > ucast endIpInt then list'
            else GetIp4AndMask_loop (ucast nextStart) endIpInt list')
      else list)"
  by auto

lemma unat_remaining4:
  assumes "s \<le> (e :: u32)"
  shows "unat (ucast e - ucast s + 1 :: u64) = unat e - unat s + 1"
  using assms unat_u32_less [of e]
  by (simp add: unat_word_ariths(1) unat_sub word_le_nat_alt)

lemma unat_next4:
  assumes "s \<le> (e :: u32)" "c = ip4_cidr_bits s (ucast e - ucast s + 1)"
  shows "unat (ucast s + push_bit c 1 :: u64) = unat s + 2 ^ c" "2 ^ c \<le> unat e - unat s + 1"
    "2 ^ c dvd unat s" "c \<le> 32"
proof -
  have "unat (ucast e - ucast s + 1 :: u64) \<noteq> 0" by (simp add: unat_remaining4 [OF assms(1)])
  then have "ucast e - ucast s + 1 \<noteq> (0 :: u64)" by (metis unat_0)
  note ok = ip4_cidr_bits_ok [OF this, of s, folded assms(2), unfolded unat_remaining4 [OF assms(1)]]
  from ok show "2 ^ c \<le> unat e - unat s + 1" "2 ^ c dvd unat s" "c \<le> 32" by simp_all
  have "unat s + 2 ^ c < 2 ^ 64"
    using ok(1) unat_u32_less [of e] assms(1) by (simp add: word_le_nat_alt)
  with ok(3) show "unat (ucast s + push_bit c 1 :: u64) = unat s + 2 ^ c"
    by (simp add: unat_word_ariths(1) push_bit_of_1)
qed

termination GetIp4AndMask_loop
proof (relation "measure (\<lambda>(s, e, l). unat e + 1 - unat s)")
  fix s e :: u32 and l l' :: "Ip4Data list" and r n :: u64 and c
  assume le: "s \<le> e" and r: "r = ucast e - ucast s + 1" and c: "c = ip4_cidr_bits s r"
    and n: "n = ucast s + push_bit c 1" and ngt: "\<not> ucast e < n"
  have nv: "unat n = unat s + 2 ^ c" using unat_next4(1) [OF le c [unfolded r]] n by simp
  have "unat n \<le> unat e" using ngt by (simp add: not_less word_le_nat_alt)
  then have "unat (ucast n :: u32) = unat n" using unat_u32_less [of e] by (intro unat_ucast_fits) simp
  moreover have "unat s < unat n" using nv by simp
  ultimately show "((ucast n, e, l'), s, e, l) \<in> measure (\<lambda>(s, e, l). unat e + 1 - unat s)"
    using \<open>unat n \<le> unat e\<close> by simp
qed simp

declare GetIp4AndMask_loop.simps [simp del]

definition GetIp4AndMask :: "u32 \<Rightarrow> u32 \<Rightarrow> Ip4Data list \<Rightarrow> NetFirewallError \<times> Ip4Data list" where
  "GetIp4AndMask startAddr endAddr list =
     (let startIpInt = ntohl startAddr; endIpInt = ntohl endAddr
      in if startIpInt > endIpInt then (NETFIREWALL_ERR, list)
         else (NETFIREWALL_SUCCESS, GetIp4AndMask_loop startIpInt endIpInt list))"

subsection \<open>Port ranges\<close>

text \<open>The counters of \<^verbatim>\<open>GetPortRangeAndMask\<close> are \<^verbatim>\<open>uint32_t\<close> values that start below \<open>2 ^ 16\<close> and never
  exceed \<open>2 ^ 17\<close>, so they are natural numbers here.\<close>

function port_suffix_zeros :: "nat \<Rightarrow> nat \<Rightarrow> nat" where
  "port_suffix_zeros temp suffixZeros =
     (if temp > 0 \<and> temp AND 1 = 0 then port_suffix_zeros (drop_bit 1 temp) (suffixZeros + 1)
      else suffixZeros)"
  by auto
termination by (relation "measure fst") (auto simp: drop_bit_Suc)

function port_block_size :: "nat \<Rightarrow> nat \<Rightarrow> nat" where
  "port_block_size blockSize remaining =
     (if blockSize > remaining then port_block_size (drop_bit 1 blockSize) remaining else blockSize)"
  by auto
termination by (relation "measure fst") (auto simp: drop_bit_Suc)

function port_block_mask :: "nat \<Rightarrow> nat \<Rightarrow> nat" where
  "port_block_mask tempSize msk =
     (if tempSize > 1 then port_block_mask (drop_bit 1 tempSize) (msk - 1) else msk)"
  by auto
termination by (relation "measure fst") (auto simp: drop_bit_Suc)

declare port_suffix_zeros.simps [simp del] port_block_size.simps [simp del] port_block_mask.simps [simp del]

lemma port_suffix_zeros_dvd: "\<exists>k. port_suffix_zeros t z = z + k \<and> 2 ^ k dvd t"
proof (induction t z rule: port_suffix_zeros.induct)
  case (1 t z)
  show ?case
  proof (cases "t > 0 \<and> t AND 1 = 0")
    case True
    then have ev: "even t" by (metis and_one_eq even_iff_mod_2_eq_zero)
    from 1 True obtain k where k: "port_suffix_zeros (drop_bit 1 t) (z + 1) = z + 1 + k" "2 ^ k dvd t div 2"
      by (auto simp: drop_bit_Suc)
    then have "2 ^ Suc k dvd t"
      using ev by (metis dvd_mult_div_cancel mult_dvd_mono dvd_refl power_Suc)
    with k True show ?thesis by (subst port_suffix_zeros.simps) (intro exI [of _ "Suc k"], simp)
  next
    case False
    then show ?thesis by (subst port_suffix_zeros.simps) (intro exI [of _ 0], auto)
  qed
qed

lemma port_block_size_ok:
  "0 < r \<Longrightarrow> \<exists>j \<le> k. port_block_size (2 ^ k) r = 2 ^ j \<and> 2 ^ j \<le> r"
proof (induction k)
  case 0
  then show ?case by (subst port_block_size.simps) auto
next
  case (Suc k)
  then show ?case by (subst port_block_size.simps) (auto simp: drop_bit_Suc intro: le_SucI)
qed

lemma port_block_mask_eq: "port_block_mask (2 ^ k) mk = mk - k"
proof (induction k arbitrary: mk)
  case 0
  show ?case by (subst port_block_mask.simps) simp
next
  case (Suc k)
  have "1 < (2 :: nat) ^ Suc k" by (rule one_less_power) simp_all
  then show ?case by (subst port_block_mask.simps) (simp add: Suc drop_bit_Suc)
qed

text \<open>The block chosen at a start port with \<^verbatim>\<open>remaining\<close> ports left.\<close>

definition port_block :: "nat \<Rightarrow> nat \<Rightarrow> nat" where
  "port_block start remaining = port_block_size (push_bit (port_suffix_zeros start 0) 1) remaining"

lemma port_block_ok:
  assumes "0 < r"
  obtains k where "port_block s r = 2 ^ k" "2 ^ k \<le> r" "2 ^ k dvd s"
proof -
  obtain z where z: "port_suffix_zeros s 0 = z" "2 ^ z dvd s" using port_suffix_zeros_dvd [of s 0] by auto
  obtain j where "j \<le> z" "port_block_size (2 ^ z) r = 2 ^ j" "2 ^ j \<le> r"
    using port_block_size_ok [OF assms, of z] by blast
  with z that [of j] show ?thesis by (auto simp: port_block_def push_bit_of_1 intro: power_le_dvd)
qed

function GetPortRangeAndMask_loop :: "nat \<Rightarrow> nat \<Rightarrow> portRule list \<Rightarrow> portRule list" where
  "GetPortRangeAndMask_loop start endp list =
     (if start \<le> endp then
        (let blockSize = port_block start (endp - start + 1);
             msk = port_block_mask blockSize PORT_MAX_MASK;
             rule = \<lparr> pr_prefixlen = msk, pr_data = of_nat start \<rparr>
         in GetPortRangeAndMask_loop (start + blockSize) endp (list @ [rule]))
      else list)"
  by auto
termination
proof (relation "measure (\<lambda>(s, e, l). e + 1 - s)")
  fix s e b mk :: nat and l :: "portRule list" and r
  assume "s \<le> e" "b = port_block s (e - s + 1)"
  then have "0 < b" using port_block_ok [of "e - s + 1" s] by (metis add_gr_0 less_one zero_less_numeral zero_less_power)
  with \<open>s \<le> e\<close> show "((s + b, e, l @ [r]), s, e, l) \<in> measure (\<lambda>(s, e, l). e + 1 - s)" by simp
qed simp

declare GetPortRangeAndMask_loop.simps [simp del]

definition GetPortRangeAndMask :: "u16 \<Rightarrow> u16 \<Rightarrow> portRule list \<Rightarrow> int \<times> portRule list" where
  "GetPortRangeAndMask startPort endPort list =
     (if startPort > endPort then (- 1, list)
      else (0, GetPortRangeAndMask_loop (unat startPort) (unat endPort) list))"

subsection \<open>The reference walk over a range\<close>

function block_list :: "(nat \<Rightarrow> nat \<Rightarrow> nat) \<Rightarrow> nat \<Rightarrow> nat \<Rightarrow> (nat \<times> nat) list" where
  "block_list blk s e =
     (if s \<le> e then (s, blk s (e - s + 1)) # block_list blk (s + 2 ^ blk s (e - s + 1)) e else [])"
  by auto
termination
proof (relation "measure (\<lambda>(blk, s, e). e + 1 - s)")
  fix blk :: "nat \<Rightarrow> nat \<Rightarrow> nat" and s e :: nat
  assume "s \<le> e"
  moreover have "s < s + 2 ^ blk s (e - s + 1)" by simp
  ultimately show "((blk, s + 2 ^ blk s (e - s + 1), e), blk, s, e) \<in> measure (\<lambda>(blk, s, e). e + 1 - s)"
    unfolding in_measure split_conv by linarith
qed simp

declare block_list.simps [simp del]

definition block_range :: "nat \<times> nat \<Rightarrow> nat set" where
  "block_range = (\<lambda>(a, k). {a..<a + 2 ^ k})"

locale block_choice =
  fixes bound :: nat
    and blk :: "nat \<Rightarrow> nat \<Rightarrow> nat"
  assumes blk_fits: "0 < r \<Longrightarrow> s + r \<le> bound \<Longrightarrow> 2 ^ blk s r \<le> r"
    and blk_aligned: "0 < r \<Longrightarrow> s + r \<le> bound \<Longrightarrow> 2 ^ blk s r dvd s"
begin

lemma block_list_Nil: "e < s \<Longrightarrow> block_list blk s e = []"
  by (subst block_list.simps) simp

lemma block_list_induct [consumes 1, case_names stop step]:
  assumes "e < bound"
    and "\<And>s. e < s \<Longrightarrow> block_list blk s e = [] \<Longrightarrow> P s"
    and "\<And>s k. s \<le> e \<Longrightarrow> 2 ^ k dvd s \<Longrightarrow> s + 2 ^ k \<le> e + 1 \<Longrightarrow>
      block_list blk s e = (s, k) # block_list blk (s + 2 ^ k) e \<Longrightarrow> P (s + 2 ^ k) \<Longrightarrow> P s"
  shows "P s"
proof (induction "e + 1 - s" arbitrary: s rule: less_induct)
  case less
  show ?case
  proof (cases "s \<le> e")
    case False
    then show ?thesis using assms(2) by (simp add: block_list_Nil)
  next
    case True
    define k where "k = blk s (e - s + 1)"
    have k: "2 ^ k \<le> e - s + 1" "2 ^ k dvd s"
      using True assms(1) blk_fits [of "e - s + 1" s] blk_aligned [of "e - s + 1" s] by (simp_all add: k_def)
    have "s < s + 2 ^ k" by simp
    then have "P (s + 2 ^ k)" using True by (intro less) linarith
    moreover have "block_list blk s e = (s, k) # block_list blk (s + 2 ^ k) e"
      using True by (subst block_list.simps) (simp add: k_def)
    ultimately show ?thesis using True k by (intro assms(3) [of s k]) simp_all
  qed
qed

lemma block_list_aligned:
  "e < bound \<Longrightarrow> \<forall>(a, k)\<in>set (block_list blk s e). 2 ^ k dvd a \<and> s \<le> a \<and> a + 2 ^ k \<le> e + 1"
  by (induction s rule: block_list_induct) fastforce+

lemma block_list_disjoint:
  assumes "e < bound"
  shows "sorted_wrt (\<lambda>(a, k) (b, l). a + 2 ^ k \<le> b) (block_list blk s e)"
  using assms
proof (induction s rule: block_list_induct)
  case (step s k)
  then show ?case using block_list_aligned [OF assms, of "s + 2 ^ k"] by auto
qed simp

lemma block_list_cover: "e < bound \<Longrightarrow> (\<Union>b\<in>set (block_list blk s e). block_range b) = {s..e}"
proof (induction s rule: block_list_induct)
  case (step s k)
  have "{s..<s + 2 ^ k} \<union> {s + 2 ^ k..e} = {s..e}" using step by auto
  with step show ?case by (simp add: block_range_def)
qed simp

end

subsection \<open>Both loops emit the blocks of the reference walk\<close>

definition ip4_blk :: "nat \<Rightarrow> nat \<Rightarrow> nat" where
  "ip4_blk s r = ip4_cidr_bits (of_nat s) (of_nat r)"

interpretation ip4: block_choice "2 ^ 32" ip4_blk
proof (unfold_locales, goal_cases)
  case (1 r s)
  then have "unat (of_nat r :: u64) = r" by (simp add: unat_of_nat take_bit_nat_eq_self)
  moreover have "(of_nat r :: u64) \<noteq> 0" using 1 calculation by (metis less_irrefl unat_0)
  ultimately show ?case using ip4_cidr_bits_ok(1) [of "of_nat r" "of_nat s"] by (simp add: ip4_blk_def)
next
  case (2 r s)
  then have "unat (of_nat r :: u64) = r" "unat (of_nat s :: u32) = s"
    by (simp_all add: unat_of_nat take_bit_nat_eq_self)
  moreover have "(of_nat r :: u64) \<noteq> 0" using 2 calculation by (metis less_irrefl unat_0)
  ultimately show ?case using ip4_cidr_bits_ok(2) [of "of_nat r" "of_nat s"] by (simp add: ip4_blk_def)
qed

definition port_blk :: "nat \<Rightarrow> nat \<Rightarrow> nat" where
  "port_blk s r = PORT_MAX_MASK - port_block_mask (port_block s r) PORT_MAX_MASK"

lemma port_blk_eq:
  assumes "0 < r" "r \<le> 2 ^ 16"
  shows "port_block s r = 2 ^ port_blk s r" "port_blk s r \<le> 16" "2 ^ port_blk s r \<le> r" "2 ^ port_blk s r dvd s"
    "port_block_mask (port_block s r) PORT_MAX_MASK = PORT_MAX_MASK - port_blk s r"
proof -
  obtain k where k: "port_block s r = 2 ^ k" "2 ^ k \<le> r" "2 ^ k dvd s" using port_block_ok [OF assms(1)] by blast
  have "(2 :: nat) ^ k \<le> 2 ^ 16" using k(2) assms(2) by (rule le_trans)
  then have "k \<le> 16" by (rule power_le_imp_le_exp [rotated]) simp
  moreover have "port_blk s r = k"
    using \<open>k \<le> 16\<close> by (simp add: port_blk_def k port_block_mask_eq PORT_MAX_MASK_def)
  ultimately show "port_block s r = 2 ^ port_blk s r" "port_blk s r \<le> 16" "2 ^ port_blk s r \<le> r"
    "2 ^ port_blk s r dvd s" "port_block_mask (port_block s r) PORT_MAX_MASK = PORT_MAX_MASK - port_blk s r"
    using k by (simp_all add: port_block_mask_eq)
qed

interpretation port: block_choice "2 ^ 16" port_blk
  by unfold_locales (use port_blk_eq in simp_all)

lemma GetIp4AndMask_loop_blocks:
  "s \<le> e \<Longrightarrow> GetIp4AndMask_loop s e list = list @
    map (\<lambda>(a, k). \<lparr> d4_mask = IPV4_BIT_COUNT - k, d4_data = of_nat a \<rparr>) (block_list ip4_blk (unat s) (unat e))"
proof (induction s e list rule: GetIp4AndMask_loop.induct)
  case (1 s e list)
  define c where "c = ip4_cidr_bits s (ucast e - ucast s + 1)"
  define n where "n = (ucast s + push_bit c 1 :: u64)"
  note nx = unat_next4 [OF \<open>s \<le> e\<close> c_def, folded n_def]
  have se: "unat s \<le> unat e" using 1 by (simp add: word_le_nat_alt)
  have "of_nat (unat e - unat s + 1) = (ucast e - ucast s + 1 :: u64)"
    unfolding unat_remaining4 [OF \<open>s \<le> e\<close>, symmetric] by (simp only: of_nat_unat ucast_id)
  then have "ip4_blk (unat s) (unat e - unat s + 1) = c"
    unfolding ip4_blk_def c_def by (simp only: of_nat_unat ucast_id)
  then have bl: "block_list ip4_blk (unat s) (unat e) =
      (unat s, c) # block_list ip4_blk (unat s + 2 ^ c) (unat e)"
    using se by (subst block_list.simps) simp
  have unfold: "GetIp4AndMask_loop s e list = (if n > ucast e then AddIp s (IPV4_BIT_COUNT - c) list
      else GetIp4AndMask_loop (ucast n) e (AddIp s (IPV4_BIT_COUNT - c) list))"
    using \<open>s \<le> e\<close> by (subst GetIp4AndMask_loop.simps) (simp add: c_def n_def Let_def)
  show ?case
  proof (cases "n > ucast e")
    case True
    then have "unat e < unat s + 2 ^ c" using nx by (simp add: word_less_nat_alt)
    with True show ?thesis by (simp add: unfold bl ip4.block_list_Nil AddIp_def)
  next
    case False
    then have le: "unat n \<le> unat e" by (simp add: not_less word_le_nat_alt)
    then have un: "unat (ucast n :: u32) = unat n" using unat_u32_less [of e] by (intro unat_ucast_fits) simp
    then have "ucast n \<le> e" using le by (simp add: word_le_nat_alt)
    from "1.IH" [OF \<open>s \<le> e\<close> refl c_def refl n_def False this] un nx(1) False show ?thesis
      by (simp add: unfold bl AddIp_def)
  qed
qed

lemma GetPortRangeAndMask_loop_blocks:
  "e < 2 ^ 16 \<Longrightarrow> GetPortRangeAndMask_loop s e list = list @
    map (\<lambda>(a, k). \<lparr> pr_prefixlen = PORT_MAX_MASK - k, pr_data = of_nat a \<rparr>) (block_list port_blk s e)"
proof (induction s e list rule: GetPortRangeAndMask_loop.induct)
  case (1 s e list)
  show ?case
  proof (cases "s \<le> e")
    case True
    then have r: "0 < e - s + 1" "e - s + 1 \<le> 2 ^ 16" using 1 by simp_all
    from True 1 show ?thesis
      by (subst GetPortRangeAndMask_loop.simps, subst block_list.simps)
        (simp add: Let_def port_blk_eq(1) [OF r, simplified] port_block_mask_eq)
  qed (subst GetPortRangeAndMask_loop.simps, simp add: port.block_list_Nil)
qed

subsection \<open>Prefixes as sets of addresses\<close>

text \<open>A prefix of length \<open>m\<close> matches the addresses that agree with it on the \<open>m\<close> leading bits.\<close>

definition ip4_in :: "Ip4Data \<Rightarrow> u32 \<Rightarrow> bool" where
  "ip4_in d x \<longleftrightarrow> drop_bit (32 - d4_mask d) (d4_data d) = drop_bit (32 - d4_mask d) x"

definition port_in :: "portRule \<Rightarrow> u16 \<Rightarrow> bool" where
  "port_in d x \<longleftrightarrow> drop_bit (16 - pr_prefixlen d) (pr_data d) = drop_bit (16 - pr_prefixlen d) x"

lemma drop_bit_eq_iff: "drop_bit k a = drop_bit k b \<longleftrightarrow> unat (a :: 'a :: len word) div 2 ^ k = unat b div 2 ^ k"
  by (metis drop_bit_eq_div unat_drop_bit_eq word_unat_eq_iff)

lemma aligned_block_iff:
  assumes "2 ^ k dvd a"
  shows "a div 2 ^ k = x div 2 ^ k \<longleftrightarrow> x \<in> block_range (a, k)"
proof -
  from assms obtain m where m: "a = m * 2 ^ k" by (metis dvd_div_mult_self)
  have "m = x div 2 ^ k \<longleftrightarrow> m * 2 ^ k \<le> x \<and> x < m * 2 ^ k + 2 ^ k"
    using div_nat_eqI [of "2 ^ k" m x] div_times_less_eq_dividend [of x "2 ^ k"]
      dividend_less_div_times [of "2 ^ k" x] by (auto simp: mult.commute algebra_simps)
  with m show ?thesis by (simp add: block_range_def)
qed

lemma prefix_block:
  "2 ^ k dvd unat a \<Longrightarrow> drop_bit k a = drop_bit k x \<longleftrightarrow> unat (x :: 'a :: len word) \<in> block_range (unat a, k)"
  by (simp add: drop_bit_eq_iff aligned_block_iff)

definition ip4_norm :: "Ip4Data \<Rightarrow> bool" where
  "ip4_norm d \<longleftrightarrow> d4_mask d \<le> 32 \<and> take_bit (32 - d4_mask d) (d4_data d) = 0"

definition port_norm :: "portRule \<Rightarrow> bool" where
  "port_norm d \<longleftrightarrow> pr_prefixlen d \<le> 16 \<and> take_bit (16 - pr_prefixlen d) (pr_data d) = 0"

lemma aligned_take_bit: "2 ^ k dvd unat a \<Longrightarrow> take_bit k (a :: 'a :: len word) = 0"
proof -
  assume "2 ^ k dvd unat a"
  then have "take_bit k (unat a) = 0" by (simp add: take_bit_eq_mod)
  then have "unat (take_bit k a) = 0" by (simp add: unsigned_take_bit_eq)
  then show ?thesis by (simp only: unat_eq_0)
qed

lemma ip4_block_data:
  assumes "(a, k) \<in> set (block_list ip4_blk s e)" "e < 2 ^ 32"
  defines "d \<equiv> \<lparr> d4_mask = IPV4_BIT_COUNT - k, d4_data = of_nat a \<rparr>"
  shows "ip4_in d x \<longleftrightarrow> unat x \<in> block_range (a, k)" "ip4_norm d"
proof -
  from ip4.block_list_aligned [OF assms(2), of s] assms(1)
  have al: "2 ^ k dvd a" "a + 2 ^ k \<le> e + 1" by auto
  have "a < a + 2 ^ k" by simp
  then have "a < 2 ^ 32" using al(2) assms(2) by linarith
  then have a: "unat (of_nat a :: u32) = a" by (simp add: unat_of_nat take_bit_nat_eq_self)
  have "(2 :: nat) ^ k \<le> 2 ^ 32" using al assms(2) by linarith
  then have k: "k \<le> 32" by (rule power_le_imp_le_exp [rotated]) simp
  show "ip4_in d x \<longleftrightarrow> unat x \<in> block_range (a, k)" "ip4_norm d"
    using k al(1) prefix_block [of k "of_nat a :: u32" x] aligned_take_bit [of k "of_nat a :: u32"]
    by (simp_all add: d_def ip4_in_def ip4_norm_def IPV4_BIT_COUNT_def a)
qed

lemma port_block_data:
  assumes "(a, k) \<in> set (block_list port_blk s e)" "e < 2 ^ 16"
  defines "d \<equiv> \<lparr> pr_prefixlen = PORT_MAX_MASK - k, pr_data = of_nat a \<rparr>"
  shows "port_in d x \<longleftrightarrow> unat x \<in> block_range (a, k)" "port_norm d"
proof -
  from port.block_list_aligned [OF assms(2), of s] assms(1)
  have al: "2 ^ k dvd a" "a + 2 ^ k \<le> e + 1" by auto
  have "a < a + 2 ^ k" by simp
  then have "a < 2 ^ 16" using al(2) assms(2) by linarith
  then have a: "unat (of_nat a :: u16) = a" by (simp add: unat_of_nat take_bit_nat_eq_self)
  have "(2 :: nat) ^ k \<le> 2 ^ 16" using al assms(2) by linarith
  then have k: "k \<le> 16" by (rule power_le_imp_le_exp [rotated]) simp
  show "port_in d x \<longleftrightarrow> unat x \<in> block_range (a, k)" "port_norm d"
    using k al(1) prefix_block [of k "of_nat a :: u16" x] aligned_take_bit [of k "of_nat a :: u16"]
    by (simp_all add: d_def port_in_def port_norm_def PORT_MAX_MASK_def a)
qed

text \<open>What it means for a list of prefixes to be an exact cover: every prefix is normalised, no address is
  matched twice, and the matched addresses are those of the range.\<close>

definition exact_cover :: "('d \<Rightarrow> 'x \<Rightarrow> bool) \<Rightarrow> ('d \<Rightarrow> bool) \<Rightarrow> 'd list \<Rightarrow> 'x set \<Rightarrow> bool" where
  "exact_cover inn norm ds S \<longleftrightarrow> list_all norm ds \<and> {x. \<exists>d\<in>set ds. inn d x} = S \<and>
     sorted_wrt (\<lambda>d d'. \<nexists>x. inn d x \<and> inn d' x) ds"

lemma exact_cover_blocks:
  assumes inn: "\<And>a k x. (a, k) \<in> set bl \<Longrightarrow> inn (g (a, k)) x \<longleftrightarrow> unat (x :: 'a :: len word) \<in> block_range (a, k)"
    and norm: "\<And>a k. (a, k) \<in> set bl \<Longrightarrow> norm (g (a, k))"
    and cover: "(\<Union>b\<in>set bl. block_range b) = {unat s..unat e}"
    and disj: "sorted_wrt (\<lambda>(a, k) (b, l). a + 2 ^ k \<le> b) bl"
  shows "exact_cover inn norm (map g bl) {s..e}"
proof -
  have "(\<exists>b\<in>set bl. inn (g b) x) \<longleftrightarrow> (\<exists>b\<in>set bl. unat x \<in> block_range b)" for x :: "'a word"
    using inn by fast
  also have "\<dots> x \<longleftrightarrow> unat x \<in> {unat s..unat e}" for x :: "'a word"
    by (simp only: cover [symmetric] UN_iff)
  finally have "(\<exists>b\<in>set bl. inn (g b) x) \<longleftrightarrow> s \<le> x \<and> x \<le> e" for x :: "'a word"
    by (simp add: word_le_nat_alt)
  moreover have "sorted_wrt (\<lambda>b c. \<nexists>x. inn (g b) x \<and> inn (g c) x) bl"
    by (rule sorted_wrt_mono_rel [OF _ disj]) (auto simp: inn block_range_def)
  ultimately show ?thesis using norm by (auto simp: exact_cover_def list_all_iff sorted_wrt_map)
qed

lemma GetIp4AndMask_loop_exact: "s \<le> e \<Longrightarrow> exact_cover ip4_in ip4_norm (GetIp4AndMask_loop s e []) {s..e}"
  using ip4_block_data [where s = "unat s" and e = "unat e"] ip4.block_list_disjoint [of "unat e" "unat s"]
    ip4.block_list_cover [of "unat e" "unat s"] unat_u32_less [of e]
  by (auto simp: GetIp4AndMask_loop_blocks intro!: exact_cover_blocks)

lemma GetPortRangeAndMask_loop_exact:
  "exact_cover port_in port_norm (GetPortRangeAndMask_loop (unat s) (unat e) []) {s..e}"
  using port_block_data [where s = "unat s" and e = "unat e"] port.block_list_disjoint [of "unat e" "unat s"]
    port.block_list_cover [of "unat e" "unat s"] unat_u16_less [of e]
  by (auto simp: GetPortRangeAndMask_loop_blocks intro!: exact_cover_blocks)

subsection \<open>Properties\<close>

text \<open>C21: Splitting an IPv4 range succeeds exactly when the range is not reversed, and the emitted
  prefixes are normalised, pairwise disjoint and match exactly the addresses of the range.\<close>

theorem GetIp4AndMask_exact:
  "(case GetIp4AndMask startAddr endAddr [] of (ret, ds) \<Rightarrow>
      (ret = NETFIREWALL_SUCCESS \<longleftrightarrow> ntohl startAddr \<le> ntohl endAddr) \<and>
      (ret = NETFIREWALL_SUCCESS \<or> ret = NETFIREWALL_ERR \<and> ds = []) \<and>
      exact_cover ip4_in ip4_norm ds {ntohl startAddr..ntohl endAddr})"
  using GetIp4AndMask_loop_exact [of "ntohl startAddr" "ntohl endAddr"]
  by (auto simp: GetIp4AndMask_def Let_def exact_cover_def)

text \<open>C22: Splitting a port range fails exactly on a reversed range; otherwise the emitted prefixes are
  normalised, pairwise disjoint and match exactly the ports of the range.\<close>

theorem GetPortRangeAndMask_exact:
  "(case GetPortRangeAndMask startPort endPort [] of (ret, rs) \<Rightarrow>
      (ret = 0 \<longleftrightarrow> startPort \<le> endPort) \<and> (ret = 0 \<or> ret = - 1 \<and> rs = []) \<and>
      exact_cover port_in port_norm rs {startPort..endPort})"
  using GetPortRangeAndMask_loop_exact [of startPort endPort]
  by (auto simp: GetPortRangeAndMask_def exact_cover_def)

end
