(* ===== verification/Fw_Lpm.thy ===== *)
theory Fw_Lpm
  imports Fw_Ranges
begin

text \<open>
  Longest-prefix-match tables. The rule maps end up in kernel maps of type
  \<^verbatim>\<open>BPF_MAP_TYPE_LPM_TRIE\<close>, which are not part of this repository: a lookup function is a parameter of
  the model and \<^verbatim>\<open>lpm_spec\<close> states the documented behaviour, that a lookup returns an entry whose
  prefix matches the key and is the longest such. The locale \<^verbatim>\<open>prefix_space\<close> is the only fact about
  prefixes the tables need (two prefixes that share an address are nested). It gives the reason why
  the user space maps keep cumulative bitmaps: if every entry carries the rules of all prefixes that
  contain it (\<^verbatim>\<open>table_ok\<close>), the single entry found by the kernel carries the rules of every prefix
  that contains the address.
\<close>

subsection \<open>The kernel map\<close>

type_synonym ('k, 'a, 'v) lpm_lookup = "('k \<times> 'v) list \<Rightarrow> 'a \<Rightarrow> 'v option"

definition lpm_spec :: "('k \<Rightarrow> nat) \<Rightarrow> ('k \<Rightarrow> 'a \<Rightarrow> bool) \<Rightarrow> ('k, 'a, 'v) lpm_lookup \<Rightarrow> bool" where
  "lpm_spec len covers lookup \<longleftrightarrow> (\<forall>t a. case lookup t a of
       None \<Rightarrow> (\<forall>(k, v)\<in>set t. \<not> covers k a)
     | Some v \<Rightarrow> (\<exists>k. (k, v) \<in> set t \<and> covers k a \<and> (\<forall>(k', v')\<in>set t. covers k' a \<longrightarrow> len k' \<le> len k)))"

text \<open>A list search that meets the specification.\<close>

fun lpm_best :: "('k \<Rightarrow> nat) \<Rightarrow> ('k \<Rightarrow> 'a \<Rightarrow> bool) \<Rightarrow> ('k \<times> 'v) list \<Rightarrow> 'a \<Rightarrow> ('k \<times> 'v) option" where
  "lpm_best len covers [] a = None"
| "lpm_best len covers ((k, v) # t) a =
     (case lpm_best len covers t a of
        None \<Rightarrow> if covers k a then Some (k, v) else None
      | Some (k', v') \<Rightarrow> if covers k a \<and> len k' < len k then Some (k, v) else Some (k', v'))"

definition lpm_scan :: "('k \<Rightarrow> nat) \<Rightarrow> ('k \<Rightarrow> 'a \<Rightarrow> bool) \<Rightarrow> ('k, 'a, 'v) lpm_lookup" where
  "lpm_scan len covers t a = map_option snd (lpm_best len covers t a)"

lemma lpm_best_None: "lpm_best len covers t a = None \<longleftrightarrow> (\<forall>(k, v)\<in>set t. \<not> covers k a)"
  by (induction t) (auto split: option.splits if_splits)

lemma lpm_best_Some: "lpm_best len covers t a = Some (k, v) \<Longrightarrow>
    (k, v) \<in> set t \<and> covers k a \<and> (\<forall>(k', v')\<in>set t. covers k' a \<longrightarrow> len k' \<le> len k)"
proof (induction t arbitrary: k v)
  case (Cons e t)
  obtain k0 v0 where e: "e = (k0, v0)" by (cases e)
  show ?case
  proof (cases "lpm_best len covers t a")
    case None
    with Cons.prems show ?thesis
      using None [unfolded lpm_best_None] by (auto simp: e split: if_splits)
  next
    case (Some r)
    obtain k1 v1 where r: "r = (k1, v1)" by (cases r)
    from Cons.IH [OF Some [unfolded r]] Cons.prems show ?thesis
      by (auto simp: e Some r split: if_splits)
  qed
qed simp

lemma lpm_specD:
  assumes "lpm_spec len covers lookup"
  shows "case lookup t a of
       None \<Rightarrow> (\<forall>(k, v)\<in>set t. \<not> covers k a)
     | Some v \<Rightarrow> (\<exists>k. (k, v) \<in> set t \<and> covers k a \<and> (\<forall>(k', v')\<in>set t. covers k' a \<longrightarrow> len k' \<le> len k))"
  using assms unfolding lpm_spec_def by (elim allE)

lemma lpm_spec_None: "lpm_spec len covers lookup \<Longrightarrow> lookup t a = None \<Longrightarrow> (k, v) \<in> set t \<Longrightarrow> \<not> covers k a"
  by (drule lpm_specD [of _ _ _ t a]) auto

lemma lpm_spec_Some: "lpm_spec len covers lookup \<Longrightarrow> lookup t a = Some v \<Longrightarrow>
    \<exists>k. (k, v) \<in> set t \<and> covers k a \<and> (\<forall>(k', v')\<in>set t. covers k' a \<longrightarrow> len k' \<le> len k)"
  by (drule lpm_specD [of _ _ _ t a]) simp

lemma lpm_scan_spec: "lpm_spec len covers (lpm_scan len covers)"
  unfolding lpm_spec_def
proof (intro allI)
  fix t :: "('a \<times> 'c) list" and a
  show "case lpm_scan len covers t a of
       None \<Rightarrow> (\<forall>(k, v)\<in>set t. \<not> covers k a)
     | Some v \<Rightarrow> (\<exists>k. (k, v) \<in> set t \<and> covers k a \<and> (\<forall>(k', v')\<in>set t. covers k' a \<longrightarrow> len k' \<le> len k))"
  proof (cases "lpm_best len covers t a")
    case None
    with iffD1 [OF lpm_best_None None] show ?thesis by (simp add: lpm_scan_def)
  next
    case (Some r)
    obtain k v where "r = (k, v)" by (cases r)
    with Some lpm_best_Some [of len covers t a k v] show ?thesis
      by (auto simp: lpm_scan_def intro!: exI [of _ k])
  qed
qed

subsection \<open>Cumulative tables\<close>

definition broader :: "('k \<Rightarrow> nat) \<Rightarrow> ('k \<Rightarrow> 'a \<Rightarrow> bool) \<Rightarrow> 'k \<Rightarrow> 'k \<Rightarrow> bool" where
  "broader len covers k k' \<longleftrightarrow> len k \<le> len k' \<and> (\<exists>x. covers k x \<and> covers k' x)"

text \<open>\<^verbatim>\<open>ins\<close> is the history of insertions (a prefix and the rules that name it), \<^verbatim>\<open>tbl\<close> the table.\<close>

definition table_ok :: "('k \<Rightarrow> nat) \<Rightarrow> ('k \<Rightarrow> 'a \<Rightarrow> bool) \<Rightarrow> ('k \<times> nat set) list \<Rightarrow> ('k \<times> nat set) list \<Rightarrow> bool" where
  "table_ok len covers ins tbl \<longleftrightarrow> fst ` set ins = fst ` set tbl \<and>
     (\<forall>(k, B)\<in>set tbl. B = (\<Union>(k', b)\<in>{(k', b) \<in> set ins. broader len covers k' k}. b))"

lemma table_okI:
  assumes "fst ` set ins = fst ` set tbl"
    and "\<And>k B i. (k, B) \<in> set tbl \<Longrightarrow>
      i \<in> B \<longleftrightarrow> (\<exists>k' b. (k', b) \<in> set ins \<and> broader len covers k' k \<and> i \<in> b)"
  shows "table_ok len covers ins tbl"
proof -
  have "B = (\<Union>(k', b)\<in>{(k', b) \<in> set ins. broader len covers k' k}. b)" if "(k, B) \<in> set tbl" for k B
    by (rule set_eqI, subst assms(2) [OF that]) blast
  with assms(1) show ?thesis unfolding table_ok_def by blast
qed

definition rules_at :: "('k \<Rightarrow> 'a \<Rightarrow> bool) \<Rightarrow> ('k \<times> nat set) list \<Rightarrow> 'a \<Rightarrow> nat set" where
  "rules_at covers ins x = (\<Union>(k, b)\<in>{(k, b) \<in> set ins. covers k x}. b)"

lemma rules_at_Nil [simp]: "rules_at covers [] x = {}"
  by (simp add: rules_at_def)

lemma rules_at_Cons [simp]:
  "rules_at covers ((k, b) # ins) x = (if covers k x then b else {}) \<union> rules_at covers ins x"
  by (auto simp: rules_at_def)

lemma rules_at_append [simp]:
  "rules_at covers (ins @ ins') x = rules_at covers ins x \<union> rules_at covers ins' x"
  by (auto simp: rules_at_def)

text \<open>Adding the same rules to every entry, as \<^verbatim>\<open>OrForEach\<close> does.\<close>

definition with_rules :: "nat set \<Rightarrow> ('k \<times> nat set) list \<Rightarrow> ('k \<times> nat set) list" where
  "with_rules N tbl = map (\<lambda>(k, B). (k, B \<union> N)) tbl"

lemma with_rules_empty [simp]: "with_rules {} tbl = tbl"
  by (induction tbl) (auto simp: with_rules_def)

lemma with_rules_with_rules [simp]: "with_rules N (with_rules M tbl) = with_rules (M \<union> N) tbl"
  by (induction tbl) (auto simp: with_rules_def)

lemma map_fst_with_rules [simp]: "map fst (with_rules N tbl) = map fst tbl"
  by (induction tbl) (auto simp: with_rules_def)

definition inherited :: "('k \<Rightarrow> nat) \<Rightarrow> ('k \<Rightarrow> 'a \<Rightarrow> bool) \<Rightarrow> ('k \<times> nat set) list \<Rightarrow> 'k \<Rightarrow> nat set" where
  "inherited len covers tbl K = (\<Union>(k, B)\<in>{(k, B) \<in> set tbl. len k < len K \<and> broader len covers k K}. B)"

lemma inherited_Nil [simp]: "inherited len covers [] K = {}"
  by (simp add: inherited_def)

lemma inherited_Cons [simp]: "inherited len covers ((k, B) # tbl) K =
    (if len k < len K \<and> broader len covers k K then B else {}) \<union> inherited len covers tbl K"
  by (auto simp: inherited_def)

locale prefix_space =
  fixes len :: "'k \<Rightarrow> nat"
    and covers :: "'k \<Rightarrow> 'a \<Rightarrow> bool"
  assumes nested: "len k \<le> len k' \<Longrightarrow> covers k x \<Longrightarrow> covers k' x \<Longrightarrow> covers k' y \<Longrightarrow> covers k y"
    and inhabited: "\<exists>x. covers k x"
begin

lemma broader_refl: "broader len covers k k"
  using inhabited by (auto simp: broader_def)

lemma broader_covers: "broader len covers k k' \<Longrightarrow> covers k' x \<Longrightarrow> covers k x"
  using nested by (auto simp: broader_def)

lemma broader_trans: "broader len covers a b \<Longrightarrow> broader len covers b c \<Longrightarrow> broader len covers a c"
  using nested unfolding broader_def by (meson le_trans)

lemma table_lookup:
  assumes ok: "table_ok len covers ins tbl" and kB: "(k, B) \<in> set tbl" "covers k x"
    and longest: "\<forall>(k', B')\<in>set tbl. covers k' x \<longrightarrow> len k' \<le> len k"
  shows "B = rules_at covers ins x"
proof -
  have "broader len covers k' k \<longleftrightarrow> covers k' x" if "(k', b) \<in> set ins" for k' b
  proof
    assume cov: "covers k' x"
    have "k' \<in> fst ` set ins" using that by (metis fst_conv image_eqI)
    then obtain B' where "(k', B') \<in> set tbl" using ok unfolding table_ok_def by auto
    with longest cov have "len k' \<le> len k" by blast
    with cov kB show "broader len covers k' k" by (auto simp: broader_def)
  qed (use broader_covers kB in blast)
  then have "{(k', b) \<in> set ins. broader len covers k' k} = {(k', b) \<in> set ins. covers k' x}" by auto
  moreover have "B = (\<Union>(k', b)\<in>{(k', b) \<in> set ins. broader len covers k' k}. b)"
    using ok kB(1) unfolding table_ok_def by blast
  ultimately show ?thesis unfolding rules_at_def by (simp only:)
qed

lemma lookup_keys:
  assumes "table_ok len covers ins tbl" "map (\<lambda>(k, v). (k, f v)) kern = with_rules N tbl"
  shows "fst ` set kern = fst ` set tbl" "fst ` set kern = fst ` set ins"
proof -
  have "map fst kern = map fst (map (\<lambda>(k, v). (k, f v)) kern)" by (induction kern) auto
  then have "set (map fst kern) = set (map fst tbl)" by (simp only: assms(2) map_fst_with_rules)
  then show "fst ` set kern = fst ` set tbl" by simp
  then show "fst ` set kern = fst ` set ins" using assms(1) unfolding table_ok_def by simp
qed

lemma lookup_None:
  assumes "lpm_spec len covers lk" "table_ok len covers ins tbl"
    and "map (\<lambda>(k, v). (k, f v)) kern = with_rules N tbl"
    and "lk kern x = None" "(k, b) \<in> set ins"
  shows "\<not> covers k x"
proof -
  have "k \<in> fst ` set kern" using lookup_keys(2) [OF assms(2,3)] assms(5) by (metis fst_conv image_eqI)
  then show ?thesis using lpm_spec_None [OF assms(1,4)] by auto
qed

lemma lookup_Some:
  assumes lk: "lpm_spec len covers lk" and ok: "table_ok len covers ins tbl"
    and kern: "map (\<lambda>(k, v). (k, f v)) kern = with_rules N tbl"
    and Some: "lk kern x = Some v"
  shows "f v = rules_at covers ins x \<union> N"
proof -
  from lpm_spec_Some [OF lk Some] obtain k where k: "(k, v) \<in> set kern" "covers k x"
    "\<forall>(k', v')\<in>set kern. covers k' x \<longrightarrow> len k' \<le> len k" by blast
  have "(k, f v) \<in> set (with_rules N tbl)" unfolding kern [symmetric] using k(1) by auto
  then obtain B where B: "(k, B) \<in> set tbl" "f v = B \<union> N" unfolding with_rules_def by auto
  have "\<forall>(k', B')\<in>set tbl. covers k' x \<longrightarrow> len k' \<le> len k"
  proof (clarify)
    fix k' B' assume "(k', B') \<in> set tbl" and cov: "covers k' x"
    then have "k' \<in> fst ` set kern" using lookup_keys(1) [OF ok kern] by (metis fst_conv image_eqI)
    then obtain v' where "(k', v') \<in> set kern" by auto
    with k(3) cov show "len k' \<le> len k" by blast
  qed
  from table_lookup [OF ok B(1) k(2) this] B(2) show ?thesis by simp
qed

end

text \<open>With normalised prefixes an insertion keeps the table cumulative if it adds its rules to every entry
  inside the new prefix, adds no rules but those of broader entries on top, and gives a new entry the
  rules of all strictly broader ones.\<close>

locale norm_prefix_space = prefix_space +
  fixes norm :: "'a \<Rightarrow> bool"
  assumes norm_unique: "norm k \<Longrightarrow> norm k' \<Longrightarrow> len k = len k' \<Longrightarrow> broader len covers k k' \<Longrightarrow> k = k'"
begin

lemma table_entry: "table_ok len covers ins tbl \<Longrightarrow> (k, B) \<in> set tbl \<Longrightarrow>
    i \<in> B \<longleftrightarrow> (\<exists>k' b. (k', b) \<in> set ins \<and> broader len covers k' k \<and> i \<in> b)"
  unfolding table_ok_def by blast

lemma inherited_below:
  assumes "table_ok len covers ins tbl" "(k, B) \<in> set tbl" "broader len covers K k"
  shows "inherited len covers tbl K \<subseteq> B"
proof
  fix i assume "i \<in> inherited len covers tbl K"
  then obtain kj Bj where j: "(kj, Bj) \<in> set tbl" "broader len covers kj K" "i \<in> Bj"
    unfolding inherited_def by blast
  then obtain k' b where k': "(k', b) \<in> set ins" "broader len covers k' kj" "i \<in> b"
    using table_entry [OF assms(1) j(1)] by blast
  have "broader len covers k' k" using broader_trans [OF broader_trans [OF k'(2) j(2)] assms(3)] .
  then show "i \<in> B" using table_entry [OF assms(1,2)] k' by blast
qed

lemma inherited_new:
  assumes ok: "table_ok len covers ins tbl" and norms: "\<forall>(k, B)\<in>set tbl. norm k" "norm K"
    and new: "K \<notin> fst ` set tbl"
  shows "i \<in> inherited len covers tbl K \<longleftrightarrow> (\<exists>k' b. (k', b) \<in> set ins \<and> broader len covers k' K \<and> i \<in> b)"
proof
  assume "i \<in> inherited len covers tbl K"
  then obtain kj Bj where j: "(kj, Bj) \<in> set tbl" "broader len covers kj K" "i \<in> Bj"
    unfolding inherited_def by blast
  then obtain k' b where k': "(k', b) \<in> set ins" "broader len covers k' kj" "i \<in> b"
    using table_entry [OF ok j(1)] by blast
  then show "\<exists>k' b. (k', b) \<in> set ins \<and> broader len covers k' K \<and> i \<in> b"
    using broader_trans [OF k'(2) j(2)] by blast
next
  assume "\<exists>k' b. (k', b) \<in> set ins \<and> broader len covers k' K \<and> i \<in> b"
  then obtain k' b where k': "(k', b) \<in> set ins" "broader len covers k' K" "i \<in> b" by blast
  have "k' \<in> fst ` set ins" using k'(1) by (metis fst_conv image_eqI)
  then obtain B where B: "(k', B) \<in> set tbl" using ok unfolding table_ok_def by auto
  then have "i \<in> B" using table_entry [OF ok B] k' broader_refl [of k'] by blast
  moreover have "k' \<noteq> K" using B new by (metis fst_conv image_eqI)
  then have "len k' < len K"
    using k'(2) norm_unique [of k' K] norms B by (auto simp: broader_def intro: le_neq_implies_less)
  ultimately show "i \<in> inherited len covers tbl K" using B k'(2) unfolding inherited_def by blast
qed

lemma table_insert:
  assumes ok: "table_ok len covers ins tbl" and norms: "\<forall>(k, B)\<in>set tbl. norm k" "norm K"
    and keys: "map fst tbl' = map fst tbl"
    and upd: "\<And>j. j < length tbl \<Longrightarrow> (if broader len covers K (fst (tbl ! j))
        then snd (tbl ! j) \<union> b \<subseteq> snd (tbl' ! j) \<and> snd (tbl' ! j) \<subseteq> snd (tbl ! j) \<union> b \<union> inherited len covers tbl K
        else snd (tbl' ! j) = snd (tbl ! j))"
  shows "table_ok len covers (ins @ [(K, b)])
    (if K \<in> fst ` set tbl then tbl' else tbl' @ [(K, b \<union> inherited len covers tbl K)])" (is "table_ok _ _ ?ins ?tbl")
proof -
  have fsts: "fst ` set tbl' = fst ` set tbl" using keys by (metis set_map)
  then have "fst ` set ?ins = fst ` set ?tbl" using ok unfolding table_ok_def by (auto simp: insert_absorb)
  then show ?thesis
  proof (rule table_okI)
    fix k B i assume kB: "(k, B) \<in> set ?tbl"
    show "i \<in> B \<longleftrightarrow> (\<exists>k' b'. (k', b') \<in> set ?ins \<and> broader len covers k' k \<and> i \<in> b')"
    proof (cases "(k, B) \<in> set tbl'")
    case True
    then obtain j where j: "j < length tbl'" "tbl' ! j = (k, B)" by (meson in_set_conv_nth)
    have len: "length tbl' = length tbl" using keys by (metis length_map)
    have k: "fst (tbl ! j) = k" using keys j len by (metis fst_conv nth_map)
    then have mem: "(k, snd (tbl ! j)) \<in> set tbl" using j len by (metis nth_mem prod.collapse)
    have "inherited len covers tbl K \<subseteq> snd (tbl ! j)" if "broader len covers K k"
      using inherited_below [OF ok mem that] .
    with upd [of j] j len k have "B = snd (tbl ! j) \<union> (if broader len covers K k then b else {})"
      by (auto split: if_splits)
    then show ?thesis using table_entry [OF ok mem] by auto
  next
    case False
    with kB have "K \<notin> fst ` set tbl" "k = K" "B = b \<union> inherited len covers tbl K" by (auto split: if_splits)
    then show ?thesis using inherited_new [OF ok norms, of i] broader_refl [of K] by auto
    qed
  qed
qed

end

lemma drop_bit_coarser:
  assumes "j \<le> i" "drop_bit j a = drop_bit j (b :: 'a :: len word)"
  shows "drop_bit i a = drop_bit i b"
proof -
  have "drop_bit i z = drop_bit (i - j) (drop_bit j z)" for z :: "'a word"
    using assms(1) by simp
  from this [of a] this [of b] show ?thesis using assms(2) by simp
qed

interpretation ip4p: prefix_space d4_mask ip4_in
proof
  fix k k' :: Ip4Data and x y
  assume le: "d4_mask k \<le> d4_mask k'" and a: "ip4_in k x" "ip4_in k' x" "ip4_in k' y"
  have "drop_bit (32 - d4_mask k') x = drop_bit (32 - d4_mask k') y" using a(2,3) by (simp add: ip4_in_def)
  from drop_bit_coarser [OF diff_le_mono2 [OF le] this] a(1) show "ip4_in k y" by (simp add: ip4_in_def)
qed (auto simp: ip4_in_def)

interpretation portp: prefix_space pr_prefixlen port_in
proof
  fix k k' :: portRule and x y
  assume le: "pr_prefixlen k \<le> pr_prefixlen k'" and a: "port_in k x" "port_in k' x" "port_in k' y"
  have "drop_bit (16 - pr_prefixlen k') x = drop_bit (16 - pr_prefixlen k') y" using a(2,3) by (simp add: port_in_def)
  from drop_bit_coarser [OF diff_le_mono2 [OF le] this] a(1) show "port_in k y" by (simp add: port_in_def)
qed (auto simp: port_in_def)

lemma word_parts_eq: "drop_bit n a = drop_bit n b \<Longrightarrow> take_bit n a = take_bit n b \<Longrightarrow> a = (b :: 'a :: len word)"
  by (metis bits_ident)

interpretation ip4n: norm_prefix_space d4_mask ip4_in ip4_norm
proof
  fix k k' :: Ip4Data
  assume norm: "ip4_norm k" "ip4_norm k'" and len: "d4_mask k = d4_mask k'"
    and br: "broader d4_mask ip4_in k k'"
  from br len have "drop_bit (32 - d4_mask k) (d4_data k) = drop_bit (32 - d4_mask k) (d4_data k')"
    by (auto simp: broader_def ip4_in_def)
  from word_parts_eq [OF this] have "d4_data k = d4_data k'" using norm len by (simp add: ip4_norm_def)
  with len show "k = k'" by simp
qed

end
