(* ===== verification/Fw_Ip6.thy ===== *)
theory Fw_Ip6
  imports Fw_Ranges
begin

text \<open>
  IPv6 ranges: the byte and bit walking functions of \<^verbatim>\<open>IpParamParser\<close> in \<^verbatim>\<open>bitmap_manager.cpp\<close>
  (\<^verbatim>\<open>GetIp6Prefixlen\<close>, \<^verbatim>\<open>RfindIp6\<close>, \<^verbatim>\<open>FindIp6\<close>, \<^verbatim>\<open>ChangeIp6Start\<close>, \<^verbatim>\<open>GetIp6AndMask\<close>). An address is its list of
  16 bytes; bit \<open>n\<close> of an address counts from the most significant bit of byte 0.
\<close>

type_synonym in6_addr = "u8 list"

definition BIT_PER_BYTE :: nat where
  "BIT_PER_BYTE = 8"

definition IPV6_BIT_COUNT :: nat where
  "IPV6_BIT_COUNT = 128"

definition IPV6_BYTE_COUNT :: nat where
  "IPV6_BYTE_COUNT = 16"

definition IPV6_MAX_PREFIXLEN :: nat where
  "IPV6_MAX_PREFIXLEN = 128"

record Ip6Data =
  d6_prefixlen :: nat
  d6_data :: in6_addr

subsection \<open>Searching bits\<close>

text \<open>The index that the code computes from byte \<open>i\<close> and shift \<open>j\<close>.\<close>

definition bit_index :: "nat \<times> nat \<Rightarrow> nat" where
  "bit_index = (\<lambda>(i, j). i * BIT_PER_BYTE + BIT_PER_BYTE - j - 1)"

definition GetIp6Prefixlen :: "in6_addr \<Rightarrow> in6_addr \<Rightarrow> nat" where
  "GetIp6Prefixlen start endp =
     (case find (\<lambda>(i, j). start ! i AND push_bit j 1 \<noteq> endp ! i AND push_bit j 1)
        (concat (map (\<lambda>i. if start ! i = endp ! i then [] else map (Pair i) (rev [0..<BIT_PER_BYTE]))
          [0..<IPV6_BYTE_COUNT])) of
        None \<Rightarrow> IPV6_MAX_PREFIXLEN
      | Some ij \<Rightarrow> bit_index ij)"

definition Rfind_positions :: "nat \<Rightarrow> nat \<Rightarrow> (nat \<times> nat) list" where
  "Rfind_positions startBit endBit =
     (let startBits = startBit mod BIT_PER_BYTE; startBytes = startBit div BIT_PER_BYTE;
          endBits = endBit mod BIT_PER_BYTE; endBytes = endBit div BIT_PER_BYTE
      in concat (map (\<lambda>i.
           (let j = (if i = endBytes then BIT_PER_BYTE - endBits - 1 else 0);
                k = (if i = startBytes then BIT_PER_BYTE - startBits - 1 else BIT_PER_BYTE - 1)
            in map (Pair i) [j..<Suc k])) (rev [startBytes..<Suc endBytes])))"

definition RfindIp6 :: "in6_addr \<Rightarrow> nat \<Rightarrow> nat \<Rightarrow> u8 \<Rightarrow> nat" where
  "RfindIp6 addr startBit endBit value =
     (if startBit > endBit then IPV6_BIT_COUNT
      else case find (\<lambda>(i, j). drop_bit j (addr ! i AND push_bit j 1) = value)
             (Rfind_positions startBit endBit) of
        None \<Rightarrow> IPV6_BIT_COUNT
      | Some ij \<Rightarrow> bit_index ij)"

definition Find_positions :: "nat \<Rightarrow> (nat \<times> nat) list" where
  "Find_positions startBit =
     (let startBits = startBit mod BIT_PER_BYTE; startBytes = startBit div BIT_PER_BYTE
      in concat (map (\<lambda>i.
           (let j = (if i = startBytes then BIT_PER_BYTE - startBits - 1 else BIT_PER_BYTE - 1)
            in map (Pair i) (rev [0..<Suc j]))) [startBytes..<IPV6_BYTE_COUNT]))"

definition FindIp6 :: "in6_addr \<Rightarrow> nat \<Rightarrow> u8 \<Rightarrow> nat" where
  "FindIp6 addr startBit value =
     (if startBit \<ge> IPV6_BIT_COUNT then IPV6_BIT_COUNT
      else case find (\<lambda>(i, j). drop_bit j (addr ! i) AND 1 = value) (Find_positions startBit) of
        None \<Rightarrow> IPV6_BIT_COUNT
      | Some ij \<Rightarrow> bit_index ij)"

subsection \<open>Next block start\<close>

fun ChangeIp6Start_loop :: "bool \<Rightarrow> nat \<Rightarrow> nat \<Rightarrow> (nat \<times> nat) list \<Rightarrow> in6_addr \<Rightarrow> in6_addr" where
  "ChangeIp6Start_loop needSetZero bytes off [] addr = addr"
| "ChangeIp6Start_loop needSetZero bytes off ((i, j) # ps) addr =
     (let byte = push_bit j 1 :: u8
      in if needSetZero \<and> i = bytes \<and> j \<le> off
         then ChangeIp6Start_loop needSetZero bytes off ps (addr[i := addr ! i AND NOT byte])
         else if addr ! i AND byte \<noteq> 0
         then ChangeIp6Start_loop needSetZero bytes off ps (addr[i := addr ! i AND NOT byte])
         else addr[i := addr ! i OR byte])"

definition ChangeIp6Start :: "nat \<Rightarrow> in6_addr \<Rightarrow> in6_addr" where
  "ChangeIp6Start startBit addr =
     (let bits0 = startBit mod BIT_PER_BYTE; bytes0 = startBit div BIT_PER_BYTE;
          addr1 = (if bytes0 < IPV6_BYTE_COUNT - 1
                   then take (bytes0 + 1) addr @ replicate (IPV6_BYTE_COUNT - bytes0 - 1) 0 else addr);
          past = (bytes0 \<ge> IPV6_BYTE_COUNT);
          bytes = (if past then IPV6_BYTE_COUNT - 1 else bytes0);
          bits = (if past then BIT_PER_BYTE - 1 else bits0);
          off = BIT_PER_BYTE - bits - 1
      in ChangeIp6Start_loop (\<not> past) bytes off
           (concat (map (\<lambda>i. map (Pair i) [0..<BIT_PER_BYTE]) (rev [0..<Suc bytes]))) addr1)"

definition AddIp6 :: "in6_addr \<Rightarrow> nat \<Rightarrow> Ip6Data list \<Rightarrow> Ip6Data list" where
  "AddIp6 addr prefixlen list = list @ [\<lparr> d6_prefixlen = prefixlen, d6_data = addr \<rparr>]"

subsection \<open>The searches in terms of bit positions\<close>

definition bit_pos :: "nat \<Rightarrow> nat \<times> nat" where
  "bit_pos n = (n div 8, 7 - n mod 8)"

definition addr_bit :: "in6_addr \<Rightarrow> nat \<Rightarrow> bool" where
  "addr_bit a n \<longleftrightarrow> bit (a ! (n div 8)) (7 - n mod 8)"

lemma bit_index_pos [simp]: "bit_index (bit_pos n) = n"
proof -
  have "n mod 8 < 8" by simp
  then have "n div 8 * 8 + 8 - (7 - n mod 8) - 1 = n div 8 * 8 + n mod 8" by linarith
  then show ?thesis by (simp add: bit_index_def bit_pos_def BIT_PER_BYTE_def)
qed

lemma bit_pos_add: "c < 8 \<Longrightarrow> bit_pos (8 * i + c) = (i, 7 - c)"
  by (simp add: bit_pos_def)

lemma bit_pos_byte:
  assumes "a \<le> b" "b \<le> 8"
  shows "map bit_pos (rev [8 * i + a..<8 * i + b]) = map (Pair i) [8 - b..<8 - a]"
proof (rule nth_equalityI)
  fix k assume "k < length (map bit_pos (rev [8 * i + a..<8 * i + b]))"
  then have k: "k < b - a" by simp
  then have "rev [8 * i + a..<8 * i + b] ! k = 8 * i + (b - Suc k)" using assms by (simp add: rev_nth)
  moreover have "bit_pos (8 * i + (b - Suc k)) = (i, 7 - (b - Suc k))" using k assms by (intro bit_pos_add) simp
  moreover have "7 - (b - Suc k) = 8 - b + k" using k assms by linarith
  ultimately show "map bit_pos (rev [8 * i + a..<8 * i + b]) ! k = map (Pair i) [8 - b..<8 - a] ! k"
    using k assms by simp
qed (use assms in simp)

lemma upt_join: "a \<le> b \<Longrightarrow> b \<le> c \<Longrightarrow> [a..<b] @ [b..<c] = [a..<c]"
  using upt_add_eq_append [of a b "c - b"] by simp

lemma byte_intervals:
  assumes "s \<le> e"
  shows "concat (map (\<lambda>i. [max s (8 * i)..<min (Suc e) (8 * i + 8)]) [s div 8..<Suc (s div 8 + k)]) =
    [s..<min (Suc e) (8 * (s div 8 + k) + 8)]"
proof (induction k)
  case 0
  have "8 * (s div 8) \<le> s" by simp
  then show ?case by (simp add: max_absorb1)
next
  case (Suc k)
  have lt: "s < 8 * (s div 8) + 8" using dividend_less_div_times [of 8 s] by linarith
  have mx: "max s (8 * (s div 8 + Suc k)) = 8 * (s div 8 + k) + 8" using lt by simp
  have "[s..<min (Suc e) (8 * (s div 8 + k) + 8)] @ [8 * (s div 8 + k) + 8..<min (Suc e) (8 * (s div 8 + Suc k) + 8)] =
      [s..<min (Suc e) (8 * (s div 8 + Suc k) + 8)]"
    using assms lt by (cases "Suc e \<le> 8 * (s div 8 + k) + 8") (simp_all add: upt_join min_def)
  moreover have "[s div 8..<Suc (s div 8 + Suc k)] = [s div 8..<Suc (s div 8 + k)] @ [s div 8 + Suc k]"
    by simp
  ultimately show ?case
    unfolding map_append concat_append Suc.IH by (simp only: Suc.IH mx map_append concat_append list.map
        concat.simps append_Nil2)
qed

lemma Rfind_positions_eq:
  assumes "s \<le> e"
  shows "Rfind_positions s e = map bit_pos (rev [s..<Suc e])"
proof -
  define S sm E em where "S = s div 8" and "sm = s mod 8" and "E = e div 8" and "em = e mod 8"
  note defs = this
  have SE: "S \<le> E" using assms by (simp add: defs div_le_mono)
  have s: "s = 8 * S + sm" "sm < 8" and e: "e = 8 * E + em" "em < 8" by (simp_all add: defs)
  have byte: "map (Pair i) [(if i = E then 8 - em - 1 else 0)..<Suc (if i = S then 8 - sm - 1 else 8 - 1)] =
      map bit_pos (rev [max s (8 * i)..<min (Suc e) (8 * i + 8)])" if "S \<le> i" "i \<le> E" for i
  proof -
    define a b where "a = (if i = S then sm else 0)" and "b = (if i = E then Suc em else 8)"
    note ab = this
    have "max s (8 * i) = 8 * i + a" using that s by (cases "i = S") (simp_all add: ab max_def)
    moreover have "min (Suc e) (8 * i + 8) = 8 * i + b" using that e by (cases "i = E") (simp_all add: ab min_def)
    moreover have "b \<le> 8" "a \<le> b" using s e assms that by (simp_all add: ab)
    moreover have "8 - b = (if i = E then 8 - em - 1 else 0)" "8 - a = Suc (if i = S then 8 - sm - 1 else 8 - 1)"
      using s(2) e(2) by (auto simp: ab)
    ultimately show ?thesis using bit_pos_byte [of a b i] by simp
  qed
  have "Rfind_positions s e = concat (map (\<lambda>i.
      map (Pair i) [(if i = E then 8 - em - 1 else 0)..<Suc (if i = S then 8 - sm - 1 else 8 - 1)]) (rev [S..<Suc E]))"
    by (simp only: Rfind_positions_def BIT_PER_BYTE_def Let_def defs)
  also have "\<dots> = concat (map (\<lambda>i. map bit_pos (rev [max s (8 * i)..<min (Suc e) (8 * i + 8)])) (rev [S..<Suc E]))"
    by (intro arg_cong [of _ _ concat] map_cong refl byte) auto
  also have "\<dots> = map bit_pos (rev (concat (map (\<lambda>i. [max s (8 * i)..<min (Suc e) (8 * i + 8)]) [S..<Suc E])))"
    by (simp add: rev_concat map_concat rev_map o_def)
  also have "\<dots> = map bit_pos (rev [s..<Suc e])"
    using byte_intervals [OF assms, of "E - S", folded defs(1)] SE e by (simp add: min_def)
  finally show ?thesis .
qed

lemma Find_positions_eq:
  assumes "s < 128"
  shows "Find_positions s = map bit_pos [s..<128]"
proof -
  define S sm where "S = s div 8" and "sm = s mod 8"
  note defs = this
  have s: "s = 8 * S + sm" "sm < 8" and S: "S < 16" using assms by (simp_all add: defs)
  have byte: "map (Pair i) (rev [0..<Suc (if i = S then 8 - sm - 1 else 8 - 1)]) =
      map bit_pos [max s (8 * i)..<min (Suc 127) (8 * i + 8)]" if "S \<le> i" "i < 16" for i
  proof -
    define a where "a = (if i = S then sm else 0)"
    have "max s (8 * i) = 8 * i + a" using that s by (cases "i = S") (simp_all add: a_def max_def)
    moreover have "min (Suc 127) (8 * i + 8) = 8 * i + 8" using that by simp
    moreover have "a \<le> 8" using s(2) by (simp add: a_def)
    moreover have "8 - a = Suc (if i = S then 8 - sm - 1 else 8 - 1)" using s(2) by (auto simp: a_def)
    ultimately show ?thesis
      using arg_cong [OF bit_pos_byte [of a 8 i], of rev] by (simp only: rev_map rev_rev_ident) simp
  qed
  have "Find_positions s = concat (map (\<lambda>i. map (Pair i)
      (rev [0..<Suc (if i = S then 8 - sm - 1 else 8 - 1)])) [S..<16])"
    by (simp only: Find_positions_def BIT_PER_BYTE_def IPV6_BYTE_COUNT_def Let_def defs)
  also have "\<dots> = concat (map (\<lambda>i. map bit_pos [max s (8 * i)..<min (Suc 127) (8 * i + 8)]) [S..<16])"
    by (intro arg_cong [of _ _ concat] map_cong refl byte) auto
  also have "\<dots> = map bit_pos (concat (map (\<lambda>i. [max s (8 * i)..<min (Suc 127) (8 * i + 8)]) [S..<16]))"
    by (simp add: map_concat o_def)
  also have "\<dots> = map bit_pos [s..<128]"
    using byte_intervals [of s 127 "15 - S", folded defs(1)] assms S by (simp add: min_def)
  finally show ?thesis .
qed

lemma find_map: "find P (map f xs) = map_option f (find (P \<circ> f) xs)"
  by (induction xs) auto

lemma mask_test: "j < 8 \<Longrightarrow> drop_bit j (x AND push_bit j 1) = of_bool v \<longleftrightarrow> bit (x :: u8) j = v"
proof -
  assume "j < 8"
  then have "drop_bit j (x AND push_bit j 1) = of_bool (bit x j)"
    by (intro bit_word_eqI) (auto simp: bit_simps)
  then show ?thesis by simp
qed

lemma shift_test: "j < 8 \<Longrightarrow> drop_bit j x AND 1 = of_bool v \<longleftrightarrow> bit (x :: u8) j = v"
proof -
  assume "j < 8"
  then have "drop_bit j x AND 1 = of_bool (bit x j)"
    by (intro bit_word_eqI) (auto simp: bit_simps)
  then show ?thesis by simp
qed

lemma RfindIp6_eq: "RfindIp6 addr s e (of_bool v) = (case find (\<lambda>n. addr_bit addr n = v) (rev [s..<Suc e]) of
    None \<Rightarrow> 128 | Some n \<Rightarrow> n)"
proof (cases "s \<le> e")
  case True
  have "(\<lambda>(i, j). drop_bit j (addr ! i AND push_bit j 1) = of_bool v) \<circ> bit_pos = (\<lambda>n. addr_bit addr n = v)"
    by (rule ext, simp only: o_apply bit_pos_def addr_bit_def split_conv, rule mask_test) simp
  with True show ?thesis
    by (simp add: RfindIp6_def Rfind_positions_eq find_map IPV6_BIT_COUNT_def option.case_eq_if option.map_sel
        del: upt_Suc)
qed (simp add: RfindIp6_def IPV6_BIT_COUNT_def)

lemma FindIp6_eq: "FindIp6 addr s (of_bool v) = (case find (\<lambda>n. addr_bit addr n = v) [s..<128] of
    None \<Rightarrow> 128 | Some n \<Rightarrow> n)"
proof (cases "s < 128")
  case True
  have "(\<lambda>(i, j). drop_bit j (addr ! i) AND 1 = of_bool v) \<circ> bit_pos = (\<lambda>n. addr_bit addr n = v)"
    by (rule ext, simp only: o_apply bit_pos_def addr_bit_def split_conv, rule shift_test) simp
  with True show ?thesis
    by (simp add: FindIp6_def Find_positions_eq find_map IPV6_BIT_COUNT_def option.case_eq_if option.map_sel)
qed (simp add: FindIp6_def IPV6_BIT_COUNT_def)

lemma RfindIp6_bound: "RfindIp6 addr s e (of_bool v) = 128 \<or>
    s \<le> RfindIp6 addr s e (of_bool v) \<and> RfindIp6 addr s e (of_bool v) \<le> e"
proof (cases "find (\<lambda>n. addr_bit addr n = v) (rev [s..<Suc e])")
  case (Some n)
  then have "n \<in> set (rev [s..<Suc e])" by (metis find_Some_iff nth_mem)
  with Some show ?thesis by (simp add: RfindIp6_eq del: upt_Suc)
qed (simp add: RfindIp6_eq del: upt_Suc)

lemma FindIp6_bound: "FindIp6 addr s (of_bool v) = 128 \<or> s \<le> FindIp6 addr s (of_bool v) \<and> FindIp6 addr s (of_bool v) < 128"
proof (cases "find (\<lambda>n. addr_bit addr n = v) [s..<128]")
  case (Some n)
  then have "n \<in> set [s..<128]" by (metis find_Some_iff nth_mem)
  with Some show ?thesis by (simp add: FindIp6_eq)
qed (simp add: FindIp6_eq)

subsection \<open>Splitting a range\<close>

fun memcmp_bytes :: "in6_addr \<Rightarrow> in6_addr \<Rightarrow> int" where
  "memcmp_bytes (x # xs) (y # ys) = (if x < y then - 1 else if x > y then 1 else memcmp_bytes xs ys)"
| "memcmp_bytes _ _ = 0"

text \<open>The loop over the zero bits of the start address, from the right down to the common prefix.\<close>

function GetIp6AndMask_low :: "in6_addr \<Rightarrow> nat \<Rightarrow> nat \<Rightarrow> in6_addr \<Rightarrow> Ip6Data list \<Rightarrow> in6_addr \<times> Ip6Data list" where
  "GetIp6AndMask_low addr6Start prefixlen off tmpAddr list =
     (if off \<noteq> IPV6_BIT_COUNT \<and> off \<noteq> prefixlen
      then GetIp6AndMask_low addr6Start prefixlen (RfindIp6 addr6Start prefixlen (off - 1) 0)
             (ChangeIp6Start (off + 1) tmpAddr) (AddIp6 tmpAddr (off + 1) list)
      else (tmpAddr, list))"
  by auto
termination
proof (relation "measure (\<lambda>(a, p, off, t, l). if off = 128 then 0 else Suc off)")
  fix a t :: in6_addr and p off :: nat and l :: "Ip6Data list"
  assume *: "off \<noteq> IPV6_BIT_COUNT \<and> off \<noteq> p"
  have "RfindIp6 a p (off - 1) 0 = 128 \<or> p \<le> RfindIp6 a p (off - 1) 0 \<and> RfindIp6 a p (off - 1) 0 \<le> off - 1"
    using RfindIp6_bound [of a p "off - 1" False] by simp
  with * show "((a, p, RfindIp6 a p (off - 1) 0, ChangeIp6Start (off + 1) t, AddIp6 t (off + 1) l), a, p, off, t, l)
      \<in> measure (\<lambda>(a, p, off, t, l). if off = 128 then 0 else Suc off)"
    by (auto simp: IPV6_BIT_COUNT_def)
qed simp

text \<open>The loop over the one bits of the end address, to the right of the common prefix.\<close>

function GetIp6AndMask_high :: "in6_addr \<Rightarrow> nat \<Rightarrow> in6_addr \<Rightarrow> Ip6Data list \<Rightarrow> in6_addr \<times> Ip6Data list" where
  "GetIp6AndMask_high addr6End off tmpAddr list =
     (if off \<noteq> IPV6_BIT_COUNT
      then GetIp6AndMask_high addr6End (FindIp6 addr6End (off + 1) 1)
             (ChangeIp6Start (off + 1) tmpAddr) (AddIp6 tmpAddr (off + 1) list)
      else (tmpAddr, list))"
  by auto
termination
proof (relation "measure (\<lambda>(e, off, t, l). if off = 128 then 0 else if off < 128 then 129 - off else Suc (Suc off))")
  fix e t :: in6_addr and off :: nat and l :: "Ip6Data list"
  assume *: "off \<noteq> IPV6_BIT_COUNT"
  have "FindIp6 e (off + 1) 1 = 128 \<or> off + 1 \<le> FindIp6 e (off + 1) 1 \<and> FindIp6 e (off + 1) 1 < 128"
    using FindIp6_bound [of e "off + 1" True] by simp
  with * show "((e, FindIp6 e (off + 1) 1, ChangeIp6Start (off + 1) t, AddIp6 t (off + 1) l), e, off, t, l)
      \<in> measure (\<lambda>(e, off, t, l). if off = 128 then 0 else if off < 128 then 129 - off else Suc (Suc off))"
    by (auto simp: IPV6_BIT_COUNT_def)
qed simp

declare GetIp6AndMask_low.simps [simp del] GetIp6AndMask_high.simps [simp del]

definition GetIp6AndMask :: "in6_addr \<Rightarrow> in6_addr \<Rightarrow> Ip6Data list \<Rightarrow> NetFirewallError \<times> Ip6Data list" where
  "GetIp6AndMask addr6Start addr6End list =
     (let ret = memcmp_bytes addr6Start addr6End
      in if ret > 0 then (NETFIREWALL_ERR, list)
         else if ret = 0 then (NETFIREWALL_SUCCESS, AddIp6 addr6Start IPV6_MAX_PREFIXLEN list)
         else
           let prefixlen = GetIp6Prefixlen addr6Start addr6End;
               off = RfindIp6 addr6Start prefixlen (IPV6_BIT_COUNT - 1) 1
           in if off = IPV6_BIT_COUNT \<and> RfindIp6 addr6End prefixlen (IPV6_BIT_COUNT - 1) 0 = IPV6_BIT_COUNT
              then (NETFIREWALL_SUCCESS, AddIp6 addr6Start prefixlen list)
              else
                let (tmpAddr, list1) =
                      (if off \<noteq> IPV6_BIT_COUNT
                       then GetIp6AndMask_low addr6Start prefixlen (RfindIp6 addr6Start prefixlen off 0)
                              (ChangeIp6Start (off + 1) addr6Start) (AddIp6 addr6Start (off + 1) list)
                       else (addr6Start, list));
                    off1 = FindIp6 addr6End prefixlen 1
                in if off1 = IPV6_BIT_COUNT then (NETFIREWALL_ERR, list1)
                   else
                     let (tmpAddr', list2) =
                           GetIp6AndMask_high addr6End (FindIp6 addr6End (off1 + 1) 1) tmpAddr list1
                     in (NETFIREWALL_SUCCESS,
                         if memcmp_bytes tmpAddr' addr6End = 0
                         then AddIp6 tmpAddr' IPV6_MAX_PREFIXLEN list2 else list2))"

text \<open>A range whose start has only zero bits after the common prefix, and whose end is not all ones there,
  loses most of its addresses: of \<^verbatim>\<open>::0 - ::b\<close> only \<^verbatim>\<open>::0 - ::2\<close> is emitted.\<close>

lemma GetIp6AndMask_gap:
  "GetIp6AndMask (replicate 16 0) (replicate 15 0 @ [0xb]) [] = (NETFIREWALL_SUCCESS,
     [\<lparr> d6_prefixlen = 127, d6_data = replicate 16 0 \<rparr>, \<lparr> d6_prefixlen = 128, d6_data = replicate 15 0 @ [2] \<rparr>])"
  by code_simp

end
