(* ===== verification/Fw_RuleMaps.thy ===== *)
theory Fw_RuleMaps
  imports Fw_Segments Fw_Lpm Fw_Ip6
begin

text \<open>
  The rule maps of \<^verbatim>\<open>bitmap_manager.h\<close>: \<^verbatim>\<open>BpfUnorderedMap\<close> (hash maps keyed by protocol, uid, interface,
  action), \<^verbatim>\<open>Ip4RuleMap\<close>, \<^verbatim>\<open>Ip6RuleMap\<close> and \<^verbatim>\<open>BpfPortMap\<close>. The main result is that \<^verbatim>\<open>Ip4RuleMap::OrInsert\<close>
  keeps the vector a cumulative table in the sense of \<^verbatim>\<open>Fw_Lpm\<close> when addresses are normalised.
\<close>

subsection \<open>Hash maps\<close>

type_synonym 'k bpf_map = "'k \<Rightarrow> bitmap option"

definition OrInsert :: "'k \<Rightarrow> bitmap \<Rightarrow> 'k bpf_map \<Rightarrow> 'k bpf_map" where
  "OrInsert key val mp = (case mp key of
     None \<Rightarrow> mp(key \<mapsto> val)
   | Some b \<Rightarrow> mp(key \<mapsto> Or b val))"

definition OrForEach :: "bitmap \<Rightarrow> 'k bpf_map \<Rightarrow> 'k bpf_map" where
  "OrForEach other mp = (\<lambda>key. map_option (\<lambda>b. Or b other) (mp key))"

definition Delete :: "'k \<Rightarrow> 'k bpf_map \<Rightarrow> nat \<times> 'k bpf_map" where
  "Delete key mp = (if mp key = None then (0, mp) else (1, mp(key := None)))"

subsection \<open>IPv4 rule map\<close>

record Ip4RuleBitmap =
  r4_mask :: nat
  r4_data :: u32
  r4_bitmap :: bitmap

definition IPV4_MAX_PREFIXLEN :: nat where
  "IPV4_MAX_PREFIXLEN = 32"

definition GetNetworkAddress :: "u32 \<Rightarrow> nat \<Rightarrow> u32" where
  "GetNetworkAddress addr m = (let m' = (if m > IPV4_MAX_PREFIXLEN then IPV4_MAX_PREFIXLEN else m)
     in if m' = 0 then 0 else addr AND push_bit (IPV4_MAX_PREFIXLEN - m') 0xFFFFFFFF)"

text \<open>One round of the loop of \<^verbatim>\<open>Ip4RuleMap::OrInsert\<close>: the entry, the running copy of the new bitmap and
  the insertion flag after the three cases.\<close>

definition Ip4_OrInsert_body ::
  "u32 \<Rightarrow> nat \<Rightarrow> Ip4RuleBitmap \<Rightarrow> bitmap \<Rightarrow> bool \<Rightarrow> Ip4RuleBitmap \<times> bitmap \<times> bool" where
  "Ip4_OrInsert_body addr m it bitmapCopy shouldInsert =
     (let existingIp = ntohl (r4_data it);
          same = (r4_data it = htonl addr \<and> r4_mask it = m);
          it1 = (if same then it\<lparr> r4_bitmap := Or (r4_bitmap it) bitmapCopy \<rparr> else it);
          it2 = (if m < r4_mask it1 \<and> GetNetworkAddress existingIp m = GetNetworkAddress addr m
                 then it1\<lparr> r4_bitmap := Or (r4_bitmap it1) bitmapCopy \<rparr> else it1);
          bitmapCopy' = (if m > r4_mask it2 \<and>
                   GetNetworkAddress addr (r4_mask it2) = GetNetworkAddress existingIp (r4_mask it2)
                 then Or bitmapCopy (r4_bitmap it2) else bitmapCopy)
      in (it2, bitmapCopy', if same then False else shouldInsert))"

fun Ip4_OrInsert_loop ::
  "u32 \<Rightarrow> nat \<Rightarrow> Ip4RuleBitmap list \<Rightarrow> bitmap \<Rightarrow> bool \<Rightarrow> Ip4RuleBitmap list \<times> bitmap \<times> bool" where
  "Ip4_OrInsert_loop addr m [] bitmapCopy shouldInsert = ([], bitmapCopy, shouldInsert)"
| "Ip4_OrInsert_loop addr m (it # its) bitmapCopy shouldInsert =
     (let (it', bitmapCopy', shouldInsert') = Ip4_OrInsert_body addr m it bitmapCopy shouldInsert;
          (rest, bitmapCopy'', shouldInsert'') = Ip4_OrInsert_loop addr m its bitmapCopy' shouldInsert'
      in (it' # rest, bitmapCopy'', shouldInsert''))"

definition Ip4_OrInsert :: "u32 \<Rightarrow> nat \<Rightarrow> bitmap \<Rightarrow> Ip4RuleBitmap list \<Rightarrow> Ip4RuleBitmap list" where
  "Ip4_OrInsert addr m0 bm vec =
     (let m = (if m0 > IPV4_MAX_PREFIXLEN then IPV4_MAX_PREFIXLEN else m0);
          (vec', bitmapCopy, shouldInsert) = Ip4_OrInsert_loop addr m vec bm True
      in if shouldInsert then vec' @ [\<lparr> r4_mask = m, r4_data = htonl addr, r4_bitmap = bitmapCopy \<rparr>]
         else vec')"

definition Ip4_OrForEach :: "bitmap \<Rightarrow> Ip4RuleBitmap list \<Rightarrow> Ip4RuleBitmap list" where
  "Ip4_OrForEach bm vec = map (\<lambda>it. it\<lparr> r4_bitmap := Or (r4_bitmap it) bm \<rparr>) vec"

subsection \<open>IPv6 rule map\<close>

record Ip6RuleBitmap =
  r6_prefixlen :: nat
  r6_data :: in6_addr
  r6_bitmap :: bitmap

definition Ip6_GetNetworkAddress :: "in6_addr \<Rightarrow> int \<Rightarrow> in6_addr" where
  "Ip6_GetNetworkAddress addr prefixLen =
     (let out = replicate 16 (0 :: u8)
      in if prefixLen < 0 \<or> prefixLen > int IPV6_MAX_PREFIXLEN then out
         else if prefixLen = 0 then out
         else let quotient = nat prefixLen div 8; remainder = nat prefixLen mod 8;
                  out1 = map (\<lambda>i. if i < quotient then addr ! i AND 0xff else 0) [0..<16]
              in if remainder \<noteq> 0
                 then out1[quotient := addr ! quotient AND NOT (drop_bit remainder 0xff)] else out1)"

definition Ip6_OrInsert :: "in6_addr \<Rightarrow> nat \<Rightarrow> bitmap \<Rightarrow> Ip6RuleBitmap list \<Rightarrow> Ip6RuleBitmap list" where
  "Ip6_OrInsert addr prefixlen bm vec =
     (let networkAddr = Ip6_GetNetworkAddress addr (int prefixlen);
          hit = (\<lambda>it. addr = r6_data it \<or>
            networkAddr = Ip6_GetNetworkAddress (r6_data it) (int (r6_prefixlen it)))
      in if list_ex hit vec
         then map (\<lambda>it. if hit it then it\<lparr> r6_bitmap := Or (r6_bitmap it) bm \<rparr> else it) vec
         else vec @ [\<lparr> r6_prefixlen = prefixlen, r6_data = addr, r6_bitmap = bm \<rparr>])"

definition Ip6_OrForEach :: "bitmap \<Rightarrow> Ip6RuleBitmap list \<Rightarrow> Ip6RuleBitmap list" where
  "Ip6_OrForEach bm vec = map (\<lambda>it. it\<lparr> r6_bitmap := Or (r6_bitmap it) bm \<rparr>) vec"

subsection \<open>Port map\<close>

record portRuleBitmap =
  rp_prefixlen :: nat
  rp_data :: u16
  rp_bitmap :: bitmap

fun Port_OrInsert :: "u16 \<Rightarrow> nat \<Rightarrow> bitmap \<Rightarrow> portRuleBitmap list \<Rightarrow> portRuleBitmap list" where
  "Port_OrInsert start m bm [] = [\<lparr> rp_prefixlen = m, rp_data = start, rp_bitmap = bm \<rparr>]"
| "Port_OrInsert start m bm (it # its) =
     (if rp_data it = start \<and> rp_prefixlen it = m
      then it\<lparr> rp_bitmap := Or (rp_bitmap it) bm \<rparr> # its
      else it # Port_OrInsert start m bm its)"

definition Port_OrForEach :: "bitmap \<Rightarrow> portRuleBitmap list \<Rightarrow> portRuleBitmap list" where
  "Port_OrForEach bm vec = map (\<lambda>it. it\<lparr> rp_bitmap := Or (rp_bitmap it) bm \<rparr>) vec"

subsection \<open>Network addresses\<close>

lemma bit_ones32: "n < 32 \<Longrightarrow> bit (0xFFFFFFFF :: int) n"
proof -
  have "(0xFFFFFFFF :: int) = mask 32" by (simp add: mask_eq_exp_minus_1)
  then show "n < 32 \<Longrightarrow> ?thesis" by (simp only: bit_mask_iff) (simp add: possible_bit_def)
qed

lemma bit_GetNetworkAddress: "m \<le> 32 \<Longrightarrow> bit (GetNetworkAddress a m) n \<longleftrightarrow> 32 - m \<le> n \<and> bit a n"
  using bit_imp_le_length [of a n]
  by (auto simp: GetNetworkAddress_def IPV4_MAX_PREFIXLEN_def Let_def bit_and_iff bit_push_bit_iff bit_ones32)

lemma GetNetworkAddress_eq_iff:
  assumes m: "m \<le> 32"
  shows "GetNetworkAddress a m = GetNetworkAddress b m \<longleftrightarrow> drop_bit (32 - m) a = drop_bit (32 - m) b"
proof
  assume eq: "GetNetworkAddress a m = GetNetworkAddress b m"
  show "drop_bit (32 - m) a = drop_bit (32 - m) b"
  proof (rule bit_word_eqI)
    fix n
    have "bit (GetNetworkAddress a m) (32 - m + n) \<longleftrightarrow> bit (GetNetworkAddress b m) (32 - m + n)"
      by (simp add: eq)
    then show "bit (drop_bit (32 - m) a) n \<longleftrightarrow> bit (drop_bit (32 - m) b) n"
      unfolding bit_GetNetworkAddress [OF m] bit_drop_bit_eq o_apply by (simp only: le_add1 simp_thms)
  qed
next
  assume eq: "drop_bit (32 - m) a = drop_bit (32 - m) b"
  show "GetNetworkAddress a m = GetNetworkAddress b m"
  proof (rule bit_word_eqI)
    fix n
    have "bit (drop_bit (32 - m) a) (n - (32 - m)) \<longleftrightarrow> bit (drop_bit (32 - m) b) (n - (32 - m))"
      by (simp only: eq)
    then show "bit (GetNetworkAddress a m) n \<longleftrightarrow> bit (GetNetworkAddress b m) n"
      unfolding bit_GetNetworkAddress [OF m] bit_drop_bit_eq o_apply
      by (cases "32 - m \<le> n") (simp_all only: le_add_diff_inverse simp_thms)
  qed
qed

subsection \<open>The IPv4 vector is a cumulative table\<close>

definition key4 :: "Ip4RuleBitmap \<Rightarrow> Ip4Data" where
  "key4 it = \<lparr> d4_mask = r4_mask it, d4_data = ntohl (r4_data it) \<rparr>"

definition table4 :: "Ip4RuleBitmap list \<Rightarrow> (Ip4Data \<times> nat set) list" where
  "table4 vec = map (\<lambda>it. (key4 it, bits (r4_bitmap it))) vec"

lemma length_table4 [simp]: "length (table4 vec) = length vec"
  by (simp add: table4_def)

lemma nth_table4 [simp]: "j < length vec \<Longrightarrow> table4 vec ! j = (key4 (vec ! j), bits (r4_bitmap (vec ! j)))"
  by (simp add: table4_def)

lemma table4_snoc [simp]: "table4 (vec @ [it]) = table4 vec @ [(key4 it, bits (r4_bitmap it))]"
  by (simp add: table4_def)

abbreviation broader4 :: "Ip4Data \<Rightarrow> Ip4Data \<Rightarrow> bool" where
  "broader4 \<equiv> broader d4_mask ip4_in"

lemma broader4_iff: "broader4 K k \<longleftrightarrow> d4_mask K \<le> d4_mask k \<and> ip4_in K (d4_data k)"
  using ip4p.broader_covers [of K k "d4_data k"] by (auto simp: broader_def ip4_in_def)

lemma network_test: "m \<le> 32 \<Longrightarrow> GetNetworkAddress a m = GetNetworkAddress b m \<longleftrightarrow>
    ip4_in \<lparr> d4_mask = m, d4_data = b \<rparr> a"
  by (auto simp: GetNetworkAddress_eq_iff ip4_in_def)

lemma Ip4_OrInsert_body_eq:
  assumes m: "m \<le> 32" and it: "r4_mask it \<le> 32" "ip4_norm (key4 it)"
    and K: "K = \<lparr> d4_mask = m, d4_data = addr \<rparr>" "ip4_norm K"
  shows "Ip4_OrInsert_body addr m it cp ins =
    (if broader4 K (key4 it) then it\<lparr> r4_bitmap := Or (r4_bitmap it) cp \<rparr> else it,
     if r4_mask it < m \<and> broader4 (key4 it) K then Or cp (r4_bitmap it) else cp,
     ins \<and> key4 it \<noteq> K)"
proof -
  have narrow: "GetNetworkAddress (ntohl (r4_data it)) m = GetNetworkAddress addr m \<longleftrightarrow> broader4 K (key4 it)"
    if "m < r4_mask it"
    using that m by (simp add: network_test broader4_iff K key4_def)
  have wide: "GetNetworkAddress addr (r4_mask it) = GetNetworkAddress (ntohl (r4_data it)) (r4_mask it)
      \<longleftrightarrow> broader4 (key4 it) K" if "r4_mask it < m"
    using that it(1) by (simp add: network_test broader4_iff K key4_def)
  have other: "\<not> broader4 K (key4 it)" if "r4_mask it < m"
    using that by (simp add: broader4_iff K key4_def)
  have same: "broader4 K (key4 it) \<longleftrightarrow> key4 it = K" if "r4_mask it = m"
    using that ip4n.norm_unique [of K "key4 it"] it(2) K ip4p.broader_refl [of K] by (auto simp: key4_def)
  have key: "key4 it = K \<longleftrightarrow> r4_data it = htonl addr \<and> r4_mask it = m"
    by (auto simp: K key4_def)
  show ?thesis
  proof (cases m "r4_mask it" rule: linorder_cases)
    case equal
    then show ?thesis using same [OF equal [symmetric]]
      by (cases "r4_data it = htonl addr") (simp_all add: Ip4_OrInsert_body_def key)
  qed (use narrow wide other in \<open>simp_all add: Ip4_OrInsert_body_def key\<close>)
qed

definition entry_upd :: "Ip4Data \<Rightarrow> nat set \<Rightarrow> nat set \<Rightarrow> Ip4RuleBitmap \<Rightarrow> Ip4RuleBitmap \<Rightarrow> bool" where
  "entry_upd K lo hi it it' \<longleftrightarrow> key4 it' = key4 it \<and>
     (if broader4 K (key4 it)
      then bits (r4_bitmap it) \<union> lo \<subseteq> bits (r4_bitmap it') \<and> bits (r4_bitmap it') \<subseteq> bits (r4_bitmap it) \<union> hi
      else bits (r4_bitmap it') = bits (r4_bitmap it))"

lemma entry_upd_mono: "entry_upd K lo hi it it' \<Longrightarrow> lo' \<subseteq> lo \<Longrightarrow> hi \<subseteq> hi' \<Longrightarrow> entry_upd K lo' hi' it it'"
  by (auto simp: entry_upd_def split: if_splits)

lemma Ip4_OrInsert_loop_spec:
  assumes m: "m \<le> 32" and K: "K = \<lparr> d4_mask = m, d4_data = addr \<rparr>" "ip4_norm K"
    and its: "\<forall>it\<in>set its. ip4_norm (key4 it)"
    and run: "Ip4_OrInsert_loop addr m its cp ins = (its', cp', ins')"
  shows "bits cp' = bits cp \<union> inherited d4_mask ip4_in (table4 its) K \<and>
    (ins' \<longleftrightarrow> ins \<and> K \<notin> key4 ` set its) \<and> list_all2 (entry_upd K (bits cp) (bits cp')) its its'"
  using its run
proof (induction its arbitrary: cp ins its' cp' ins')
  case Nil
  then show ?case by (simp add: table4_def)
next
  case (Cons it its)
  have it: "r4_mask it \<le> 32" "ip4_norm (key4 it)"
    using Cons.prems(1) by (simp_all add: ip4_norm_def key4_def)
  define it1 where "it1 = (if broader4 K (key4 it) then it\<lparr> r4_bitmap := Or (r4_bitmap it) cp \<rparr> else it)"
  define cp1 where "cp1 = (if r4_mask it < m \<and> broader4 (key4 it) K then Or cp (r4_bitmap it) else cp)"
  obtain rest where rest: "Ip4_OrInsert_loop addr m its cp1 (ins \<and> key4 it \<noteq> K) = (rest, cp', ins')"
    and its': "its' = it1 # rest"
    using Cons.prems(2) unfolding Ip4_OrInsert_loop.simps Ip4_OrInsert_body_eq [OF m it K]
    by (auto simp: it1_def cp1_def split: prod.splits)
  have IH: "bits cp' = bits cp1 \<union> inherited d4_mask ip4_in (table4 its) K"
    "ins' \<longleftrightarrow> (ins \<and> key4 it \<noteq> K) \<and> K \<notin> key4 ` set its"
    "list_all2 (entry_upd K (bits cp1) (bits cp')) its rest"
    using Cons.IH [OF _ rest] Cons.prems(1) by auto
  have cp1: "bits cp1 = bits cp \<union> (if r4_mask it < m \<and> broader4 (key4 it) K then bits (r4_bitmap it) else {})"
    by (simp add: cp1_def)
  have "inherited d4_mask ip4_in (table4 (it # its)) K =
      (if r4_mask it < m \<and> broader4 (key4 it) K then bits (r4_bitmap it) else {}) \<union>
      inherited d4_mask ip4_in (table4 its) K"
    by (simp add: table4_def K(1) key4_def)
  with IH(1) cp1 have cp': "bits cp' = bits cp \<union> inherited d4_mask ip4_in (table4 (it # its)) K" by auto
  have "entry_upd K (bits cp) (bits cp') it it1"
    using cp' by (auto simp: entry_upd_def it1_def key4_def)
  moreover have "list_all2 (entry_upd K (bits cp) (bits cp')) its rest"
    by (rule list_all2_mono [OF IH(3)]) (rule entry_upd_mono, use cp1 in auto)
  ultimately show ?case using cp' IH(2) its' by auto
qed

definition norm4 :: "Ip4RuleBitmap list \<Rightarrow> bool" where
  "norm4 vec \<longleftrightarrow> list_all (\<lambda>it. ip4_norm (key4 it)) vec"

lemma Ip4_OrInsert_ok:
  assumes norms: "norm4 vec" and K: "K = \<lparr> d4_mask = m, d4_data = addr \<rparr>" "ip4_norm K"
    and ok: "table_ok d4_mask ip4_in ins (table4 vec)"
  shows "norm4 (Ip4_OrInsert addr m b vec)"
    and "table_ok d4_mask ip4_in (ins @ [(K, bits b)]) (table4 (Ip4_OrInsert addr m b vec))"
proof -
  have m: "m \<le> 32" using K by (simp add: ip4_norm_def)
  obtain vec' cp' ins' where run: "Ip4_OrInsert_loop addr m vec b True = (vec', cp', ins')"
    by (metis prod_cases3)
  note spec = Ip4_OrInsert_loop_spec [OF m K norms [unfolded norm4_def list_all_iff] run]
  from spec have cp': "bits cp' = bits b \<union> inherited d4_mask ip4_in (table4 vec) K"
    and upd: "list_all2 (entry_upd K (bits b) (bits cp')) vec vec'" by blast+
  have keys: "map key4 vec' = map key4 vec"
    using spec by (auto simp: list_eq_iff_nth_eq list_all2_conv_all_nth entry_upd_def)
  have out: "Ip4_OrInsert addr m b vec = (if K \<in> key4 ` set vec then vec'
      else vec' @ [\<lparr> r4_mask = m, r4_data = htonl addr, r4_bitmap = cp' \<rparr>])"
    using spec m by (simp add: Ip4_OrInsert_def run IPV4_MAX_PREFIXLEN_def)
  have new: "key4 \<lparr> r4_mask = m, r4_data = htonl addr, r4_bitmap = cp' \<rparr> = K" by (simp add: key4_def K)
  have "list_all ip4_norm (map key4 vec')" using norms by (simp add: keys norm4_def list.pred_map o_def)
  then show "norm4 (Ip4_OrInsert addr m b vec)"
    using K new by (simp add: out norm4_def list.pred_map o_def)
  have tkeys: "map fst (table4 vec') = map fst (table4 vec)" using keys by (simp add: table4_def o_def)
  have img: "fst ` set (table4 vec) = key4 ` set vec" by (auto simp: table4_def image_image)
  have "table_ok d4_mask ip4_in (ins @ [(K, bits b)])
    (if K \<in> fst ` set (table4 vec) then table4 vec'
     else table4 vec' @ [(K, bits b \<union> inherited d4_mask ip4_in (table4 vec) K)])"
  proof (rule ip4n.table_insert [OF ok _ K(2) tkeys])
    show "\<forall>(k, B)\<in>set (table4 vec). ip4_norm k" using norms by (auto simp: norm4_def list_all_iff table4_def)
  next
    fix j assume j: "j < length (table4 vec)"
    then have "entry_upd K (bits b) (bits cp') (vec ! j) (vec' ! j)"
      using list_all2_nthD [OF upd] by (simp add: table4_def)
    moreover have "length vec' = length vec" using list_all2_lengthD [OF upd] by simp
    ultimately show "if broader4 K (fst (table4 vec ! j))
        then snd (table4 vec ! j) \<union> bits b \<subseteq> snd (table4 vec' ! j) \<and>
          snd (table4 vec' ! j) \<subseteq> snd (table4 vec ! j) \<union> bits b \<union> inherited d4_mask ip4_in (table4 vec) K
        else snd (table4 vec' ! j) = snd (table4 vec ! j)"
      using j unfolding entry_upd_def cp' by (simp add: Un_assoc split: if_splits)
  qed
  then show "table_ok d4_mask ip4_in (ins @ [(K, bits b)]) (table4 (Ip4_OrInsert addr m b vec))"
    using new unfolding out img if_distrib [of table4] table4_snoc by (simp add: cp' split: if_splits)
qed

subsection \<open>What the kernel finds\<close>

definition kern4 :: "Ip4RuleBitmap list \<Rightarrow> (Ip4Data \<times> bitmap) list" where
  "kern4 vec = map (\<lambda>it. (key4 it, r4_bitmap it)) vec"

lemma table4_OrForEach: "table4 vec = with_rules N tbl \<Longrightarrow> table4 (Ip4_OrForEach b vec) = with_rules (N \<union> bits b) tbl"
proof -
  assume "table4 vec = with_rules N tbl"
  moreover have "table4 (Ip4_OrForEach b vec) = with_rules (bits b) (table4 vec)"
    by (simp add: table4_def Ip4_OrForEach_def with_rules_def key4_def)
  ultimately show ?thesis by (auto simp: with_rules_def)
qed

lemma kern4_table4: "map (\<lambda>(k, bm). (k, bits bm)) (kern4 vec) = table4 vec"
  by (simp add: kern4_def table4_def)

lemma kern4_lookup:
  assumes "lpm_spec d4_mask ip4_in lk" "table_ok d4_mask ip4_in ins tbl" "table4 vec = with_rules N tbl"
  shows "lk (kern4 vec) x = None \<Longrightarrow> (k, b) \<in> set ins \<Longrightarrow> \<not> ip4_in k x"
    and "lk (kern4 vec) x = Some bm \<Longrightarrow> bits bm = rules_at ip4_in ins x \<union> N"
  using ip4p.lookup_None [OF assms(1,2), of bits "kern4 vec" N x k b]
    ip4p.lookup_Some [OF assms(1,2), of bits "kern4 vec" N x bm] assms(3)
  by (simp_all add: kern4_table4)

subsection \<open>Properties\<close>

text \<open>C7: After any sequence of insertions of normalised prefixes into an empty IPv4 rule map, a longest
  prefix match on its entries finds, for every address, exactly the union of the bitmaps of all inserted
  prefixes that contain the address, and finds nothing only when no inserted prefix contains it.\<close>

theorem ip4_rule_map_lookup:
  assumes "lpm_spec d4_mask ip4_in lk"
    and "list_all (\<lambda>(addr, m, b). ip4_norm \<lparr> d4_mask = m, d4_data = addr \<rparr>) ins"
  shows "case lk (kern4 (foldl (\<lambda>vec (addr, m, b). Ip4_OrInsert addr m b vec) [] ins)) x of
      None \<Rightarrow> list_all (\<lambda>(addr, m, b). \<not> ip4_in \<lparr> d4_mask = m, d4_data = addr \<rparr> x) ins
    | Some bm \<Rightarrow> bits bm = (\<Union>(addr, m, b)\<in>set ins.
        if ip4_in \<lparr> d4_mask = m, d4_data = addr \<rparr> x then bits b else {})"
proof -
  let ?key = "\<lambda>(addr, m, b). (\<lparr> d4_mask = m, d4_data = addr \<rparr>, bits b)"
  have "norm4 (foldl (\<lambda>vec (addr, m, b). Ip4_OrInsert addr m b vec) [] ins) \<and>
    table_ok d4_mask ip4_in (map ?key ins) (table4 (foldl (\<lambda>vec (addr, m, b). Ip4_OrInsert addr m b vec) [] ins))"
    using assms(2)
  proof (induction ins rule: rev_induct)
    case Nil
    show ?case by (simp add: norm4_def table_ok_def table4_def)
  next
    case (snoc i ins)
    obtain addr m b where i: "i = (addr, m, b)" by (cases i)
    let ?vec = "foldl (\<lambda>vec (addr, m, b). Ip4_OrInsert addr m b vec) [] ins"
    from snoc have "norm4 ?vec" "table_ok d4_mask ip4_in (map ?key ins) (table4 ?vec)"
      "ip4_norm \<lparr> d4_mask = m, d4_data = addr \<rparr>" by (simp_all add: i)
    then show ?case using Ip4_OrInsert_ok [OF _ refl, of ?vec m addr "map ?key ins" b] by (simp add: i)
  qed
  then have "table_ok d4_mask ip4_in (map ?key ins)
      (table4 (foldl (\<lambda>vec (addr, m, b). Ip4_OrInsert addr m b vec) [] ins))" by blast
  note found = kern4_lookup [OF assms(1) this with_rules_empty [symmetric], of x]
  have eq: "rules_at ip4_in (map ?key ins) x = (\<Union>(addr, m, b)\<in>set ins.
      if ip4_in \<lparr> d4_mask = m, d4_data = addr \<rparr> x then bits b else {})"
    by (induction ins) auto
  have mem: "(\<lparr> d4_mask = m, d4_data = addr \<rparr>, bits b) \<in> set (map ?key ins)"
    if "(addr, m, b) \<in> set ins" for addr m b using that by force
  show ?thesis
  proof (cases "lk (kern4 (foldl (\<lambda>vec (addr, m, b). Ip4_OrInsert addr m b vec) [] ins)) x")
    case None
    then show ?thesis using found(1) [OF None mem] by (auto simp: list_all_iff)
  next
    case (Some bm)
    then show ?thesis using found(2) [OF Some] eq by simp
  qed
qed

theorem ip4_rule_map_lookup_witness:
  "lpm_spec d4_mask ip4_in (lpm_scan d4_mask ip4_in) \<and>
   map_option bits (lpm_scan d4_mask ip4_in (kern4 (foldl (\<lambda>vec (addr, m, b). Ip4_OrInsert addr m b vec) []
     [(0x0a000000, 8, Bitmap_of 0), (0x0a010000, 16, Bitmap_of 1), (0xc0a80000, 16, Bitmap_of 2)])) 0x0a010203)
   = Some {0, 1}"
proof -
  let ?ins = "[(0x0a000000, 8, Bitmap_of 0), (0x0a010000, 16, Bitmap_of 1), (0xc0a80000, 16, Bitmap_of 2)]
    :: (u32 \<times> nat \<times> bitmap) list"
  have norm: "list_all (\<lambda>(addr, m, b). ip4_norm \<lparr> d4_mask = m, d4_data = addr \<rparr>) ?ins"
    by (simp add: ip4_norm_def)
  have "bits (Bitmap_of 0) = {0}" "bits (Bitmap_of 1) = {1}"
    by (simp_all add: BITMAP_BIT_COUNT_def BITMAP_LEN_def)
  with ip4_rule_map_lookup [OF lpm_scan_spec norm, of "0x0a010203"] show ?thesis
    by (auto simp: lpm_scan_spec ip4_in_def split: option.splits)
qed

end
