(* ===== verification/Fw_Manager.thy ===== *)
theory Fw_Manager
  imports Fw_RuleMaps
begin

text \<open>
  Class \<^verbatim>\<open>BitmapManager\<close> of \<^verbatim>\<open>bitmap_manager.cpp\<close>: from a list of firewall rules to one bitmap map per
  packet attribute. \<^verbatim>\<open>BuildMarkBitmap\<close> enters a rule into the maps of the attributes it names,
  \<^verbatim>\<open>Insert\<close> adds the fallback key of every map and \<^verbatim>\<open>BuildNoMarkBitmap\<close> adds a rule to every entry of
  the maps of the attributes it leaves open.
\<close>

subsection \<open>Rules\<close>

datatype FirewallRuleAction = RULE_INVALID | RULE_ALLOW | RULE_DENY

datatype NetFirewallRuleDirection = RULE_IN | RULE_OUT

record NetFirewallIpParam =
  ip_family :: u8
  ip_type :: u8
  ip_mask :: u8
  ip4_startIp :: u32
  ip4_endIp :: u32
  ip6_startIp :: in6_addr
  ip6_endIp :: in6_addr

record NetFirewallPortParam =
  startPort :: u16
  endPort :: u16

record NetFirewallIpRule =
  userId :: int
  appUid :: int
  ruleDirection :: NetFirewallRuleDirection
  ruleAction :: FirewallRuleAction
  protocol :: nat
  localIps :: "NetFirewallIpParam list"
  remoteIps :: "NetFirewallIpParam list"
  localPorts :: "NetFirewallPortParam list"
  remotePorts :: "NetFirewallPortParam list"
  rule_interface :: string

definition FAMILY_IPV4 :: u8 where "FAMILY_IPV4 = 1"
definition FAMILY_IPV6 :: u8 where "FAMILY_IPV6 = 2"
definition SINGLE_IP :: u8 where "SINGLE_IP = 1"
definition MULTIPLE_IP :: u8 where "MULTIPLE_IP = 2"
definition PROTO_ICMP :: nat where "PROTO_ICMP = 1"
definition PROTO_ICMPV6 :: nat where "PROTO_ICMPV6 = 58"

definition OTHER_IP4_KEY :: u32 where "OTHER_IP4_KEY = 0xffffffff"
definition OTHER_PORT_KEY :: u16 where "OTHER_PORT_KEY = 0xffff"
definition OTHER_PROTO_KEY :: u8 where "OTHER_PROTO_KEY = 0xff"
definition OTHER_APPUID_KEY :: u32 where "OTHER_APPUID_KEY = 0xffffffff"
definition OTHER_UID_KEY :: u32 where "OTHER_UID_KEY = 0xffffffff"

subsection \<open>State\<close>

record BitmapManager =
  srcIp4Map :: "Ip4RuleBitmap list"
  dstIp4Map :: "Ip4RuleBitmap list"
  srcIp6Map :: "Ip6RuleBitmap list"
  dstIp6Map :: "Ip6RuleBitmap list"
  srcPortMap :: "portRuleBitmap list"
  dstPortMap :: "portRuleBitmap list"
  protoMap :: "u8 bpf_map"
  appUidMap :: "u32 bpf_map"
  uidMap :: "u32 bpf_map"
  actionMap :: "u8 bpf_map"
  interfaceMap :: "string bpf_map"

definition Manager_Clear :: BitmapManager where
  "Manager_Clear = \<lparr> srcIp4Map = [], dstIp4Map = [], srcIp6Map = [], dstIp6Map = [],
     srcPortMap = [], dstPortMap = [], protoMap = Map.empty, appUidMap = Map.empty, uidMap = Map.empty,
     actionMap = Map.empty, interfaceMap = Map.empty \<rparr>"

definition Manager_Insert :: "BitmapManager \<Rightarrow> BitmapManager" where
  "Manager_Insert mg = mg\<lparr>
     srcIp4Map := Ip4_OrInsert OTHER_IP4_KEY IPV4_MAX_PREFIXLEN Clear (srcIp4Map mg),
     dstIp4Map := Ip4_OrInsert OTHER_IP4_KEY IPV4_MAX_PREFIXLEN Clear (dstIp4Map mg),
     srcIp6Map := Ip6_OrInsert (replicate 16 0xff) IPV6_MAX_PREFIXLEN Clear (srcIp6Map mg),
     dstIp6Map := Ip6_OrInsert (replicate 16 0xff) IPV6_MAX_PREFIXLEN Clear (dstIp6Map mg),
     srcPortMap := Port_OrInsert OTHER_PORT_KEY PORT_MAX_MASK Clear (srcPortMap mg),
     dstPortMap := Port_OrInsert OTHER_PORT_KEY PORT_MAX_MASK Clear (dstPortMap mg),
     protoMap := OrInsert OTHER_PROTO_KEY Clear (protoMap mg),
     appUidMap := OrInsert OTHER_APPUID_KEY Clear (appUidMap mg),
     uidMap := OrInsert OTHER_UID_KEY Clear (uidMap mg),
     actionMap := OrInsert 1 Clear (actionMap mg),
     interfaceMap := OrInsert [] Clear (interfaceMap mg) \<rparr>"

subsection \<open>Addresses\<close>

definition InsertIp4SegBitmap ::
  "NetFirewallIpParam \<Rightarrow> bitmap \<Rightarrow> Ip4RuleBitmap list \<Rightarrow> NetFirewallError \<times> Ip4RuleBitmap list" where
  "InsertIp4SegBitmap item bm ip4Map =
     (if ip_type item = SINGLE_IP then
        (if unat (ip_mask item) > IPV4_MAX_PREFIXLEN then (NETFIREWALL_ERR, ip4Map)
         else (NETFIREWALL_SUCCESS, Ip4_OrInsert (ntohl (ip4_startIp item)) (unat (ip_mask item)) bm ip4Map))
      else if ip_type item = MULTIPLE_IP then
        (case GetIp4AndMask (ip4_startIp item) (ip4_endIp item) [] of (ret, ips) \<Rightarrow>
           if ret \<noteq> NETFIREWALL_SUCCESS then (ret, ip4Map)
           else (NETFIREWALL_SUCCESS,
                 foldl (\<lambda>mp ipData. Ip4_OrInsert (d4_data ipData) (d4_mask ipData) bm mp) ip4Map ips))
      else (NETFIREWALL_SUCCESS, ip4Map))"

definition InsertIp6SegBitmap ::
  "NetFirewallIpParam \<Rightarrow> bitmap \<Rightarrow> Ip6RuleBitmap list \<Rightarrow> NetFirewallError \<times> Ip6RuleBitmap list" where
  "InsertIp6SegBitmap item bm ip6Map =
     (if ip_type item = SINGLE_IP then
        (if unat (ip_mask item) > IPV6_MAX_PREFIXLEN then (NETFIREWALL_ERR, ip6Map)
         else (NETFIREWALL_SUCCESS, Ip6_OrInsert (ip6_startIp item) (unat (ip_mask item)) bm ip6Map))
      else if ip_type item = MULTIPLE_IP then
        (case GetIp6AndMask (ip6_startIp item) (ip6_endIp item) [] of (ret, ips) \<Rightarrow>
           if ret \<noteq> NETFIREWALL_SUCCESS then (ret, ip6Map)
           else (NETFIREWALL_SUCCESS,
                 foldl (\<lambda>mp ipData. Ip6_OrInsert (d6_data ipData) (d6_prefixlen ipData) bm mp) ip6Map ips))
      else (NETFIREWALL_SUCCESS, ip6Map))"

text \<open>An item of any family but IPv4 and IPv6 leaves both map pointers null, which the IPv6 branch reports as
  an error.\<close>

fun InsertIpBitmap :: "NetFirewallIpParam list \<Rightarrow> bool \<Rightarrow> bitmap \<Rightarrow> BitmapManager \<Rightarrow> NetFirewallError \<times> BitmapManager" where
  "InsertIpBitmap [] isSrc bm mg = (NETFIREWALL_SUCCESS, mg)"
| "InsertIpBitmap (item # items) isSrc bm mg =
     (if ip_family item = FAMILY_IPV4 then
        (case InsertIp4SegBitmap item bm (if isSrc then srcIp4Map mg else dstIp4Map mg) of (ret, mp) \<Rightarrow>
           let mg' = (if isSrc then mg\<lparr> srcIp4Map := mp \<rparr> else mg\<lparr> dstIp4Map := mp \<rparr>)
           in if ret \<noteq> NETFIREWALL_SUCCESS then (ret, mg') else InsertIpBitmap items isSrc bm mg')
      else if ip_family item = FAMILY_IPV6 then
        (case InsertIp6SegBitmap item bm (if isSrc then srcIp6Map mg else dstIp6Map mg) of (ret, mp) \<Rightarrow>
           let mg' = (if isSrc then mg\<lparr> srcIp6Map := mp \<rparr> else mg\<lparr> dstIp6Map := mp \<rparr>)
           in if ret \<noteq> NETFIREWALL_SUCCESS then (ret, mg') else InsertIpBitmap items isSrc bm mg')
      else (NETFIREWALL_ERR, mg))"

subsection \<open>Ports\<close>

definition OrInsertPortBitmap :: "SegmentBitmap list \<Rightarrow> portRuleBitmap list \<Rightarrow> portRuleBitmap list" where
  "OrInsertPortBitmap segMap portMap =
     foldl (\<lambda>pm item.
       (case GetPortRangeAndMask (seg_start item) (seg_end item) [] of (ret, portRules) \<Rightarrow>
          if ret \<noteq> 0 then pm
          else foldl (\<lambda>pm rule. if pr_prefixlen rule > PORT_MAX_MASK then pm
                 else Port_OrInsert (htons (pr_data rule)) (pr_prefixlen rule) (seg_bitmap item) pm)
               pm portRules)) portMap segMap"

definition AddPortBitmap :: "NetFirewallPortParam list \<Rightarrow> bitmap \<Rightarrow> SegmentBitmap list \<Rightarrow> SegmentBitmap list" where
  "AddPortBitmap ports bm portMap =
     foldl (\<lambda>pm item. if startPort item = 0 then pm
       else if startPort item \<le> endPort item then AddMap (startPort item) (endPort item) bm pm else pm)
     portMap ports"

definition IsNotNeedPort :: "nat \<Rightarrow> bool" where
  "IsNotNeedPort p \<longleftrightarrow> p = PROTO_ICMPV6 \<or> p = PROTO_ICMP"

subsection \<open>Building the maps\<close>

text \<open>The state of the loop of \<^verbatim>\<open>BuildMarkBitmap\<close>: the two local segment maps and the member maps.\<close>

record mark_state =
  mk_src :: "SegmentBitmap list"
  mk_dst :: "SegmentBitmap list"
  mk_mgr :: BitmapManager

definition MarkPorts :: "NetFirewallIpRule \<Rightarrow> bitmap \<Rightarrow> mark_state \<Rightarrow> mark_state" where
  "MarkPorts rule bm st =
     (if \<not> IsNotNeedPort (protocol rule)
      then st\<lparr> mk_src := AddPortBitmap (remotePorts rule) bm (mk_src st),
               mk_dst := AddPortBitmap (localPorts rule) bm (mk_dst st) \<rparr>
      else st)"

definition MarkKeys :: "NetFirewallIpRule \<Rightarrow> bitmap \<Rightarrow> BitmapManager \<Rightarrow> BitmapManager" where
  "MarkKeys rule bm mg0 =
     (let mg1 = (if protocol rule \<noteq> 0
                 then mg0\<lparr> protoMap := OrInsert (of_nat (protocol rule)) bm (protoMap mg0) \<rparr> else mg0);
          mg2 = (if appUid rule > 0
                 then mg1\<lparr> appUidMap := OrInsert (of_int (appUid rule)) bm (appUidMap mg1) \<rparr> else mg1);
          mg3 = (if userId rule > 0
                 then mg2\<lparr> uidMap := OrInsert (of_int (userId rule)) bm (uidMap mg2) \<rparr> else mg2);
          mg4 = (if ruleAction rule \<noteq> RULE_ALLOW
                 then mg3\<lparr> actionMap := OrInsert 1 bm (actionMap mg3) \<rparr> else mg3)
      in if rule_interface rule \<noteq> []
         then mg4\<lparr> interfaceMap := OrInsert (rule_interface rule) bm (interfaceMap mg4) \<rparr> else mg4)"

definition MarkRule :: "NetFirewallIpRule \<Rightarrow> nat \<Rightarrow> mark_state \<Rightarrow> NetFirewallError \<times> mark_state" where
  "MarkRule rule index st =
     (let bm = Bitmap_of index;
          (ret1, mg1) = InsertIpBitmap (remoteIps rule) True bm (mk_mgr st)
      in if ret1 \<noteq> NETFIREWALL_SUCCESS then (NETFIREWALL_ERR, st\<lparr> mk_mgr := mg1 \<rparr>)
         else let (ret2, mg2) = InsertIpBitmap (localIps rule) False bm mg1
              in if ret2 \<noteq> NETFIREWALL_SUCCESS then (NETFIREWALL_ERR, st\<lparr> mk_mgr := mg2 \<rparr>)
                 else (NETFIREWALL_SUCCESS, (MarkPorts rule bm st)\<lparr> mk_mgr := MarkKeys rule bm mg2 \<rparr>))"

fun BuildMarkBitmap_loop :: "NetFirewallIpRule option list \<Rightarrow> nat \<Rightarrow> mark_state \<Rightarrow> NetFirewallError \<times> mark_state" where
  "BuildMarkBitmap_loop [] index st = (NETFIREWALL_SUCCESS, st)"
| "BuildMarkBitmap_loop (None # rules) index st = BuildMarkBitmap_loop rules index st"
| "BuildMarkBitmap_loop (Some rule # rules) index st =
     (case MarkRule rule index st of (ret, st') \<Rightarrow>
        if ret \<noteq> NETFIREWALL_SUCCESS then (ret, st') else BuildMarkBitmap_loop rules (index + 1) st')"

definition BuildMarkBitmap :: "NetFirewallIpRule option list \<Rightarrow> BitmapManager \<Rightarrow> NetFirewallError \<times> BitmapManager" where
  "BuildMarkBitmap ruleList mg =
     (case BuildMarkBitmap_loop ruleList 0 \<lparr> mk_src = [], mk_dst = [], mk_mgr = mg \<rparr> of (ret, st) \<Rightarrow>
        if ret \<noteq> NETFIREWALL_SUCCESS then (ret, mk_mgr st)
        else let mg' = mk_mgr st
             in (NETFIREWALL_SUCCESS, mg'\<lparr> srcPortMap := OrInsertPortBitmap (mk_src st) (srcPortMap mg'),
                                         dstPortMap := OrInsertPortBitmap (mk_dst st) (dstPortMap mg') \<rparr>))"

definition NoMarkRule :: "NetFirewallIpRule \<Rightarrow> bitmap \<Rightarrow> BitmapManager \<Rightarrow> BitmapManager" where
  "NoMarkRule rule bm mg = mg\<lparr>
     srcIp4Map := (if remoteIps rule = [] then Ip4_OrForEach bm (srcIp4Map mg) else srcIp4Map mg),
     srcIp6Map := (if remoteIps rule = [] then Ip6_OrForEach bm (srcIp6Map mg) else srcIp6Map mg),
     dstIp4Map := (if localIps rule = [] then Ip4_OrForEach bm (dstIp4Map mg) else dstIp4Map mg),
     dstIp6Map := (if localIps rule = [] then Ip6_OrForEach bm (dstIp6Map mg) else dstIp6Map mg),
     srcPortMap := (if remotePorts rule = [] \<or> IsNotNeedPort (protocol rule)
                    then Port_OrForEach bm (srcPortMap mg) else srcPortMap mg),
     dstPortMap := (if localPorts rule = [] \<or> IsNotNeedPort (protocol rule)
                    then Port_OrForEach bm (dstPortMap mg) else dstPortMap mg),
     protoMap := (if protocol rule = 0 then OrForEach bm (protoMap mg) else protoMap mg),
     appUidMap := (if appUid rule < 1 then OrForEach bm (appUidMap mg) else appUidMap mg),
     uidMap := (if userId rule < 1 then OrForEach bm (uidMap mg) else uidMap mg),
     interfaceMap := (if rule_interface rule = [] then OrForEach bm (interfaceMap mg) else interfaceMap mg) \<rparr>"

text \<open>\<^verbatim>\<open>BuildNoMarkBitmap\<close> reads every rule pointer without a check: a null pointer is a crash, here \<^verbatim>\<open>None\<close>.\<close>

fun BuildNoMarkBitmap :: "NetFirewallIpRule option list \<Rightarrow> nat \<Rightarrow> BitmapManager \<Rightarrow> BitmapManager option" where
  "BuildNoMarkBitmap [] index mg = Some mg"
| "BuildNoMarkBitmap (None # rules) index mg = None"
| "BuildNoMarkBitmap (Some rule # rules) index mg =
     BuildNoMarkBitmap rules (index + 1) (NoMarkRule rule (Bitmap_of index) mg)"

definition BuildBitmapMap :: "NetFirewallIpRule option list \<Rightarrow> (NetFirewallError \<times> BitmapManager) option" where
  "BuildBitmapMap ruleList =
     (case BuildMarkBitmap ruleList Manager_Clear of (ret, mg) \<Rightarrow>
        if ret \<noteq> NETFIREWALL_SUCCESS then Some (ret, mg)
        else map_option (Pair NETFIREWALL_SUCCESS) (BuildNoMarkBitmap ruleList 0 (Manager_Insert mg)))"

subsection \<open>What a rule says about a packet\<close>

definition item_in4 :: "NetFirewallIpParam \<Rightarrow> u32 \<Rightarrow> bool" where
  "item_in4 item x \<longleftrightarrow> ip_family item = FAMILY_IPV4 \<and>
     (ip_type item = SINGLE_IP \<and>
        ip4_in \<lparr> d4_mask = unat (ip_mask item), d4_data = ntohl (ip4_startIp item) \<rparr> x \<or>
      ip_type item = MULTIPLE_IP \<and> ntohl (ip4_startIp item) \<le> x \<and> x \<le> ntohl (ip4_endIp item))"

definition item_norm :: "NetFirewallIpParam \<Rightarrow> bool" where
  "item_norm item \<longleftrightarrow> (ip_family item = FAMILY_IPV4 \<and> ip_type item = SINGLE_IP \<longrightarrow>
     ip4_norm \<lparr> d4_mask = unat (ip_mask item), d4_data = ntohl (ip4_startIp item) \<rparr>)"

definition port_item_in :: "NetFirewallPortParam \<Rightarrow> u16 \<Rightarrow> bool" where
  "port_item_in item p \<longleftrightarrow> startPort item \<noteq> 0 \<and> startPort item \<le> p \<and> p \<le> endPort item"

fun idxs :: "('r \<Rightarrow> bool) \<Rightarrow> nat \<Rightarrow> 'r list \<Rightarrow> nat set" where
  "idxs P index [] = {}"
| "idxs P index (r # rs) = (if P r then {index} else {}) \<union> idxs P (index + 1) rs"

lemma idxs_iff: "i \<in> idxs P index rs \<longleftrightarrow> index \<le> i \<and> i < index + length rs \<and> P (rs ! (i - index))"
proof (induction rs arbitrary: index)
  case (Cons r rs)
  show ?case
  proof (cases "i = index")
    case True
    then show ?thesis unfolding idxs.simps Un_iff Cons.IH by auto
  next
    case False
    then have "index \<le> i \<Longrightarrow> (r # rs) ! (i - index) = rs ! (i - (index + 1))"
      by (simp add: nth_Cons')
    with False show ?thesis unfolding idxs.simps Un_iff Cons.IH by auto
  qed
qed simp

subsection \<open>IPv4 maps after marking\<close>

definition marks4 :: "Ip4RuleBitmap list \<Rightarrow> (u32 \<Rightarrow> nat set) \<Rightarrow> bool" where
  "marks4 vec F \<longleftrightarrow> norm4 vec \<and>
     (\<exists>ins. table_ok d4_mask ip4_in ins (table4 vec) \<and> (\<forall>x. rules_at ip4_in ins x = F x))"

lemma marks4_Nil: "marks4 [] (\<lambda>x. {})"
  by (auto simp: marks4_def norm4_def table_ok_def table4_def intro: exI [of _ "[]"])

lemma marks4_cong: "marks4 vec F \<Longrightarrow> (\<And>x. F x = G x) \<Longrightarrow> marks4 vec G"
  by (simp add: marks4_def)

lemma marks4_OrInsert:
  assumes "marks4 vec F" "ip4_norm \<lparr> d4_mask = m, d4_data = addr \<rparr>"
  shows "marks4 (Ip4_OrInsert addr m b vec)
    (\<lambda>x. F x \<union> (if ip4_in \<lparr> d4_mask = m, d4_data = addr \<rparr> x then bits b else {}))"
proof -
  from assms(1) obtain ins where ins: "norm4 vec" "table_ok d4_mask ip4_in ins (table4 vec)"
    "\<forall>x. rules_at ip4_in ins x = F x" unfolding marks4_def by blast
  from Ip4_OrInsert_ok [OF ins(1) refl assms(2) ins(2), of b] ins(3) show ?thesis
    unfolding marks4_def by (intro conjI exI [of _ "ins @ [(\<lparr> d4_mask = m, d4_data = addr \<rparr>, bits b)]"]) simp_all
qed

lemma marks4_foldl:
  assumes "marks4 vec F" "list_all ip4_norm ds"
  shows "marks4 (foldl (\<lambda>mp d. Ip4_OrInsert (d4_data d) (d4_mask d) b mp) vec ds)
    (\<lambda>x. F x \<union> (if \<exists>d\<in>set ds. ip4_in d x then bits b else {}))"
  using assms
proof (induction ds arbitrary: vec F)
  case (Cons d ds)
  have d: "\<lparr> d4_mask = d4_mask d, d4_data = d4_data d \<rparr> = d" by simp
  from Cons.prems marks4_OrInsert [of vec F "d4_mask d" "d4_data d" b]
  have "marks4 (Ip4_OrInsert (d4_data d) (d4_mask d) b vec) (\<lambda>x. F x \<union> (if ip4_in d x then bits b else {}))"
    by (simp add: d)
  note m = Cons.IH [OF this]
  show ?case unfolding foldl_Cons by (rule marks4_cong [OF m]) (use Cons.prems(2) in auto)
qed simp

lemma InsertIp4SegBitmap_marks:
  assumes "marks4 vec F" "item_norm item" "ip_family item = FAMILY_IPV4"
    and "InsertIp4SegBitmap item b vec = (NETFIREWALL_SUCCESS, vec')"
  shows "marks4 vec' (\<lambda>x. F x \<union> (if item_in4 item x then bits b else {}))"
proof -
  have ne: "SINGLE_IP \<noteq> MULTIPLE_IP" by (simp add: SINGLE_IP_def MULTIPLE_IP_def)
  consider (single) "ip_type item = SINGLE_IP" | (range) "ip_type item = MULTIPLE_IP"
    | (other) "ip_type item \<noteq> SINGLE_IP" "ip_type item \<noteq> MULTIPLE_IP" by blast
  then show ?thesis
  proof cases
    case single
    let ?K = "\<lparr> d4_mask = unat (ip_mask item), d4_data = ntohl (ip4_startIp item) \<rparr>"
    have "item_in4 item x \<longleftrightarrow> ip4_in ?K x" for x
      using single ne assms(3) by (simp add: item_in4_def)
    moreover have "vec' = Ip4_OrInsert (ntohl (ip4_startIp item)) (unat (ip_mask item)) b vec"
      using single assms(4) by (simp add: InsertIp4SegBitmap_def split: if_splits)
    moreover have "ip4_norm ?K" using single assms by (simp add: item_norm_def)
    ultimately show ?thesis using marks4_OrInsert [OF assms(1)] by simp
  next
    case range
    let ?s = "ntohl (ip4_startIp item)" and ?e = "ntohl (ip4_endIp item)"
    have se: "?s \<le> ?e" and vec': "vec' = foldl (\<lambda>mp d. Ip4_OrInsert (d4_data d) (d4_mask d) b mp) vec
        (GetIp4AndMask_loop ?s ?e [])"
      using range ne assms(4) by (simp_all add: InsertIp4SegBitmap_def GetIp4AndMask_def Let_def split: if_splits)
    from GetIp4AndMask_loop_exact [OF se]
    have norm: "list_all ip4_norm (GetIp4AndMask_loop ?s ?e [])"
      and cov: "{x. \<exists>d\<in>set (GetIp4AndMask_loop ?s ?e []). ip4_in d x} = {?s..?e}"
      by (simp_all add: exact_cover_def)
    have "item_in4 item x \<longleftrightarrow> (\<exists>d\<in>set (GetIp4AndMask_loop ?s ?e []). ip4_in d x)" for x
      using range ne assms(3) cov by (auto simp: item_in4_def set_eq_iff)
    with marks4_foldl [OF assms(1) norm, of b] show ?thesis by (simp add: vec')
  next
    case other
    then show ?thesis using assms by (simp add: InsertIp4SegBitmap_def item_in4_def)
  qed
qed

text \<open>The maps that entering addresses leaves alone.\<close>

definition key_maps :: "BitmapManager \<Rightarrow> _" where
  "key_maps mg = (srcPortMap mg, dstPortMap mg, protoMap mg, appUidMap mg, uidMap mg, actionMap mg, interfaceMap mg)"

lemma InsertIpBitmap_ConsE:
  assumes "InsertIpBitmap (item # items) isSrc b mg = (NETFIREWALL_SUCCESS, mg')"
  obtains (v4) mp where "ip_family item = FAMILY_IPV4"
      "InsertIp4SegBitmap item b (if isSrc then srcIp4Map mg else dstIp4Map mg) = (NETFIREWALL_SUCCESS, mp)"
      "InsertIpBitmap items isSrc b (if isSrc then mg\<lparr> srcIp4Map := mp \<rparr> else mg\<lparr> dstIp4Map := mp \<rparr>)
         = (NETFIREWALL_SUCCESS, mg')"
    | (v6) mp where "ip_family item \<noteq> FAMILY_IPV4"
      "InsertIpBitmap items isSrc b (if isSrc then mg\<lparr> srcIp6Map := mp \<rparr> else mg\<lparr> dstIp6Map := mp \<rparr>)
         = (NETFIREWALL_SUCCESS, mg')"
proof (cases "ip_family item = FAMILY_IPV4")
  case True
  obtain ret mp where r: "InsertIp4SegBitmap item b (if isSrc then srcIp4Map mg else dstIp4Map mg) = (ret, mp)"
    by fastforce
  with assms True have "ret = NETFIREWALL_SUCCESS" by (simp add: Let_def split: if_splits)
  with assms True r v4 show ?thesis by (simp add: Let_def)
next
  case False
  then have six: "ip_family item = FAMILY_IPV6" using assms by (simp split: if_splits)
  obtain ret mp where r: "InsertIp6SegBitmap item b (if isSrc then srcIp6Map mg else dstIp6Map mg) = (ret, mp)"
    by fastforce
  with assms False six have "ret = NETFIREWALL_SUCCESS" by (simp add: Let_def split: if_splits)
  with assms False six r v6 show ?thesis by (simp add: Let_def)
qed

lemma InsertIpBitmap_frame:
  assumes "InsertIpBitmap items isSrc b mg = (NETFIREWALL_SUCCESS, mg')"
  shows "key_maps mg' = key_maps mg \<and> (isSrc \<longrightarrow> dstIp4Map mg' = dstIp4Map mg) \<and>
    (\<not> isSrc \<longrightarrow> srcIp4Map mg' = srcIp4Map mg)"
  using assms
proof (induction items arbitrary: mg)
  case (Cons item items)
  from Cons.prems show ?case
  proof (cases rule: InsertIpBitmap_ConsE)
    case (v4 mp)
    from Cons.IH [OF v4(3)] show ?thesis by (cases isSrc) (simp_all add: key_maps_def)
  next
    case (v6 mp)
    from Cons.IH [OF v6(2)] show ?thesis by (cases isSrc) (simp_all add: key_maps_def)
  qed
qed simp

definition ip4_map :: "bool \<Rightarrow> BitmapManager \<Rightarrow> Ip4RuleBitmap list" where
  "ip4_map isSrc mg = (if isSrc then srcIp4Map mg else dstIp4Map mg)"

lemma InsertIpBitmap_marks:
  assumes "InsertIpBitmap items isSrc b mg = (NETFIREWALL_SUCCESS, mg')"
    and "marks4 (ip4_map isSrc mg) F" "list_all item_norm items"
  shows "marks4 (ip4_map isSrc mg') (\<lambda>x. F x \<union> (if \<exists>item\<in>set items. item_in4 item x then bits b else {}))"
  using assms
proof (induction items arbitrary: mg F)
  case Nil
  then show ?case by simp
next
  case (Cons item items)
  have norm: "item_norm item" "list_all item_norm items" using Cons.prems(3) by simp_all
  from Cons.prems(1) show ?case
  proof (cases rule: InsertIpBitmap_ConsE)
    case (v4 mp)
    from InsertIp4SegBitmap_marks [OF Cons.prems(2) norm(1) v4(1), of b mp] v4(2)
    have "marks4 (ip4_map isSrc (if isSrc then mg\<lparr> srcIp4Map := mp \<rparr> else mg\<lparr> dstIp4Map := mp \<rparr>))
        (\<lambda>x. F x \<union> (if item_in4 item x then bits b else {}))" by (simp add: ip4_map_def)
    note m = Cons.IH [OF v4(3) this norm(2)]
    show ?thesis by (rule marks4_cong [OF m]) auto
  next
    case (v6 mp)
    have "marks4 (ip4_map isSrc (if isSrc then mg\<lparr> srcIp6Map := mp \<rparr> else mg\<lparr> dstIp6Map := mp \<rparr>)) F"
      using Cons.prems(2) by (cases isSrc) (simp_all add: ip4_map_def)
    note m = Cons.IH [OF v6(2) this norm(2)]
    show ?thesis by (rule marks4_cong [OF m]) (use v6(1) in \<open>auto simp: item_in4_def\<close>)
  qed
qed

subsection \<open>Port segments and hash maps after marking\<close>

lemma AddPortBitmap_segs:
  assumes "wf_segs segs"
  shows "wf_segs (AddPortBitmap ports b segs) \<and>
    (\<forall>p. seg_bits (AddPortBitmap ports b segs) p = seg_bits segs p \<union> (if \<exists>t\<in>set ports. port_item_in t p then bits b else {})) \<and>
    seg_cov (AddPortBitmap ports b segs) = seg_cov segs \<union> {p. \<exists>t\<in>set ports. port_item_in t p}"
  using assms
proof (induction ports arbitrary: segs)
  case (Cons t ports)
  define segs1 where "segs1 = (if startPort t = 0 then segs else if startPort t \<le> endPort t
    then AddMap (startPort t) (endPort t) b segs else segs)"
  have step: "AddPortBitmap (t # ports) b segs = AddPortBitmap ports b segs1"
    by (simp add: AddPortBitmap_def segs1_def)
  have 1: "wf_segs segs1" "seg_bits segs1 p = seg_bits segs p \<union> (if port_item_in t p then bits b else {})"
    "seg_cov segs1 = seg_cov segs \<union> {p. port_item_in t p}" for p
    using Cons.prems AddMap_total [OF Cons.prems, of "startPort t" "endPort t" b]
    by (auto simp: segs1_def port_item_in_def)
  from Cons.IH [OF 1(1)] show ?case unfolding step 1 by auto
qed (simp add: AddPortBitmap_def)

definition hash_bits :: "'k bpf_map \<Rightarrow> 'k \<Rightarrow> nat set" where
  "hash_bits mp k = (case mp k of None \<Rightarrow> {} | Some b \<Rightarrow> bits b)"

lemma hash_bits_empty [simp]: "hash_bits Map.empty k = {}"
  by (simp add: hash_bits_def)

lemma hash_bits_OrInsert [simp]: "hash_bits (OrInsert key b mp) k = hash_bits mp k \<union> (if k = key then bits b else {})"
  by (auto simp: hash_bits_def OrInsert_def split: option.splits)

lemma MarkKeys_frame:
  "srcIp4Map (MarkKeys r b mg) = srcIp4Map mg" "dstIp4Map (MarkKeys r b mg) = dstIp4Map mg"
  "srcPortMap (MarkKeys r b mg) = srcPortMap mg" "dstPortMap (MarkKeys r b mg) = dstPortMap mg"
  by (simp_all add: MarkKeys_def Let_def)

lemma MarkKeys_hash:
  "hash_bits (protoMap (MarkKeys r b mg)) k =
    hash_bits (protoMap mg) k \<union> (if protocol r \<noteq> 0 \<and> k = of_nat (protocol r) then bits b else {})"
  "hash_bits (appUidMap (MarkKeys r b mg)) u =
    hash_bits (appUidMap mg) u \<union> (if appUid r > 0 \<and> u = of_int (appUid r) then bits b else {})"
  "hash_bits (uidMap (MarkKeys r b mg)) u =
    hash_bits (uidMap mg) u \<union> (if userId r > 0 \<and> u = of_int (userId r) then bits b else {})"
  "hash_bits (actionMap (MarkKeys r b mg)) a =
    hash_bits (actionMap mg) a \<union> (if ruleAction r \<noteq> RULE_ALLOW \<and> a = 1 then bits b else {})"
  "hash_bits (interfaceMap (MarkKeys r b mg)) i =
    hash_bits (interfaceMap mg) i \<union> (if rule_interface r \<noteq> [] \<and> i = rule_interface r then bits b else {})"
  by (simp_all add: MarkKeys_def Let_def)

subsection \<open>The marking loop\<close>

text \<open>The rules of a map as functions of the attribute value, in one record.\<close>

record views =
  v_src :: "u32 \<Rightarrow> nat set"
  v_dst :: "u32 \<Rightarrow> nat set"
  v_sport :: "u16 \<Rightarrow> nat set"
  v_dport :: "u16 \<Rightarrow> nat set"
  v_proto :: "u8 \<Rightarrow> nat set"
  v_app :: "u32 \<Rightarrow> nat set"
  v_uid :: "u32 \<Rightarrow> nat set"
  v_act :: "u8 \<Rightarrow> nat set"
  v_iface :: "string \<Rightarrow> nat set"

definition rule_views :: "NetFirewallIpRule list \<Rightarrow> nat \<Rightarrow> views" where
  "rule_views rs index = \<lparr>
     v_src = (\<lambda>x. idxs (\<lambda>r. \<exists>t\<in>set (remoteIps r). item_in4 t x) index rs),
     v_dst = (\<lambda>x. idxs (\<lambda>r. \<exists>t\<in>set (localIps r). item_in4 t x) index rs),
     v_sport = (\<lambda>p. idxs (\<lambda>r. \<not> IsNotNeedPort (protocol r) \<and> (\<exists>t\<in>set (remotePorts r). port_item_in t p)) index rs),
     v_dport = (\<lambda>p. idxs (\<lambda>r. \<not> IsNotNeedPort (protocol r) \<and> (\<exists>t\<in>set (localPorts r). port_item_in t p)) index rs),
     v_proto = (\<lambda>k. idxs (\<lambda>r. protocol r \<noteq> 0 \<and> k = of_nat (protocol r)) index rs),
     v_app = (\<lambda>u. idxs (\<lambda>r. appUid r > 0 \<and> u = of_int (appUid r)) index rs),
     v_uid = (\<lambda>u. idxs (\<lambda>r. userId r > 0 \<and> u = of_int (userId r)) index rs),
     v_act = (\<lambda>a. idxs (\<lambda>r. ruleAction r \<noteq> RULE_ALLOW \<and> a = 1) index rs),
     v_iface = (\<lambda>i. idxs (\<lambda>r. rule_interface r \<noteq> [] \<and> i = rule_interface r) index rs) \<rparr>"

definition marked :: "mark_state \<Rightarrow> views \<Rightarrow> bool" where
  "marked st V \<longleftrightarrow> marks4 (srcIp4Map (mk_mgr st)) (v_src V) \<and> marks4 (dstIp4Map (mk_mgr st)) (v_dst V) \<and>
     wf_segs (mk_src st) \<and> wf_segs (mk_dst st) \<and> seg_bits (mk_src st) = v_sport V \<and> seg_bits (mk_dst st) = v_dport V \<and>
     seg_cov (mk_src st) = {p. v_sport V p \<noteq> {}} \<and> seg_cov (mk_dst st) = {p. v_dport V p \<noteq> {}} \<and>
     hash_bits (protoMap (mk_mgr st)) = v_proto V \<and> hash_bits (appUidMap (mk_mgr st)) = v_app V \<and>
     hash_bits (uidMap (mk_mgr st)) = v_uid V \<and> hash_bits (actionMap (mk_mgr st)) = v_act V \<and>
     hash_bits (interfaceMap (mk_mgr st)) = v_iface V \<and>
     srcPortMap (mk_mgr st) = [] \<and> dstPortMap (mk_mgr st) = []"

definition views_union :: "views \<Rightarrow> views \<Rightarrow> views" where
  "views_union V W = \<lparr> v_src = (\<lambda>x. v_src V x \<union> v_src W x), v_dst = (\<lambda>x. v_dst V x \<union> v_dst W x),
     v_sport = (\<lambda>x. v_sport V x \<union> v_sport W x), v_dport = (\<lambda>x. v_dport V x \<union> v_dport W x),
     v_proto = (\<lambda>x. v_proto V x \<union> v_proto W x), v_app = (\<lambda>x. v_app V x \<union> v_app W x),
     v_uid = (\<lambda>x. v_uid V x \<union> v_uid W x), v_act = (\<lambda>x. v_act V x \<union> v_act W x),
     v_iface = (\<lambda>x. v_iface V x \<union> v_iface W x) \<rparr>"

definition rule_norm :: "NetFirewallIpRule \<Rightarrow> bool" where
  "rule_norm r \<longleftrightarrow> list_all item_norm (remoteIps r) \<and> list_all item_norm (localIps r)"

lemma MarkRule_marked:
  assumes run: "MarkRule r index st = (NETFIREWALL_SUCCESS, st')" and st: "marked st V"
    and r: "rule_norm r" and index: "index < BITMAP_BIT_COUNT"
  shows "marked st' (views_union V (rule_views [r] index))"
proof -
  obtain ret1 mg1 where 1: "InsertIpBitmap (remoteIps r) True (Bitmap_of index) (mk_mgr st) = (ret1, mg1)"
    by fastforce
  with run have ret1: "ret1 = NETFIREWALL_SUCCESS" by (simp add: MarkRule_def Let_def split: if_splits)
  obtain ret2 mg2 where 2: "InsertIpBitmap (localIps r) False (Bitmap_of index) mg1 = (ret2, mg2)"
    by fastforce
  with run 1 ret1 have ret2: "ret2 = NETFIREWALL_SUCCESS" by (simp add: MarkRule_def Let_def split: if_splits)
  have st': "st' = (MarkPorts r (Bitmap_of index) st)\<lparr> mk_mgr := MarkKeys r (Bitmap_of index) mg2 \<rparr>"
    using run by (simp add: MarkRule_def Let_def 1 2 ret1 ret2)
  note frame1 = InsertIpBitmap_frame [OF 1 [unfolded ret1]] and frame2 = InsertIpBitmap_frame [OF 2 [unfolded ret2]]
  have b: "bits (Bitmap_of index) = {index}" using index by simp
  have src: "marks4 (srcIp4Map mg2) (\<lambda>x. v_src V x \<union> (if \<exists>t\<in>set (remoteIps r). item_in4 t x then {index} else {}))"
    using InsertIpBitmap_marks [OF 1 [unfolded ret1], of "v_src V", unfolded b] st r frame2
    by (simp add: ip4_map_def marked_def rule_norm_def)
  have dst: "marks4 (dstIp4Map mg2) (\<lambda>x. v_dst V x \<union> (if \<exists>t\<in>set (localIps r). item_in4 t x then {index} else {}))"
    using InsertIpBitmap_marks [OF 2 [unfolded ret2], of "v_dst V", unfolded b] st r frame1
    by (simp add: ip4_map_def marked_def rule_norm_def)
  have segs: "wf_segs (mk_src st)" "wf_segs (mk_dst st)" using st by (simp_all add: marked_def)
  note AddPortBitmap_segs [OF segs(1), of "remotePorts r" "Bitmap_of index"]
    AddPortBitmap_segs [OF segs(2), of "localPorts r" "Bitmap_of index"]
  note ports = this [unfolded b]
  have keys: "key_maps mg2 = key_maps (mk_mgr st)" using frame1 frame2 by simp
  have mg: "mk_mgr st' = MarkKeys r (Bitmap_of index) mg2"
    and seg: "mk_src st' = mk_src (MarkPorts r (Bitmap_of index) st)"
      "mk_dst st' = mk_dst (MarkPorts r (Bitmap_of index) st)" by (simp_all add: st')
  note vs = views_union_def rule_views_def idxs.simps views.simps Un_empty_right
  note hash = MarkKeys_hash [where b = "Bitmap_of index", unfolded b]
  have old: "srcPortMap mg2 = []" "dstPortMap mg2 = []" "hash_bits (protoMap mg2) = v_proto V"
    "hash_bits (appUidMap mg2) = v_app V" "hash_bits (uidMap mg2) = v_uid V"
    "hash_bits (actionMap mg2) = v_act V" "hash_bits (interfaceMap mg2) = v_iface V"
    using keys st by (simp_all add: marked_def key_maps_def)
  have osegs: "seg_bits (mk_src st) = v_sport V" "seg_bits (mk_dst st) = v_dport V"
    "seg_cov (mk_src st) = {p. v_sport V p \<noteq> {}}" "seg_cov (mk_dst st) = {p. v_dport V p \<noteq> {}}"
    using st by (simp_all add: marked_def)
  have nsegs: "wf_segs (mk_src st')" "wf_segs (mk_dst st')"
    "seg_bits (mk_src st') = v_sport (views_union V (rule_views [r] index))"
    "seg_bits (mk_dst st') = v_dport (views_union V (rule_views [r] index))"
    using ports segs osegs unfolding seg vs
    by (cases "IsNotNeedPort (protocol r)", simp_all add: MarkPorts_def fun_eq_iff)
  have ncov: "seg_cov (mk_src st') = {p. v_sport (views_union V (rule_views [r] index)) p \<noteq> {}}"
    "seg_cov (mk_dst st') = {p. v_dport (views_union V (rule_views [r] index)) p \<noteq> {}}"
    using ports osegs unfolding seg vs
    by (cases "IsNotNeedPort (protocol r)"; simp add: MarkPorts_def; auto)+
  have nhash: "hash_bits (protoMap (mk_mgr st')) = v_proto (views_union V (rule_views [r] index))"
    "hash_bits (appUidMap (mk_mgr st')) = v_app (views_union V (rule_views [r] index))"
    "hash_bits (uidMap (mk_mgr st')) = v_uid (views_union V (rule_views [r] index))"
    "hash_bits (actionMap (mk_mgr st')) = v_act (views_union V (rule_views [r] index))"
    "hash_bits (interfaceMap (mk_mgr st')) = v_iface (views_union V (rule_views [r] index))"
    unfolding mg vs by (rule ext, simp only: hash old)+
  show ?thesis
    unfolding marked_def using src dst nsegs nhash ncov
    by (simp add: mg MarkKeys_frame old) (simp only: vs simp_thms)
qed

lemma views_union_Nil: "views_union V (rule_views [] index) = V"
  by (simp add: views_union_def rule_views_def)

lemma views_union_Cons: "views_union (views_union V (rule_views [r] index)) (rule_views rs (index + 1)) =
    views_union V (rule_views (r # rs) index)"
  unfolding views_union_def rule_views_def views.simps idxs.simps Un_empty_right by (simp only: Un_assoc)

lemma BuildMarkBitmap_loop_marked:
  assumes "BuildMarkBitmap_loop (map Some rs) index st = (NETFIREWALL_SUCCESS, st')" "marked st V"
    and "list_all rule_norm rs" "index + length rs \<le> BITMAP_BIT_COUNT"
  shows "marked st' (views_union V (rule_views rs index))"
  using assms
proof (induction rs arbitrary: index st V)
  case Nil
  then show ?case by (simp add: views_union_Nil)
next
  case (Cons r rs)
  obtain ret st1 where 1: "MarkRule r index st = (ret, st1)" by fastforce
  with Cons.prems have ret: "ret = NETFIREWALL_SUCCESS" by (simp split: if_splits)
  have "marked st1 (views_union V (rule_views [r] index))"
    using Cons.prems by (intro MarkRule_marked [OF 1 [unfolded ret]]) simp_all
  from Cons.IH [OF _ this, of "index + 1"] Cons.prems 1 ret show ?case
    unfolding views_union_Cons by simp
qed

subsection \<open>Port prefixes of the segments\<close>

definition keyp :: "portRuleBitmap \<Rightarrow> portRule" where
  "keyp it = \<lparr> pr_prefixlen = rp_prefixlen it, pr_data = ntohs (rp_data it) \<rparr>"

definition covp :: "portRuleBitmap list \<Rightarrow> u16 set" where
  "covp vec = {p. \<exists>it\<in>set vec. port_in (keyp it) p}"

text \<open>Every entry lies inside one segment and carries its rules.\<close>

definition from_segs :: "SegmentBitmap list \<Rightarrow> portRuleBitmap list \<Rightarrow> bool" where
  "from_segs segs vec \<longleftrightarrow> (\<forall>it\<in>set vec. \<exists>s\<in>set segs.
     (\<forall>p. port_in (keyp it) p \<longrightarrow> in_seg p s) \<and> bits (rp_bitmap it) = bits (seg_bitmap s))"

lemma port_in_data: "port_in d (pr_data d)"
  by (simp add: port_in_def)

lemma Port_OrInsert_mem: "it \<in> set (Port_OrInsert d m b vec) \<Longrightarrow> it \<in> set vec \<or>
    it = \<lparr> rp_prefixlen = m, rp_data = d, rp_bitmap = b \<rparr> \<or>
    (\<exists>old\<in>set vec. rp_data old = d \<and> rp_prefixlen old = m \<and> it = old\<lparr> rp_bitmap := Or (rp_bitmap old) b \<rparr>)"
  by (induction vec) (auto split: if_splits)

lemma Port_OrInsert_keys: "keyp ` set (Port_OrInsert d m b vec) =
    insert \<lparr> pr_prefixlen = m, pr_data = ntohs d \<rparr> (keyp ` set vec)"
  by (induction vec) (auto simp: keyp_def)

lemma covp_keys: "covp vec = {p. \<exists>k\<in>keyp ` set vec. port_in k p}"
  by (auto simp: covp_def)

lemma Port_OrInsert_cov: "covp (Port_OrInsert (htons d) m b vec) =
    covp vec \<union> {p. port_in \<lparr> pr_prefixlen = m, pr_data = d \<rparr> p}"
  unfolding covp_keys Port_OrInsert_keys by auto

lemma Port_OrInsert_from_segs:
  assumes "from_segs segs vec" "wf_segs segs" "s \<in> set segs"
    and inside: "\<forall>p. port_in \<lparr> pr_prefixlen = m, pr_data = d \<rparr> p \<longrightarrow> in_seg p s"
  shows "from_segs segs (Port_OrInsert (htons d) m (seg_bitmap s) vec)"
  unfolding from_segs_def
proof
  fix it assume "it \<in> set (Port_OrInsert (htons d) m (seg_bitmap s) vec)"
  then consider "it \<in> set vec" | "it = \<lparr> rp_prefixlen = m, rp_data = htons d, rp_bitmap = seg_bitmap s \<rparr>"
    | old where "old \<in> set vec" "rp_data old = htons d" "rp_prefixlen old = m"
      "it = old\<lparr> rp_bitmap := Or (rp_bitmap old) (seg_bitmap s) \<rparr>"
    using Port_OrInsert_mem by blast
  then show "\<exists>s\<in>set segs. (\<forall>p. port_in (keyp it) p \<longrightarrow> in_seg p s) \<and> bits (rp_bitmap it) = bits (seg_bitmap s)"
  proof cases
    case 1
    then show ?thesis using assms(1) by (auto simp: from_segs_def)
  next
    case 2
    then show ?thesis using assms(3) inside by (auto simp: keyp_def)
  next
    case (3 old)
    have key: "keyp it = \<lparr> pr_prefixlen = m, pr_data = d \<rparr>" "keyp old = \<lparr> pr_prefixlen = m, pr_data = d \<rparr>"
      using 3 by (simp_all add: keyp_def)
    from assms(1) 3(1) obtain s' where s': "s' \<in> set segs" "\<forall>p. port_in (keyp old) p \<longrightarrow> in_seg p s'"
      "bits (rp_bitmap old) = bits (seg_bitmap s')" unfolding from_segs_def by blast
    have "in_seg d s" "in_seg d s'"
      using inside s'(2) key(2) port_in_data [of "\<lparr> pr_prefixlen = m, pr_data = d \<rparr>"] by simp_all
    then have "s = s'" using wf_segs_unique [OF assms(2,3) s'(1)] by simp
    with 3 s' assms(3) inside key show ?thesis by auto
  qed
qed

lemma OrInsertPortBitmap_ok:
  assumes "wf_segs segs"
  shows "from_segs segs (OrInsertPortBitmap segs []) \<and> covp (OrInsertPortBitmap segs []) = seg_cov segs"
proof -
  let ?rules = "\<lambda>s. GetPortRangeAndMask_loop (unat (seg_start s)) (unat (seg_end s)) []"
  let ?ins = "\<lambda>s pm r. if pr_prefixlen r > PORT_MAX_MASK then pm
    else Port_OrInsert (htons (pr_data r)) (pr_prefixlen r) (seg_bitmap s) pm"
  have inner: "from_segs segs (foldl (?ins s) vec rs) \<and>
      covp (foldl (?ins s) vec rs) = covp vec \<union> {p. \<exists>r\<in>set rs. port_in r p}"
    if "from_segs segs vec" "s \<in> set segs" "list_all port_norm rs" "\<forall>r\<in>set rs. \<forall>p. port_in r p \<longrightarrow> in_seg p s" for vec s rs
    using that
  proof (induction rs arbitrary: vec)
    case (Cons r rs)
    have r: "\<lparr> pr_prefixlen = pr_prefixlen r, pr_data = pr_data r \<rparr> = r" by simp
    have "pr_prefixlen r \<le> PORT_MAX_MASK" using Cons.prems(3) by (simp add: port_norm_def PORT_MAX_MASK_def)
    then have step: "foldl (?ins s) vec (r # rs) =
        foldl (?ins s) (Port_OrInsert (htons (pr_data r)) (pr_prefixlen r) (seg_bitmap s) vec) rs" by simp
    have "from_segs segs (Port_OrInsert (htons (pr_data r)) (pr_prefixlen r) (seg_bitmap s) vec)"
      using Cons.prems assms by (intro Port_OrInsert_from_segs) (simp_all add: r)
    from Cons.IH [OF this] Cons.prems show ?case
      unfolding step Port_OrInsert_cov by (auto simp: r)
  qed simp
  have "from_segs segs (OrInsertPortBitmap ss vec) \<and> covp (OrInsertPortBitmap ss vec) = covp vec \<union> seg_cov ss"
    if "set ss \<subseteq> set segs" "from_segs segs vec" for ss vec
    using that
  proof (induction ss arbitrary: vec)
    case (Cons s ss)
    have s: "s \<in> set segs" "seg_start s \<le> seg_end s" using Cons.prems wf_segs_valid [OF assms] by auto
    have cover: "list_all port_norm (?rules s)" "{p. \<exists>r\<in>set (?rules s). port_in r p} = {seg_start s..seg_end s}"
      using GetPortRangeAndMask_loop_exact [of "seg_start s" "seg_end s"] by (simp_all add: exact_cover_def)
    then have ins: "\<forall>r\<in>set (?rules s). \<forall>p. port_in r p \<longrightarrow> in_seg p s"
      by (auto simp: in_seg_def set_eq_iff)
    have step: "OrInsertPortBitmap (s # ss) vec = OrInsertPortBitmap ss (foldl (?ins s) vec (?rules s))"
      using leD [OF s(2)] by (simp add: OrInsertPortBitmap_def GetPortRangeAndMask_def)
    from inner [OF Cons.prems(2) s(1) cover(1) ins] Cons.IH [of "foldl (?ins s) vec (?rules s)"] Cons.prems(1)
    show ?case unfolding step cover(2) by (auto simp: in_seg_def)
  qed (simp add: OrInsertPortBitmap_def)
  from this [of segs "[]"] show ?thesis by (simp add: from_segs_def covp_def)
qed

subsection \<open>Maps that answer lookups\<close>

text \<open>An attribute map answers for the rules \<^verbatim>\<open>F\<close> that name a value and the rules \<^verbatim>\<open>N\<close> that leave the
  attribute open: an entry found for a value carries the rules of both kinds, a value without an entry is
  named by no rule, and the fallback value \<^verbatim>\<open>other\<close> always has an entry.\<close>

definition serves :: "('a \<Rightarrow> bitmap option) \<Rightarrow> 'a \<Rightarrow> ('a \<Rightarrow> nat set) \<Rightarrow> nat set \<Rightarrow> bool" where
  "serves look other F N \<longleftrightarrow>
     (\<forall>x. case look x of None \<Rightarrow> F x = {} | Some b \<Rightarrow> bits b = F x \<union> N) \<and> look other \<noteq> None"

lemma serves_iff: "serves look other F N \<longleftrightarrow> (\<forall>x. look x = None \<longrightarrow> F x = {}) \<and>
    (\<forall>x b. look x = Some b \<longrightarrow> bits b = F x \<union> N) \<and> look other \<noteq> None"
  unfolding serves_def by (simp split: option.splits) metis

definition serves4 :: "Ip4RuleBitmap list \<Rightarrow> (u32 \<Rightarrow> nat set) \<Rightarrow> nat set \<Rightarrow> bool" where
  "serves4 vec F N \<longleftrightarrow> (\<exists>ins tbl. table_ok d4_mask ip4_in ins tbl \<and> table4 vec = with_rules N tbl \<and>
     (\<forall>x. rules_at ip4_in ins x = F x) \<and> (\<exists>k b. (k, b) \<in> set ins \<and> ip4_in k OTHER_IP4_KEY))"

definition serves_port :: "portRuleBitmap list \<Rightarrow> (u16 \<Rightarrow> nat set) \<Rightarrow> nat set \<Rightarrow> bool" where
  "serves_port vec F N \<longleftrightarrow> (\<forall>it\<in>set vec. \<forall>p. port_in (keyp it) p \<longrightarrow> bits (rp_bitmap it) = F p \<union> N) \<and>
     (\<forall>p. F p \<noteq> {} \<longrightarrow> p \<in> covp vec) \<and> OTHER_PORT_KEY \<in> covp vec"

definition kernp :: "portRuleBitmap list \<Rightarrow> (portRule \<times> bitmap) list" where
  "kernp vec = map (\<lambda>it. (keyp it, rp_bitmap it)) vec"

lemma serves4_lookup:
  assumes "lpm_spec d4_mask ip4_in lk" "serves4 vec F N"
  shows "serves (lk (kern4 vec)) OTHER_IP4_KEY F N"
proof -
  from assms(2) obtain ins tbl k b where t: "table_ok d4_mask ip4_in ins tbl" "table4 vec = with_rules N tbl"
    "\<forall>x. rules_at ip4_in ins x = F x" and other: "(k, b) \<in> set ins" "ip4_in k OTHER_IP4_KEY"
    unfolding serves4_def by blast
  note look = kern4_lookup [OF assms(1) t(1,2)]
  have "F x = {}" if "lk (kern4 vec) x = None" for x
  proof -
    have "rules_at ip4_in ins x = {}" using look(1) [OF that] by (auto simp: rules_at_def)
    then show ?thesis using t(3) by simp
  qed
  moreover have "bits bm = F x \<union> N" if "lk (kern4 vec) x = Some bm" for x bm
    using look(2) [OF that] t(3) by simp
  moreover have "lk (kern4 vec) OTHER_IP4_KEY \<noteq> None" using look(1) [OF _ other(1)] other(2) by auto
  ultimately show ?thesis unfolding serves_def by (auto split: option.splits)
qed

lemma serves_port_lookup:
  assumes lk: "lpm_spec pr_prefixlen port_in lk" and vec: "serves_port vec F N"
  shows "serves (lk (kernp vec)) OTHER_PORT_KEY F N"
proof -
  have none: "p \<notin> covp vec" if "lk (kernp vec) p = None" for p
    using lpm_spec_None [OF lk that] by (auto simp: covp_def kernp_def)
  have "bits bm = F p \<union> N" if "lk (kernp vec) p = Some bm" for p bm
    using lpm_spec_Some [OF lk that] vec unfolding serves_port_def kernp_def by fastforce
  with none vec show ?thesis
    unfolding serves_def serves_port_def by (auto split: option.splits)
qed

subsection \<open>Entering the fallback keys\<close>

lemma marks4_serves:
  assumes "marks4 vec F"
  shows "serves4 (Ip4_OrInsert OTHER_IP4_KEY IPV4_MAX_PREFIXLEN Clear vec) F {}"
proof -
  let ?K = "\<lparr> d4_mask = IPV4_MAX_PREFIXLEN, d4_data = OTHER_IP4_KEY \<rparr>"
  from assms obtain ins where ins: "norm4 vec" "table_ok d4_mask ip4_in ins (table4 vec)"
    "\<forall>x. rules_at ip4_in ins x = F x" unfolding marks4_def by blast
  have K: "ip4_norm ?K" "ip4_in ?K OTHER_IP4_KEY" by (simp_all add: ip4_norm_def IPV4_MAX_PREFIXLEN_def ip4_in_def)
  from Ip4_OrInsert_ok [OF ins(1) refl K(1) ins(2), of Clear] ins(3) K(2) show ?thesis
    unfolding serves4_def
    by (intro exI [of _ "ins @ [(?K, {})]"] exI [of _ "table4 (Ip4_OrInsert OTHER_IP4_KEY IPV4_MAX_PREFIXLEN Clear vec)"])
      auto
qed

lemma from_segs_serves:
  assumes "from_segs segs vec" "wf_segs segs" "covp vec = seg_cov segs"
    and cov: "seg_cov segs = {p. seg_bits segs p \<noteq> {}}" and other: "seg_bits segs OTHER_PORT_KEY = {}"
  shows "serves_port (Port_OrInsert OTHER_PORT_KEY PORT_MAX_MASK Clear vec) (seg_bits segs) {}"
proof -
  let ?K = "\<lparr> pr_prefixlen = PORT_MAX_MASK, pr_data = OTHER_PORT_KEY \<rparr>"
  have ends: "htons OTHER_PORT_KEY = OTHER_PORT_KEY" by (simp add: OTHER_PORT_KEY_def bswap16_def)
  have K: "port_in ?K p \<longleftrightarrow> p = OTHER_PORT_KEY" for p
    by (auto simp: port_in_def PORT_MAX_MASK_def)
  have old: "bits (rp_bitmap it) = seg_bits segs p" if it: "it \<in> set vec" and p: "port_in (keyp it) p" for it p
  proof -
    from assms(1) it obtain s where s: "s \<in> set segs" "\<forall>p. port_in (keyp it) p \<longrightarrow> in_seg p s"
      "bits (rp_bitmap it) = bits (seg_bitmap s)" unfolding from_segs_def by blast
    then have "{s' \<in> set segs. in_seg p s'} = {s}" using p wf_segs_unique [OF assms(2) _ s(1)] by auto
    with s(3) show ?thesis by (simp add: seg_bits_def)
  qed
  have "bits (rp_bitmap it) = seg_bits segs p"
    if it: "it \<in> set (Port_OrInsert OTHER_PORT_KEY PORT_MAX_MASK Clear vec)" and p: "port_in (keyp it) p" for it p
    using Port_OrInsert_mem [OF it]
  proof (elim disjE bexE conjE)
    assume "it = \<lparr> rp_prefixlen = PORT_MAX_MASK, rp_data = OTHER_PORT_KEY, rp_bitmap = Clear \<rparr>"
    then show ?thesis using p other K ends by (simp add: keyp_def)
  next
    fix prev assume prev: "prev \<in> set vec" "it = prev\<lparr> rp_bitmap := Or (rp_bitmap prev) Clear \<rparr>"
    then show ?thesis using old [OF prev(1), of p] p by (simp add: keyp_def)
  qed (rule old [OF _ p])
  moreover have "covp (Port_OrInsert OTHER_PORT_KEY PORT_MAX_MASK Clear vec) = seg_cov segs \<union> {OTHER_PORT_KEY}"
    using Port_OrInsert_cov [of OTHER_PORT_KEY PORT_MAX_MASK Clear vec] assms(3) ends K by simp
  ultimately show ?thesis using cov by (auto simp: serves_port_def)
qed

definition serves_hash :: "'k \<Rightarrow> 'k bpf_map \<Rightarrow> ('k \<Rightarrow> nat set) \<Rightarrow> nat set \<Rightarrow> bool" where
  "serves_hash other mp F N \<longleftrightarrow> serves mp other F N"

lemma hash_serves: "serves_hash other (OrInsert other Clear mp) (hash_bits mp) {}"
  by (auto simp: serves_hash_def serves_def OrInsert_def hash_bits_def split: option.splits)

subsection \<open>Rules that leave an attribute open\<close>

text \<open>The effect of \<^verbatim>\<open>BuildNoMarkBitmap\<close> on one map: the rules with property \<^verbatim>\<open>P\<close> are added to every entry.\<close>

fun open_fold :: "('r \<Rightarrow> bool) \<Rightarrow> (bitmap \<Rightarrow> 'm \<Rightarrow> 'm) \<Rightarrow> nat \<Rightarrow> 'r list \<Rightarrow> 'm \<Rightarrow> 'm" where
  "open_fold P f index [] m = m"
| "open_fold P f index (r # rs) m = open_fold P f (index + 1) rs (if P r then f (Bitmap_of index) m else m)"

locale open_map =
  fixes for_each :: "bitmap \<Rightarrow> 'm \<Rightarrow> 'm"
    and answers :: "'m \<Rightarrow> nat set \<Rightarrow> bool"
  assumes answers_for_each: "answers m N \<Longrightarrow> answers (for_each b m) (N \<union> bits b)"
begin

lemma answers_open_fold:
  "answers m N \<Longrightarrow> index + length rs \<le> BITMAP_BIT_COUNT \<Longrightarrow>
    answers (open_fold P for_each index rs m) (N \<union> idxs P index rs)"
proof (induction rs arbitrary: index m N)
  case (Cons r rs)
  have "answers (if P r then for_each (Bitmap_of index) m else m) (N \<union> (if P r then {index} else {}))"
    using Cons.prems answers_for_each [of m N "Bitmap_of index"] by simp
  from Cons.IH [OF this] Cons.prems(2) show ?case by (simp add: Un_assoc)
qed simp

end

interpretation open4: open_map Ip4_OrForEach "\<lambda>vec. serves4 vec F" for F
proof
  fix vec N b assume "serves4 vec F N"
  then show "serves4 (Ip4_OrForEach b vec) F (N \<union> bits b)"
    unfolding serves4_def using table4_OrForEach [of vec N _ b] by blast
qed

interpretation openp: open_map Port_OrForEach "\<lambda>vec. serves_port vec F" for F
  by standard (auto simp: serves_port_def Port_OrForEach_def covp_def keyp_def)

interpretation openh: open_map OrForEach "\<lambda>mp. serves_hash other mp F" for other F
  by standard (auto simp: serves_hash_def serves_iff OrForEach_def)

lemma BuildNoMarkBitmap_folds:
  assumes "BuildNoMarkBitmap (map Some rs) index mg = Some mg'"
  shows "srcIp4Map mg' = open_fold (\<lambda>r. remoteIps r = []) Ip4_OrForEach index rs (srcIp4Map mg)"
    and "dstIp4Map mg' = open_fold (\<lambda>r. localIps r = []) Ip4_OrForEach index rs (dstIp4Map mg)"
    and "srcPortMap mg' = open_fold (\<lambda>r. remotePorts r = [] \<or> IsNotNeedPort (protocol r)) Port_OrForEach index rs (srcPortMap mg)"
    and "dstPortMap mg' = open_fold (\<lambda>r. localPorts r = [] \<or> IsNotNeedPort (protocol r)) Port_OrForEach index rs (dstPortMap mg)"
    and "protoMap mg' = open_fold (\<lambda>r. protocol r = 0) OrForEach index rs (protoMap mg)"
    and "appUidMap mg' = open_fold (\<lambda>r. appUid r < 1) OrForEach index rs (appUidMap mg)"
    and "uidMap mg' = open_fold (\<lambda>r. userId r < 1) OrForEach index rs (uidMap mg)"
    and "interfaceMap mg' = open_fold (\<lambda>r. rule_interface r = []) OrForEach index rs (interfaceMap mg)"
    and "actionMap mg' = actionMap mg"
  using assms by (induction rs arbitrary: index mg) (simp_all add: NoMarkRule_def)

lemma BuildNoMarkBitmap_total: "\<exists>mg'. BuildNoMarkBitmap (map Some rs) index mg = Some mg'"
  by (induction rs arbitrary: index mg) simp_all

subsection \<open>The maps of a whole rule list\<close>

text \<open>The rules that leave an attribute open, by attribute.\<close>

record open_rules =
  o_src :: "nat set"
  o_dst :: "nat set"
  o_sport :: "nat set"
  o_dport :: "nat set"
  o_proto :: "nat set"
  o_app :: "nat set"
  o_uid :: "nat set"
  o_iface :: "nat set"

definition rules_open :: "NetFirewallIpRule list \<Rightarrow> open_rules" where
  "rules_open rs = \<lparr>
     o_src = idxs (\<lambda>r. remoteIps r = []) 0 rs,
     o_dst = idxs (\<lambda>r. localIps r = []) 0 rs,
     o_sport = idxs (\<lambda>r. remotePorts r = [] \<or> IsNotNeedPort (protocol r)) 0 rs,
     o_dport = idxs (\<lambda>r. localPorts r = [] \<or> IsNotNeedPort (protocol r)) 0 rs,
     o_proto = idxs (\<lambda>r. protocol r = 0) 0 rs,
     o_app = idxs (\<lambda>r. appUid r < 1) 0 rs,
     o_uid = idxs (\<lambda>r. userId r < 1) 0 rs,
     o_iface = idxs (\<lambda>r. rule_interface r = []) 0 rs \<rparr>"

definition built :: "BitmapManager \<Rightarrow> views \<Rightarrow> open_rules \<Rightarrow> bool" where
  "built mg V N \<longleftrightarrow> serves4 (srcIp4Map mg) (v_src V) (o_src N) \<and> serves4 (dstIp4Map mg) (v_dst V) (o_dst N) \<and>
     serves_port (srcPortMap mg) (v_sport V) (o_sport N) \<and> serves_port (dstPortMap mg) (v_dport V) (o_dport N) \<and>
     serves_hash OTHER_PROTO_KEY (protoMap mg) (v_proto V) (o_proto N) \<and>
     serves_hash OTHER_APPUID_KEY (appUidMap mg) (v_app V) (o_app N) \<and>
     serves_hash OTHER_UID_KEY (uidMap mg) (v_uid V) (o_uid N) \<and>
     serves_hash [] (interfaceMap mg) (v_iface V) (o_iface N) \<and>
     serves_hash 1 (actionMap mg) (v_act V) {}"

lemma marked_start: "marked \<lparr> mk_src = [], mk_dst = [], mk_mgr = Manager_Clear \<rparr> (rule_views [] 0)"
  by (auto simp: marked_def rule_views_def Manager_Clear_def marks4_Nil wf_segs_Nil fun_eq_iff)

lemma views_union_start: "views_union (rule_views [] 0) (rule_views rs 0) = rule_views rs 0"
  by (simp add: views_union_def rule_views_def)

text \<open>No rule names the last port, the value that the port maps use as their fallback key.\<close>

definition no_last_port :: "views \<Rightarrow> bool" where
  "no_last_port V \<longleftrightarrow> v_sport V OTHER_PORT_KEY = {} \<and> v_dport V OTHER_PORT_KEY = {}"

lemma Manager_Insert_built:
  assumes "marked st V" "no_last_port V" and mg: "mk_mgr st = mg"
  shows "built (Manager_Insert (mg\<lparr> srcPortMap := OrInsertPortBitmap (mk_src st) [],
      dstPortMap := OrInsertPortBitmap (mk_dst st) [] \<rparr>)) V
    \<lparr> o_src = {}, o_dst = {}, o_sport = {}, o_dport = {}, o_proto = {}, o_app = {}, o_uid = {}, o_iface = {} \<rparr>"
proof -
  note m = assms(1) [unfolded marked_def mg]
  have segs: "wf_segs (mk_src st)" "wf_segs (mk_dst st)" "seg_bits (mk_src st) = v_sport V"
    "seg_bits (mk_dst st) = v_dport V" "seg_cov (mk_src st) = {p. v_sport V p \<noteq> {}}"
    "seg_cov (mk_dst st) = {p. v_dport V p \<noteq> {}}" using m by simp_all
  have "serves_port (Port_OrInsert OTHER_PORT_KEY PORT_MAX_MASK Clear (OrInsertPortBitmap (mk_src st) [])) (v_sport V) {}"
    using from_segs_serves [of "mk_src st" "OrInsertPortBitmap (mk_src st) []"] OrInsertPortBitmap_ok [OF segs(1)]
      segs assms(2) by (simp add: no_last_port_def)
  moreover have "serves_port (Port_OrInsert OTHER_PORT_KEY PORT_MAX_MASK Clear (OrInsertPortBitmap (mk_dst st) [])) (v_dport V) {}"
    using from_segs_serves [of "mk_dst st" "OrInsertPortBitmap (mk_dst st) []"] OrInsertPortBitmap_ok [OF segs(2)]
      segs assms(2) by (simp add: no_last_port_def)
  moreover have "serves4 (Ip4_OrInsert OTHER_IP4_KEY IPV4_MAX_PREFIXLEN Clear (srcIp4Map mg)) (v_src V) {}"
    "serves4 (Ip4_OrInsert OTHER_IP4_KEY IPV4_MAX_PREFIXLEN Clear (dstIp4Map mg)) (v_dst V) {}"
    using m by (simp_all add: marks4_serves)
  moreover note hash_serves [of OTHER_PROTO_KEY "protoMap mg"] hash_serves [of OTHER_APPUID_KEY "appUidMap mg"]
    hash_serves [of OTHER_UID_KEY "uidMap mg"] hash_serves [of "[]" "interfaceMap mg"] hash_serves [of 1 "actionMap mg"]
  ultimately show ?thesis using m by (simp add: built_def Manager_Insert_def)
qed

lemma BuildNoMarkBitmap_built:
  assumes "BuildNoMarkBitmap (map Some rs) 0 mg = Some mg'" "length rs \<le> BITMAP_BIT_COUNT"
    and "built mg V \<lparr> o_src = {}, o_dst = {}, o_sport = {}, o_dport = {}, o_proto = {}, o_app = {}, o_uid = {}, o_iface = {} \<rparr>"
  shows "built mg' V (rules_open rs)"
proof -
  have len: "0 + length rs \<le> BITMAP_BIT_COUNT" using assms(2) by simp
  note b = assms(3) [unfolded built_def open_rules.simps]
  show ?thesis
    unfolding built_def rules_open_def open_rules.simps BuildNoMarkBitmap_folds [OF assms(1)]
    using b by (intro conjI open4.answers_open_fold [OF _ len, of _ _ "{}", unfolded Un_empty_left]
      openp.answers_open_fold [OF _ len, of _ _ "{}", unfolded Un_empty_left]
      openh.answers_open_fold [OF _ len, of _ _ _ "{}", unfolded Un_empty_left]) simp_all
qed

lemma BuildBitmapMap_built:
  assumes run: "BuildBitmapMap (map Some rs) = Some (NETFIREWALL_SUCCESS, mg')"
    and rs: "list_all rule_norm rs" "length rs \<le> BITMAP_BIT_COUNT" "no_last_port (rule_views rs 0)"
  shows "built mg' (rule_views rs 0) (rules_open rs)"
proof -
  obtain ret st where loop: "BuildMarkBitmap_loop (map Some rs) 0 \<lparr> mk_src = [], mk_dst = [], mk_mgr = Manager_Clear \<rparr>
    = (ret, st)" by fastforce
  with run have ret: "ret = NETFIREWALL_SUCCESS"
    by (auto simp: BuildBitmapMap_def BuildMarkBitmap_def split: if_splits)
  note m = BuildMarkBitmap_loop_marked [OF loop [unfolded ret] marked_start rs(1), simplified views_union_start] rs(2)
  then have m: "marked st (rule_views rs 0)" by simp
  have ports: "srcPortMap (mk_mgr st) = []" "dstPortMap (mk_mgr st) = []" using m by (simp_all add: marked_def)
  let ?mg = "Manager_Insert ((mk_mgr st)\<lparr> srcPortMap := OrInsertPortBitmap (mk_src st) [],
    dstPortMap := OrInsertPortBitmap (mk_dst st) [] \<rparr>)"
  have "BuildNoMarkBitmap (map Some rs) 0 ?mg = Some mg'"
    using run by (simp add: BuildBitmapMap_def BuildMarkBitmap_def loop ret ports Let_def)
  from BuildNoMarkBitmap_built [OF this rs(2) Manager_Insert_built [OF m rs(3) refl]] show ?thesis .
qed

end
