(* ===== verification/Fw_Packet.thy ===== *)
theory Fw_Packet
  imports Fw_Manager
begin

text \<open>
  The packet side of the firewall: \<^verbatim>\<open>netfirewall_utils.h\<close> and the tuple extraction of
  \<^verbatim>\<open>netfirewall_match.h\<close>. A packet is what the program sees of a \<^verbatim>\<open>__sk_buff\<close>: its family and
  interface index, and the answers of the kernel helpers for it (\<^verbatim>\<open>bpf_skb_load_bytes\<close>,
  \<^verbatim>\<open>bpf_get_socket_uid\<close>, \<^verbatim>\<open>bpf_skb_get_dev_name\<close>), which are not part of this repository and
  are fields of the record. A failed load leaves the zeroed buffer of the caller. Addresses and ports stay in
  network byte order, as words of a little-endian host.
\<close>

subsection \<open>Packets\<close>

record sk_buff =
  skb_addr :: u64
  skb_family :: u32
  skb_ifindex :: u32
  skb_load :: "nat \<Rightarrow> nat \<Rightarrow> u8 list option"
  skb_uid :: u32
  skb_dev_name :: "string option"

definition AF_INET :: u32 where "AF_INET = 2"
definition AF_INET6 :: u32 where "AF_INET6 = 10"
definition IPPROTO_ICMP :: u8 where "IPPROTO_ICMP = 1"
definition IPPROTO_TCP :: u8 where "IPPROTO_TCP = 6"
definition IPPROTO_UDP :: u8 where "IPPROTO_UDP = 17"
definition IPPROTO_ICMPV6 :: u8 where "IPPROTO_ICMPV6 = 58"

text \<open>The buffer of \<^verbatim>\<open>n\<close> bytes after \<^verbatim>\<open>bpf_skb_load_bytes (skb, off, &buffer, n)\<close>.\<close>

definition loaded :: "sk_buff \<Rightarrow> nat \<Rightarrow> nat \<Rightarrow> u8 list" where
  "loaded skb off n = (case skb_load skb off n of None \<Rightarrow> replicate n 0 | Some bs \<Rightarrow> bs)"

definition word16_at :: "u8 list \<Rightarrow> nat \<Rightarrow> u16" where
  "word16_at bs i = ucast (bs ! i) OR push_bit 8 (ucast (bs ! (i + 1)))"

definition word32_at :: "u8 list \<Rightarrow> nat \<Rightarrow> u32" where
  "word32_at bs i = ucast (bs ! i) OR push_bit 8 (ucast (bs ! (i + 1))) OR
     push_bit 16 (ucast (bs ! (i + 2))) OR push_bit 24 (ucast (bs ! (i + 3)))"

definition bytes_at :: "u8 list \<Rightarrow> nat \<Rightarrow> in6_addr" where
  "bytes_at bs i = map (\<lambda>k. bs ! (i + k)) [0..<16]"

subsection \<open>Header access\<close>

definition L3_NHOFF :: nat where "L3_NHOFF = 0"

definition SIZEOF_IPHDR :: nat where "SIZEOF_IPHDR = 20"
definition SIZEOF_IPV6HDR :: nat where "SIZEOF_IPV6HDR = 40"
definition SIZEOF_TCPHDR :: nat where "SIZEOF_TCPHDR = 20"
definition SIZEOF_UDPHDR :: nat where "SIZEOF_UDPHDR = 8"
definition SIZEOF_ICMPHDR :: nat where "SIZEOF_ICMPHDR = 8"

definition L4_NHOFF :: "bool \<Rightarrow> nat" where
  "L4_NHOFF ipv4 = L3_NHOFF + (if ipv4 then SIZEOF_IPHDR else SIZEOF_IPV6HDR)"

definition is_ipv4_format_skb :: "sk_buff \<Rightarrow> bool" where
  "is_ipv4_format_skb skb =
     (if skb_family skb = AF_INET then True
      else if skb_family skb = AF_INET6 then drop_bit 4 (loaded skb 0 1 ! 0) = 4
      else False)"

definition is_l4_protocol :: "sk_buff \<Rightarrow> nat \<Rightarrow> u8 \<Rightarrow> bool" where
  "is_l4_protocol skb l3_nhoff proto =
     (if is_ipv4_format_skb skb then loaded skb l3_nhoff SIZEOF_IPHDR ! 9 = proto
      else if skb_family skb = AF_INET6 then loaded skb l3_nhoff SIZEOF_IPV6HDR ! 6 = proto
      else False)"

definition get_l3_nhoff :: "sk_buff \<Rightarrow> nat" where
  "get_l3_nhoff skb = L3_NHOFF"

definition get_l4_nhoff :: "sk_buff \<Rightarrow> nat" where
  "get_l4_nhoff skb = L4_NHOFF (is_ipv4_format_skb skb)"

text \<open>The union \<^verbatim>\<open>tcp_flags\<close>: the two flag bytes, and the value of the union on a little-endian host.\<close>

record tcp_flags =
  upper_bits :: u8
  lower_bits :: u8

definition tcp_value :: "tcp_flags \<Rightarrow> u32" where
  "tcp_value fl = ucast (upper_bits fl) OR push_bit 8 (ucast (lower_bits fl))"

definition no_flags :: tcp_flags where
  "no_flags = \<lparr> upper_bits = 0, lower_bits = 0 \<rparr>"

text \<open>\<^verbatim>\<open>None\<close> is a negative return code.\<close>

definition load_tcp_flags :: "sk_buff \<Rightarrow> nat \<Rightarrow> tcp_flags option" where
  "load_tcp_flags skb l4_nhoff =
     map_option (\<lambda>bs. \<lparr> upper_bits = bs ! 0, lower_bits = bs ! 1 \<rparr>) (skb_load skb (l4_nhoff + 12) 2)"

definition load_l4_protocol :: "sk_buff \<Rightarrow> nat \<Rightarrow> u8 option" where
  "load_l4_protocol skb l3_nhoff =
     (if is_ipv4_format_skb skb then Some (loaded skb l3_nhoff SIZEOF_IPHDR ! 9)
      else if skb_family skb = AF_INET6 then Some (loaded skb l3_nhoff SIZEOF_IPV6HDR ! 6)
      else None)"

definition load_l3_v4_addrs :: "sk_buff \<Rightarrow> nat \<Rightarrow> (u32 \<times> u32) option" where
  "load_l3_v4_addrs skb l3_nhoff =
     (if skb_family skb \<noteq> AF_INET then None
      else let iph = loaded skb l3_nhoff SIZEOF_IPHDR in Some (word32_at iph 12, word32_at iph 16))"

definition load_l3_v6_addrs :: "sk_buff \<Rightarrow> nat \<Rightarrow> (in6_addr \<times> in6_addr) option" where
  "load_l3_v6_addrs skb l3_nhoff =
     (if skb_family skb \<noteq> AF_INET6 then None
      else let ip6h = loaded skb l3_nhoff SIZEOF_IPV6HDR in Some (bytes_at ip6h 8, bytes_at ip6h 24))"

definition load_icmp_info :: "sk_buff \<Rightarrow> nat \<Rightarrow> u8 \<Rightarrow> (u8 \<times> u8) option" where
  "load_icmp_info skb l4_nhoff proto =
     (if proto = IPPROTO_ICMP \<or> proto = IPPROTO_ICMPV6
      then let icmph = loaded skb l4_nhoff SIZEOF_ICMPHDR in Some (icmph ! 0, icmph ! 1)
      else None)"

definition load_l4_ports :: "sk_buff \<Rightarrow> nat \<Rightarrow> u8 \<Rightarrow> (u16 \<times> u16) option" where
  "load_l4_ports skb l4_nhoff proto =
     (if proto = IPPROTO_TCP
      then let tcph = loaded skb l4_nhoff SIZEOF_TCPHDR in Some (word16_at tcph 0, word16_at tcph 2)
      else if proto = IPPROTO_UDP
      then let udph = loaded skb l4_nhoff SIZEOF_UDPHDR in Some (word16_at udph 0, word16_at udph 2)
      else None)"

definition load_l4_header_flags :: "sk_buff \<Rightarrow> nat \<Rightarrow> u16" where
  "load_l4_header_flags skb l4_nhoff = of_bool (bit (loaded skb l4_nhoff SIZEOF_TCPHDR ! 13) 2)"

subsection \<open>The match tuple\<close>

datatype stream_dir = INVALID_DIR | INGRESS | EGRESS

text \<open>The members of the address union of \<^verbatim>\<open>struct match_tuple\<close> are separate fields: each function accesses
  only the member that the family selects.\<close>

record match_tuple =
  t_dir :: stream_dir
  t_family :: u32
  t_protocol :: u8
  t_saddr :: u32
  t_daddr :: u32
  t_saddr6 :: in6_addr
  t_daddr6 :: in6_addr
  t_sport :: u16
  t_dport :: u16
  t_appuid :: u32
  t_uid :: u32
  t_rst :: u16
  t_ifindex :: u32

definition zero_tuple :: match_tuple where
  "zero_tuple = \<lparr> t_dir = INVALID_DIR, t_family = 0, t_protocol = 0, t_saddr = 0, t_daddr = 0,
     t_saddr6 = replicate 16 0, t_daddr6 = replicate 16 0, t_sport = 0, t_dport = 0, t_appuid = 0, t_uid = 0,
     t_rst = 0, t_ifindex = 0 \<rparr>"

definition USER_ID_DIVIDOR :: u32 where "USER_ID_DIVIDOR = 200000"
definition DEFAULT_USER_ID :: u32 where "DEFAULT_USER_ID = 100"

text \<open>\<^verbatim>\<open>current\<close> is the entry of \<^verbatim>\<open>CURRENT_UID_MAP\<close>, if there is one.\<close>

definition get_user_id :: "u32 option \<Rightarrow> u32 \<Rightarrow> u32" where
  "get_user_id current sock_uid =
     (let user_id = sock_uid div USER_ID_DIVIDOR
      in if user_id > 0 then user_id
         else case current of None \<Rightarrow> DEFAULT_USER_ID | Some u \<Rightarrow> u)"

definition swap_tuple_ports :: "match_tuple \<Rightarrow> match_tuple" where
  "swap_tuple_ports t = t\<lparr> t_sport := t_dport t, t_dport := t_sport t \<rparr>"

definition swap_tuple_addrs :: "match_tuple \<Rightarrow> match_tuple" where
  "swap_tuple_addrs t =
     (if t_family t = AF_INET then t\<lparr> t_saddr := t_daddr t, t_daddr := t_saddr t \<rparr>
      else t\<lparr> t_saddr6 := t_daddr6 t, t_daddr6 := t_saddr6 t \<rparr>)"

definition get_match_tuple :: "u32 option \<Rightarrow> sk_buff \<Rightarrow> stream_dir \<Rightarrow> match_tuple option" where
  "get_match_tuple current skb dir =
     (let l3_nhoff = get_l3_nhoff skb; l4_nhoff = get_l4_nhoff skb;
          t1 = (if is_ipv4_format_skb skb
                then (case load_l3_v4_addrs skb l3_nhoff of None \<Rightarrow> zero_tuple
                      | Some (s, d) \<Rightarrow> zero_tuple\<lparr> t_saddr := s, t_daddr := d \<rparr>)
                else (case load_l3_v6_addrs skb l3_nhoff of None \<Rightarrow> zero_tuple
                      | Some (s, d) \<Rightarrow> zero_tuple\<lparr> t_saddr6 := s, t_daddr6 := d \<rparr>))
      in case load_l4_protocol skb l3_nhoff of None \<Rightarrow> None
         | Some proto \<Rightarrow>
           let t2 = t1\<lparr> t_dir := dir, t_family := skb_family skb, t_appuid := skb_uid skb,
                        t_uid := get_user_id current (skb_uid skb), t_protocol := proto \<rparr>;
               t3 = (case load_l4_ports skb l4_nhoff proto of None \<Rightarrow> t2
                     | Some (s, d) \<Rightarrow> t2\<lparr> t_sport := s, t_dport := d \<rparr>);
               t4 = (if proto = IPPROTO_TCP then t3\<lparr> t_rst := load_l4_header_flags skb l4_nhoff \<rparr> else t3);
               t5 = (if dir = EGRESS then swap_tuple_ports (swap_tuple_addrs t4) else t4)
           in Some (t5\<lparr> t_ifindex := skb_ifindex skb \<rparr>))"

subsection \<open>Facts\<close>

lemma swap_tuple_ports_twice [simp]: "swap_tuple_ports (swap_tuple_ports t) = t"
  by (simp add: swap_tuple_ports_def)

lemma swap_tuple_addrs_twice [simp]: "swap_tuple_addrs (swap_tuple_addrs t) = t"
  by (simp add: swap_tuple_addrs_def)

lemma get_user_id_nonzero: "current \<noteq> Some 0 \<Longrightarrow> get_user_id current uid \<noteq> 0"
  by (auto simp: get_user_id_def Let_def DEFAULT_USER_ID_def split: option.splits)

lemma load_l4_ports_None: "load_l4_ports skb off p = None \<longleftrightarrow> p \<noteq> IPPROTO_TCP \<and> p \<noteq> IPPROTO_UDP"
  by (simp add: load_l4_ports_def Let_def)

lemma get_match_tuple_None:
  "get_match_tuple current skb dir = None \<longleftrightarrow> skb_family skb \<noteq> AF_INET \<and> skb_family skb \<noteq> AF_INET6"
  by (auto simp: get_match_tuple_def load_l4_protocol_def is_ipv4_format_skb_def Let_def split: option.splits)

lemma get_match_tuple_fields:
  assumes "get_match_tuple current skb dir = Some t"
  shows "t_dir t = dir" "t_family t = skb_family skb" "t_appuid t = skb_uid skb"
    "t_uid t = get_user_id current (skb_uid skb)" "t_ifindex t = skb_ifindex skb"
    "load_l4_protocol skb 0 = Some (t_protocol t)"
  using assms by (auto simp: get_match_tuple_def Let_def get_l3_nhoff_def L3_NHOFF_def swap_tuple_ports_def
    swap_tuple_addrs_def split: option.splits)

text \<open>On a socket of family IPv4 the two directions give mirrored tuples: what is local in one direction is local
  in the other.\<close>

definition mirror :: "stream_dir \<Rightarrow> match_tuple \<Rightarrow> match_tuple" where
  "mirror dir t = (swap_tuple_ports (swap_tuple_addrs t))\<lparr> t_dir := dir \<rparr>"

lemma get_match_tuple_mirror:
  "get_match_tuple current skb EGRESS = map_option (mirror EGRESS) (get_match_tuple current skb INGRESS)"
  by (simp add: get_match_tuple_def Let_def mirror_def swap_tuple_ports_def swap_tuple_addrs_def
      split: option.splits prod.splits)

text \<open>A packet in IPv4 format on an IPv6 socket keeps no address: the tuple has family IPv6 and zero
  addresses.\<close>

lemma mapped_packet_no_addrs:
  assumes "skb_family skb = AF_INET6" "is_ipv4_format_skb skb" "get_match_tuple current skb dir = Some t"
  shows "t_saddr6 t = replicate 16 0 \<and> t_daddr6 t = replicate 16 0 \<and> t_saddr t = 0 \<and> t_daddr t = 0"
  using assms by (auto simp: get_match_tuple_def Let_def load_l3_v4_addrs_def zero_tuple_def AF_INET_def AF_INET6_def
    swap_tuple_ports_def swap_tuple_addrs_def split: option.splits if_splits)

end
