(* ===== verification/Fw_Conntrack.thy ===== *)
theory Fw_Conntrack
  imports Fw_Packet
begin

text \<open>
  Connection tracking: \<^verbatim>\<open>netfirewall_ct.h\<close>, \<^verbatim>\<open>netfirewall_ct_def.h\<close> and the garbage collection of
  \<^verbatim>\<open>bpf_netfirewall.cpp\<close>. The tracking map is a finite map from tuples to entries. The lemmas give the
  life cycle of an entry: a created entry is found by the next packet of the connection and of its reverse on the
  loopback, it is refreshed while the connection is alive, it is removed by the packet that closes the second
  direction, and the collector removes exactly the entries whose lifetime has passed.
\<close>

subsection \<open>Types\<close>

datatype ct_action = CT_ACTION_UNSPEC | CT_ACTION_CREATE | CT_ACTION_CLOSE

datatype ct_dir = CT_EGRESS | CT_INGRESS

datatype ct_status = CT_NEW | CT_ESTABLISHED | CT_REOPENED | CT_RELATED

record ct_tuple =
  c_uid :: u32
  c_family :: u32
  c_protocol :: u8
  c_saddr :: u32
  c_daddr :: u32
  c_saddr6 :: in6_addr
  c_daddr6 :: in6_addr
  c_sport :: u16
  c_dport :: u16

record ct_entry =
  lifetime :: u32
  rx_closing_flag :: bool
  tx_closing_flag :: bool
  seen_non_syn :: bool
  tx_seen_flag :: u8
  rx_seen_flag :: u8
  last_tx_report :: u32
  last_rx_report :: u32

type_synonym ct_map = "ct_tuple \<Rightarrow> ct_entry option"

definition TCP_CONN_TIMEOUT_SEC :: u32 where "TCP_CONN_TIMEOUT_SEC = 21600"
definition NONTCP_CONN_TIMEOUT_SEC :: u32 where "NONTCP_CONN_TIMEOUT_SEC = 60"
definition TCP_SYN_TIMEOUT_SEC :: u32 where "TCP_SYN_TIMEOUT_SEC = 60"
definition REPORT_INTERVAL_SEC :: u32 where "REPORT_INTERVAL_SEC = 5"
definition REPORT_FLAGS :: u8 where "REPORT_FLAGS = 0xff"
definition NS_PER_SEC :: u64 where "NS_PER_SEC = 1000000000"

text \<open>The flag words of \<^verbatim>\<open><linux/tcp.h>\<close> in network byte order, as words of a little-endian host.\<close>

definition TCP_FLAG_FIN :: u32 where "TCP_FLAG_FIN = 0x100"
definition TCP_FLAG_SYN :: u32 where "TCP_FLAG_SYN = 0x200"
definition TCP_FLAG_RST :: u32 where "TCP_FLAG_RST = 0x400"

definition zero_entry :: ct_entry where
  "zero_entry = \<lparr> lifetime = 0, rx_closing_flag = False, tx_closing_flag = False, seen_non_syn = False,
     tx_seen_flag = 0, rx_seen_flag = 0, last_tx_report = 0, last_rx_report = 0 \<rparr>"

subsection \<open>Operations\<close>

definition reset_seen_flags :: "ct_entry \<Rightarrow> ct_entry" where
  "reset_seen_flags entry = entry\<lparr> rx_seen_flag := 0, tx_seen_flag := 0 \<rparr>"

definition reset_closing_flags :: "ct_entry \<Rightarrow> ct_entry" where
  "reset_closing_flags entry = entry\<lparr> rx_closing_flag := False, tx_closing_flag := False \<rparr>"

definition is_conn_alive :: "ct_entry \<Rightarrow> bool" where
  "is_conn_alive entry \<longleftrightarrow> \<not> rx_closing_flag entry \<or> \<not> tx_closing_flag entry"

definition is_conn_closing :: "ct_entry \<Rightarrow> bool" where
  "is_conn_closing entry \<longleftrightarrow> tx_closing_flag entry \<or> rx_closing_flag entry"

definition get_tcp_conn_action :: "tcp_flags \<Rightarrow> ct_action" where
  "get_tcp_conn_action flags =
     (if tcp_value flags AND (TCP_FLAG_RST OR TCP_FLAG_FIN) \<noteq> 0 then CT_ACTION_CLOSE
      else if tcp_value flags AND TCP_FLAG_SYN \<noteq> 0 then CT_ACTION_CREATE
      else CT_ACTION_UNSPEC)"

text \<open>The seen flags are bytes, extended to 32 bits by the integer promotion of \<^verbatim>\<open>&\<close>.\<close>

definition is_seen_both_syns :: "ct_entry \<Rightarrow> bool" where
  "is_seen_both_syns entry =
     (let rx_syn = (ucast (rx_seen_flag entry) AND TCP_FLAG_SYN \<noteq> 0);
          tx_syn = (ucast (tx_seen_flag entry) AND TCP_FLAG_SYN \<noteq> 0)
      in rx_syn \<and> tx_syn)"

text \<open>\<^verbatim>\<open>ktime\<close> is the value of \<^verbatim>\<open>bpf_ktime_get_ns ()\<close>.\<close>

definition update_timeout_inner ::
  "u64 \<Rightarrow> ct_entry \<Rightarrow> u32 \<Rightarrow> ct_dir \<Rightarrow> tcp_flags \<Rightarrow> bool \<times> ct_entry" where
  "update_timeout_inner ktime entry lifetime_sec dir flags =
     (let now = ucast (ktime div NS_PER_SEC);
          entry1 = entry\<lparr> lifetime := now + lifetime_sec \<rparr>;
          last_seen_flags = (if dir = CT_INGRESS then rx_seen_flag entry1 else tx_seen_flag entry1);
          last_report = (if dir = CT_INGRESS then last_rx_report entry1 else last_tx_report entry1);
          seen_flags = (lower_bits flags AND REPORT_FLAGS) OR last_seen_flags
      in if last_report + REPORT_INTERVAL_SEC < now \<or> last_seen_flags \<noteq> seen_flags
         then (True, if dir = CT_INGRESS then entry1\<lparr> rx_seen_flag := seen_flags, last_rx_report := now \<rparr>
                     else entry1\<lparr> tx_seen_flag := seen_flags, last_tx_report := now \<rparr>)
         else (False, entry1))"

definition ct_update_timeout ::
  "u64 \<Rightarrow> ct_entry \<Rightarrow> bool \<Rightarrow> ct_dir \<Rightarrow> tcp_flags \<Rightarrow> bool \<times> ct_entry" where
  "ct_update_timeout ktime entry tcp dir seen_flags =
     (let syn = (tcp_value seen_flags AND TCP_FLAG_SYN \<noteq> 0)
      in if tcp
         then let entry1 = entry\<lparr> seen_non_syn := (seen_non_syn entry \<or> \<not> syn) \<rparr>;
                  timeout = (if seen_non_syn entry1 then TCP_CONN_TIMEOUT_SEC else TCP_SYN_TIMEOUT_SEC)
              in update_timeout_inner ktime entry1 timeout dir seen_flags
         else update_timeout_inner ktime entry NONTCP_CONN_TIMEOUT_SEC dir seen_flags)"

text \<open>The value of the union with the bits of \<^verbatim>\<open>TCP_FLAG_SYN\<close> set.\<close>

definition syn_flags :: tcp_flags where
  "syn_flags = \<lparr> upper_bits = 0, lower_bits = 2 \<rparr>"

text \<open>A map update that fails returns \<^verbatim>\<open>False\<close>; \<^verbatim>\<open>room\<close> says whether the kernel accepts the entry.\<close>

definition ct_create_entry :: "u64 \<Rightarrow> bool \<Rightarrow> ct_map \<Rightarrow> ct_tuple \<Rightarrow> ct_dir \<Rightarrow> bool \<times> ct_map" where
  "ct_create_entry ktime room ct tuple dir =
     (let is_tcp = (c_protocol tuple = IPPROTO_TCP);
          seen_flags = (if is_tcp then syn_flags else no_flags);
          entry = snd (ct_update_timeout ktime zero_entry is_tcp dir seen_flags)
      in if room then (True, ct(tuple \<mapsto> entry)) else (False, ct))"

definition ct_lookup_entry ::
  "u64 \<Rightarrow> ct_map \<Rightarrow> sk_buff \<Rightarrow> ct_tuple \<Rightarrow> ct_dir \<Rightarrow> ct_status \<times> ct_map" where
  "ct_lookup_entry ktime ct skb tuple dir =
     (case ct tuple of
        None \<Rightarrow> (CT_NEW, ct)
      | Some entry \<Rightarrow>
        let is_tcp = is_l4_protocol skb (get_l3_nhoff skb) IPPROTO_TCP
        in case (if is_tcp then load_tcp_flags skb (get_l4_nhoff skb) else Some no_flags) of
             None \<Rightarrow> (CT_RELATED, ct)
           | Some seen_flags \<Rightarrow>
             let e1 = (if is_conn_alive entry then snd (ct_update_timeout ktime entry is_tcp dir seen_flags) else entry)
             in case get_tcp_conn_action seen_flags of
                  CT_ACTION_CREATE \<Rightarrow>
                    if is_conn_closing e1
                    then let e2 = (reset_seen_flags (reset_closing_flags e1))\<lparr> seen_non_syn := False \<rparr>;
                             e3 = snd (ct_update_timeout ktime e2 is_tcp dir seen_flags)
                         in (CT_REOPENED, ct(tuple \<mapsto> e3))
                    else (CT_ESTABLISHED, ct(tuple \<mapsto> e1))
                | CT_ACTION_CLOSE \<Rightarrow>
                    let e2 = (if \<not> is_seen_both_syns e1 \<and> tcp_value seen_flags AND TCP_FLAG_RST \<noteq> 0
                              then e1\<lparr> rx_closing_flag := True, tx_closing_flag := True \<rparr>
                              else if dir = CT_INGRESS then e1\<lparr> rx_closing_flag := True \<rparr>
                              else e1\<lparr> tx_closing_flag := True \<rparr>)
                    in if is_conn_alive e2 then (CT_ESTABLISHED, ct(tuple \<mapsto> e2))
                       else (CT_ESTABLISHED, ct(tuple := None))
                | CT_ACTION_UNSPEC \<Rightarrow> (CT_ESTABLISHED, ct(tuple \<mapsto> e1)))"

definition swap_ct_tuple_ports :: "ct_tuple \<Rightarrow> ct_tuple" where
  "swap_ct_tuple_ports t = t\<lparr> c_sport := c_dport t, c_dport := c_sport t \<rparr>"

definition swap_ct_tuple_addrs :: "ct_tuple \<Rightarrow> ct_tuple" where
  "swap_ct_tuple_addrs t =
     (if c_family t = AF_INET then t\<lparr> c_saddr := c_daddr t, c_daddr := c_saddr t \<rparr>
      else t\<lparr> c_saddr6 := c_daddr6 t, c_daddr6 := c_saddr6 t \<rparr>)"

text \<open>The tuple is an in-out parameter: it stays swapped after a loopback lookup.\<close>

definition ct_map_lookup_entry ::
  "u64 \<Rightarrow> ct_map \<Rightarrow> sk_buff \<Rightarrow> ct_tuple \<Rightarrow> ct_dir \<Rightarrow> bool \<Rightarrow> ct_status \<times> ct_tuple \<times> ct_map" where
  "ct_map_lookup_entry ktime ct skb tuple dir is_loopback =
     (case ct_lookup_entry ktime ct skb tuple dir of (status, ct1) \<Rightarrow>
        if status = CT_NEW \<and> is_loopback
        then let tuple' = swap_ct_tuple_ports (swap_ct_tuple_addrs tuple)
             in case ct_lookup_entry ktime ct1 skb tuple' dir of (status', ct2) \<Rightarrow> (status', tuple', ct2)
        else (status, tuple, ct1))"

definition get_ct_tuple :: "match_tuple \<Rightarrow> ct_tuple" where
  "get_ct_tuple t =
     (let c = \<lparr> c_uid = t_uid t, c_family = t_family t, c_protocol = t_protocol t, c_saddr = 0, c_daddr = 0,
                c_saddr6 = replicate 16 0, c_daddr6 = replicate 16 0, c_sport = t_sport t, c_dport = t_dport t \<rparr>
      in if t_family t = AF_INET then c\<lparr> c_saddr := t_saddr t, c_daddr := t_daddr t \<rparr>
         else c\<lparr> c_saddr6 := t_saddr6 t, c_daddr6 := t_daddr6 t \<rparr>)"

text \<open>The collector reads all keys and deletes the entries whose lifetime is before \<^verbatim>\<open>now\<close> seconds of the
  monotonic clock. \<^verbatim>\<open>read_ok\<close> and \<^verbatim>\<open>delete_ok\<close> say for which keys the system calls succeed.\<close>

definition gc_key :: "(ct_tuple \<Rightarrow> bool) \<Rightarrow> (ct_tuple \<Rightarrow> bool) \<Rightarrow> nat \<Rightarrow> ct_tuple \<Rightarrow> ct_map \<Rightarrow> ct_map" where
  "gc_key read_ok delete_ok now k ct =
     (case ct k of None \<Rightarrow> ct
      | Some v \<Rightarrow> if read_ok k \<and> unat (lifetime v) < now \<and> delete_ok k then ct(k := None) else ct)"

definition ConntrackGcTask ::
  "(ct_tuple \<Rightarrow> bool) \<Rightarrow> (ct_tuple \<Rightarrow> bool) \<Rightarrow> nat option \<Rightarrow> ct_tuple list \<Rightarrow> ct_map \<Rightarrow> ct_map" where
  "ConntrackGcTask read_ok delete_ok clock keys ct =
     (case clock of None \<Rightarrow> ct | Some now \<Rightarrow> fold (gc_key read_ok delete_ok now) keys ct)"

subsection \<open>Facts\<close>

lemma update_timeout_inner_facts:
  assumes "update_timeout_inner ktime e secs dir fl = (r, e')"
  shows "rx_closing_flag e' = rx_closing_flag e" "tx_closing_flag e' = tx_closing_flag e"
    "seen_non_syn e' = seen_non_syn e" "lifetime e' = ucast (ktime div NS_PER_SEC) + secs"
  using assms by (auto simp: update_timeout_inner_def Let_def split: if_splits)

lemma ct_update_timeout_facts:
  assumes "ct_update_timeout ktime e tcp dir fl = (r, e')"
  shows "rx_closing_flag e' = rx_closing_flag e" "tx_closing_flag e' = tx_closing_flag e"
    "lifetime e' = ucast (ktime div NS_PER_SEC) +
       (if \<not> tcp then NONTCP_CONN_TIMEOUT_SEC else if seen_non_syn e' then TCP_CONN_TIMEOUT_SEC else TCP_SYN_TIMEOUT_SEC)"
  using assms update_timeout_inner_facts [of ktime _ _ dir fl r e']
  by (auto simp: ct_update_timeout_def Let_def split: if_splits)

lemma ct_update_timeout_alive [simp]:
  "is_conn_alive (snd (ct_update_timeout ktime e tcp dir fl)) = is_conn_alive e"
  "is_conn_closing (snd (ct_update_timeout ktime e tcp dir fl)) = is_conn_closing e"
  using ct_update_timeout_facts [of ktime e tcp dir fl] by (cases "ct_update_timeout ktime e tcp dir fl";
    simp add: is_conn_alive_def is_conn_closing_def)+

lemma reset_alive [simp]: "is_conn_alive ((reset_seen_flags (reset_closing_flags e))\<lparr> seen_non_syn := b \<rparr>)"
  by (simp add: is_conn_alive_def reset_seen_flags_def reset_closing_flags_def)

lemma zero_entry_alive [simp]: "is_conn_alive zero_entry"
  by (simp add: is_conn_alive_def zero_entry_def)

text \<open>The tests of single flags. The seen flags are one byte wide, the flag word of a SYN is above it.\<close>

lemma byte_and_syn: "ucast (b :: u8) AND TCP_FLAG_SYN = (0 :: u32)"
proof (rule bit_word_eqI)
  fix n
  have "bit b n \<Longrightarrow> n < 8" using bit_imp_le_length [of b n] by simp
  moreover have "bit (0x200 :: int) n \<longleftrightarrow> n = 9"
    using bit_exp_iff [of 9 n, where 'a = int] by (simp add: possible_bit_def)
  ultimately show "bit (ucast b AND TCP_FLAG_SYN :: u32) n \<longleftrightarrow> bit (0 :: u32) n"
    by (auto simp: TCP_FLAG_SYN_def bit_and_iff bit_ucast_iff)
qed

lemma never_seen_both_syns [simp]: "\<not> is_seen_both_syns e"
  by (simp add: is_seen_both_syns_def byte_and_syn)

lemma get_tcp_conn_action_no_flags [simp]: "get_tcp_conn_action no_flags = CT_ACTION_UNSPEC"
  by (simp add: get_tcp_conn_action_def no_flags_def tcp_value_def)

text \<open>No entry of the map has both directions closed.\<close>

definition ct_live :: "ct_map \<Rightarrow> bool" where
  "ct_live ct \<longleftrightarrow> (\<forall>t e. ct t = Some e \<longrightarrow> is_conn_alive e)"

lemma ct_liveD: "ct_live ct \<Longrightarrow> ct t = Some e \<Longrightarrow> is_conn_alive e"
  by (simp add: ct_live_def)

lemma ct_live_upd [wf_intros]: "ct_live ct \<Longrightarrow> is_conn_alive e \<Longrightarrow> ct_live (ct(t \<mapsto> e))"
  by (simp add: ct_live_def)

lemma ct_live_del [wf_intros]: "ct_live ct \<Longrightarrow> ct_live (ct(t := None))"
  by (simp add: ct_live_def)

lemma ct_create_entry_live [wf_intros]: "ct_live ct \<Longrightarrow> ct_live (snd (ct_create_entry ktime room ct t dir))"
  by (simp add: ct_create_entry_def Let_def ct_live_upd)

lemma ct_lookup_entry_live [wf_intros]:
  assumes "ct_live ct"
  shows "ct_live (snd (ct_lookup_entry ktime ct skb t dir))"
proof (cases "ct t")
  case None
  then show ?thesis using assms by (simp add: ct_lookup_entry_def)
next
  case (Some e)
  then have "is_conn_alive e" using assms by (rule ct_liveD [rotated])
  with Some assms show ?thesis
    by (auto simp: ct_lookup_entry_def Let_def intro!: ct_live_upd ct_live_del split: option.splits ct_action.splits)
qed

lemma ct_lookup_entry_new: "fst (ct_lookup_entry ktime ct skb t dir) = CT_NEW \<longleftrightarrow> ct t = None"
  by (auto simp: ct_lookup_entry_def Let_def split: option.splits ct_action.splits)

lemma ct_lookup_entry_other: "t' \<noteq> t \<Longrightarrow> snd (ct_lookup_entry ktime ct skb t dir) t' = ct t'"
  by (auto simp: ct_lookup_entry_def Let_def split: option.splits ct_action.splits)

lemma ct_lookup_entry_dom: "dom (snd (ct_lookup_entry ktime ct skb t dir)) \<subseteq> dom ct"
  by (auto simp: ct_lookup_entry_def Let_def split: option.splits ct_action.splits if_splits)

lemma ct_lookup_entry_unchanged: "ct t = None \<Longrightarrow> ct_lookup_entry ktime ct skb t dir = (CT_NEW, ct)"
  by (simp add: ct_lookup_entry_def)

definition swap_ct :: "ct_tuple \<Rightarrow> ct_tuple" where
  "swap_ct t = swap_ct_tuple_ports (swap_ct_tuple_addrs t)"

lemma swap_ct_twice [simp]: "swap_ct (swap_ct t) = t"
  by (simp add: swap_ct_def swap_ct_tuple_ports_def swap_ct_tuple_addrs_def)

text \<open>The key a lookup uses: the reverse of an untracked tuple on the loopback.\<close>

definition ct_key :: "ct_map \<Rightarrow> ct_tuple \<Rightarrow> bool \<Rightarrow> ct_tuple" where
  "ct_key ct t lo = (if ct t = None \<and> lo then swap_ct t else t)"

lemma ct_map_lookup_entry_eq: "ct_map_lookup_entry ktime ct skb t dir lo =
    (fst (ct_lookup_entry ktime ct skb (ct_key ct t lo) dir), ct_key ct t lo,
     snd (ct_lookup_entry ktime ct skb (ct_key ct t lo) dir))"
proof (cases "ct t = None")
  case True
  then show ?thesis
    by (simp add: ct_map_lookup_entry_def ct_lookup_entry_unchanged ct_key_def swap_ct_def Let_def split: prod.splits)
next
  case False
  then have "fst (ct_lookup_entry ktime ct skb t dir) \<noteq> CT_NEW" using ct_lookup_entry_new [of ktime ct skb t dir] by simp
  with False show ?thesis
    by (cases "ct_lookup_entry ktime ct skb t dir") (auto simp: ct_map_lookup_entry_def ct_key_def)
qed

lemma ct_map_lookup_entry_live [wf_intros]:
  "ct_live ct \<Longrightarrow> ct_live (snd (snd (ct_map_lookup_entry ktime ct skb t dir lo)))"
  by (simp add: ct_map_lookup_entry_eq ct_lookup_entry_live)

lemma ct_map_lookup_entry_new:
  "fst (ct_map_lookup_entry ktime ct skb t dir lo) = CT_NEW \<longleftrightarrow> ct t = None \<and> (lo \<longrightarrow> ct (swap_ct t) = None)"
  by (auto simp: ct_map_lookup_entry_eq ct_lookup_entry_new ct_key_def)

lemma ct_map_lookup_entry_untouched:
  assumes "fst (ct_map_lookup_entry ktime ct skb t dir lo) = CT_NEW"
  shows "snd (snd (ct_map_lookup_entry ktime ct skb t dir lo)) = ct"
  using assms ct_lookup_entry_unchanged [of ct "ct_key ct t lo" ktime skb dir]
  by (simp add: ct_map_lookup_entry_eq ct_lookup_entry_new)

lemma ct_create_entry_found: "snd (ct_create_entry ktime True ct t dir) t \<noteq> None"
  by (simp add: ct_create_entry_def Let_def)

lemma gc_keys: "fold (gc_key ro dl now) ks ct k = (case ct k of None \<Rightarrow> None
    | Some v \<Rightarrow> if k \<in> set ks \<and> ro k \<and> unat (lifetime v) < now \<and> dl k then None else Some v)"
proof (induction ks arbitrary: ct)
  case (Cons a ks)
  then show ?case by (cases "ct a"; cases "k = a"; auto simp: gc_key_def split: option.splits)
qed (simp split: option.splits)

lemma ConntrackGcTask_live [wf_intros]: "ct_live ct \<Longrightarrow> ct_live (ConntrackGcTask ro dl clock ks ct)"
  by (auto simp: ct_live_def ConntrackGcTask_def gc_keys split: option.splits if_splits)

subsection \<open>Properties\<close>

text \<open>C10: A tracked connection is recognised and an untracked one is not: the lookup reports a new connection
  exactly when neither the tuple nor, on the loopback, its reverse is in the map; it never adds an entry and
  touches no entry but the one it finds; an entry written by \<^verbatim>\<open>ct_create_entry\<close> is found afterwards in both
  directions of the loopback.\<close>

theorem conntrack_lookup_exact:
  "(fst (ct_map_lookup_entry ktime ct skb t dir lo) = CT_NEW \<longleftrightarrow> ct t = None \<and> (lo \<longrightarrow> ct (swap_ct t) = None)) \<and>
   dom (snd (snd (ct_map_lookup_entry ktime ct skb t dir lo))) \<subseteq> dom ct \<and>
   (\<forall>t'. t' \<noteq> t \<and> (lo \<longrightarrow> t' \<noteq> swap_ct t) \<longrightarrow> snd (snd (ct_map_lookup_entry ktime ct skb t dir lo)) t' = ct t') \<and>
   fst (ct_map_lookup_entry ktime (snd (ct_create_entry ktime True ct t dir)) skb t dir' lo) \<noteq> CT_NEW \<and>
   fst (ct_map_lookup_entry ktime (snd (ct_create_entry ktime True ct t dir)) skb (swap_ct t) dir' True) \<noteq> CT_NEW"
  using ct_lookup_entry_dom [of ktime ct skb "ct_key ct t lo" dir]
    ct_lookup_entry_other [of _ "ct_key ct t lo" ktime ct skb dir] ct_create_entry_found [of ktime ct t dir]
  unfolding ct_map_lookup_entry_new by (auto simp: ct_map_lookup_entry_eq ct_key_def split: if_splits)

theorem conntrack_lookup_exact_witness:
  "let t = \<lparr> c_uid = 100, c_family = AF_INET, c_protocol = IPPROTO_TCP, c_saddr = 1, c_daddr = 2,
         c_saddr6 = [], c_daddr6 = [], c_sport = 80, c_dport = 4096 \<rparr>;
       skb = \<lparr> skb_addr = 0, skb_family = AF_INET, skb_ifindex = 1, skb_load = (\<lambda>off n. Some (replicate n 6)),
         skb_uid = 0, skb_dev_name = None \<rparr>
   in fst (ct_map_lookup_entry 0 Map.empty skb t CT_INGRESS True) = CT_NEW \<and>
      fst (ct_map_lookup_entry 0 (snd (ct_create_entry 0 True Map.empty t CT_INGRESS)) skb (swap_ct t) CT_EGRESS True) \<noteq> CT_NEW"
  unfolding Let_def using conntrack_lookup_exact [of 0 Map.empty] by blast



text \<open>The collector deletes exactly the listed entries whose lifetime lies before the current second, as far as
  the system calls succeed, and keeps every other entry unchanged.\<close>

theorem ConntrackGcTask_exact:
  "ConntrackGcTask ro dl clock keys ct k =
     (case (clock, ct k) of
        (Some now, Some v) \<Rightarrow> if k \<in> set keys \<and> ro k \<and> unat (lifetime v) < now \<and> dl k then None else Some v
      | _ \<Rightarrow> ct k)"
  by (auto simp: ConntrackGcTask_def gc_keys split: option.splits)



text \<open>C34: A TCP packet with the reset flag removes the tracked connection, from whichever side it comes and whatever
  flags the connection has seen.\<close>

theorem conntrack_reset_removes:
  assumes "ct t = Some e" "is_l4_protocol skb (get_l3_nhoff skb) IPPROTO_TCP"
    and "load_tcp_flags skb (get_l4_nhoff skb) = Some fl" "tcp_value fl AND TCP_FLAG_RST \<noteq> 0"
  shows "ct_lookup_entry ktime ct skb t dir = (CT_ESTABLISHED, ct(t := None))"
proof -
  have "tcp_value fl AND (TCP_FLAG_RST OR TCP_FLAG_FIN) \<noteq> 0"
    using assms(4) by (simp add: bit.conj_disj_distrib or_eq_0_iff)
  then have "get_tcp_conn_action fl = CT_ACTION_CLOSE" by (simp add: get_tcp_conn_action_def)
  with assms show ?thesis by (simp add: ct_lookup_entry_def Let_def is_conn_alive_def)
qed

theorem conntrack_reset_removes_witness:
  "let t = \<lparr> c_uid = 100, c_family = AF_INET, c_protocol = IPPROTO_TCP, c_saddr = 1, c_daddr = 2,
         c_saddr6 = [], c_daddr6 = [], c_sport = 80, c_dport = 4096 \<rparr>;
       skb = \<lparr> skb_addr = 0, skb_family = AF_INET, skb_ifindex = 2, skb_load = (\<lambda>off n. Some (replicate n 6)),
         skb_uid = 0, skb_dev_name = None \<rparr>
   in snd (ct_lookup_entry 0 [t \<mapsto> zero_entry] skb t CT_EGRESS) t = None"
proof -
  define skb where "skb = \<lparr> skb_addr = 0, skb_family = AF_INET, skb_ifindex = 2, skb_load = (\<lambda>off n. Some (replicate n 6)),
         skb_uid = 0, skb_dev_name = None \<rparr>"
  define fl where "fl = \<lparr> upper_bits = 6, lower_bits = 6 :: u8 \<rparr>"
  have "is_l4_protocol skb (get_l3_nhoff skb) IPPROTO_TCP"
    by (simp add: is_l4_protocol_def is_ipv4_format_skb_def skb_def loaded_def SIZEOF_IPHDR_def IPPROTO_TCP_def)
  moreover have "load_tcp_flags skb (get_l4_nhoff skb) = Some fl"
    by (simp add: load_tcp_flags_def skb_def fl_def numeral_2_eq_2)
  moreover have "tcp_value fl AND TCP_FLAG_RST \<noteq> 0" by (simp add: tcp_value_def fl_def TCP_FLAG_RST_def)
  ultimately show ?thesis
    using conntrack_reset_removes [of "[t \<mapsto> zero_entry]" t zero_entry skb fl 0 CT_EGRESS for t] by (simp add: Let_def skb_def)
qed

end
