(* ===== verification/Fw_Match.thy ===== *)
theory Fw_Match
  imports Fw_Conntrack
begin

text \<open>
  The rule matcher of \<^verbatim>\<open>netfirewall_match.h\<close> on the maps declared in \<^verbatim>\<open>netfirewall_map.h\<close>. A packet tuple is
  looked up in one map per attribute and the bitmaps found are intersected (\<^verbatim>\<open>match_action_key\<close>);
  \<^verbatim>\<open>match_action\<close> resolves conflicts between matched rules with the default action of the user. The main
  results: on the maps that \<^verbatim>\<open>BitmapManager\<close> builds from a rule list the intersection is exactly the set of
  rules that match the packet, and the verdict is the one the rules prescribe.
\<close>

subsection \<open>State\<close>

text \<open>The maps of one direction (\<^verbatim>\<open>in_*_map\<close> or \<^verbatim>\<open>out_*_map\<close>). Longest prefix tries are lists of entries.\<close>

record fw_maps =
  saddr_map :: "(Ip4Data \<times> bitmap) list"
  saddr6_map :: "(Ip6Data \<times> bitmap) list"
  daddr_map :: "(Ip4Data \<times> bitmap) list"
  daddr6_map :: "(Ip6Data \<times> bitmap) list"
  sport_map :: "(portRule \<times> bitmap) list"
  dport_map :: "(portRule \<times> bitmap) list"
  proto_map :: "u8 bpf_map"
  action_map :: "u8 bpf_map"
  appuid_map :: "u32 bpf_map"
  uid_map :: "u32 bpf_map"
  iface_map :: "string bpf_map"

datatype sk_action = SK_DROP | SK_PASS

record defalut_action_value =
  inaction :: sk_action
  outaction :: sk_action

record domain_value =
  dv_appuid :: u32
  dv_uid :: u32

record domain_hash_key =
  dk_prefixlen :: nat
  dk_uid :: u32
  dk_appuid :: u32
  dk_data :: "u8 list"

record intercept_event =
  ev_tuple :: match_tuple
  ev_domain :: "domain_hash_key option"

text \<open>The two ways a connection is torn down when its packet is dropped.\<close>

datatype tcp_reset = TCP_SEND_RESET | SOCK_DESTROY

text \<open>The maps that both programs share. The domain caches only ever hold full-length prefixes, so they are maps
  from addresses. \<^verbatim>\<open>fw_events\<close> is what was submitted to the ring buffer, \<^verbatim>\<open>fw_resets\<close> the resets issued.\<close>

record fw_state =
  in_maps :: fw_maps
  out_maps :: fw_maps
  default_action :: "u32 \<Rightarrow> defalut_action_value option"
  current_uid :: "u32 option"
  domain_ipv4 :: "u32 \<Rightarrow> domain_value option"
  domain_ipv6 :: "in6_addr \<Rightarrow> domain_value option"
  loop_ipv4 :: "(Ip4Data \<times> u8) list"
  loop_ipv6 :: "(Ip6Data \<times> u8) list"
  domain_pass :: "(domain_hash_key \<times> u8) list"
  domain_deny :: "(domain_hash_key \<times> u8) list"
  domain_data :: "u64 \<Rightarrow> domain_hash_key option"
  fw_ct :: ct_map
  fw_events :: "intercept_event list"
  fw_resets :: "tcp_reset list"

text \<open>The lookup functions of the kernel's longest prefix match maps, one per key and value type.\<close>

record kernel_lookup =
  lk4 :: "(Ip4Data, u32, bitmap) lpm_lookup"
  lk6 :: "(Ip6Data, in6_addr, bitmap) lpm_lookup"
  lkport :: "(portRule, u16, bitmap) lpm_lookup"
  lk4_loop :: "(Ip4Data, u32, u8) lpm_lookup"
  lk6_loop :: "(Ip6Data, in6_addr, u8) lpm_lookup"
  lkdomain :: "(domain_hash_key, domain_hash_key, u8) lpm_lookup"

definition GET_MAP :: "fw_state \<Rightarrow> bool \<Rightarrow> fw_maps" where
  "GET_MAP st ingress = (if ingress then in_maps st else out_maps st)"

subsection \<open>Matching\<close>

definition lookup_map :: "('a \<Rightarrow> bitmap option) \<Rightarrow> 'a \<Rightarrow> 'a \<Rightarrow> bitmap option" where
  "lookup_map look key other_key = (case look key of None \<Rightarrow> look other_key | Some b \<Rightarrow> Some b)"

definition and_result :: "bitmap \<Rightarrow> bitmap option \<Rightarrow> bitmap" where
  "and_result key result = (case result of None \<Rightarrow> key | Some b \<Rightarrow> bitmap_and key b)"

definition PROTOCOL_SAT_EXPAK :: u8 where "PROTOCOL_SAT_EXPAK = 64"

definition match_loopback :: "kernel_lookup \<Rightarrow> fw_state \<Rightarrow> match_tuple \<Rightarrow> bool" where
  "match_loopback kl st t =
     (if t_protocol t = PROTOCOL_SAT_EXPAK \<and> t_ifindex t = 1 then True
      else let result =
        (if t_family t = AF_INET
         then (case lk4_loop kl (loop_ipv4 st) (ntohl (t_saddr t)) of None \<Rightarrow> None
               | Some _ \<Rightarrow> lk4_loop kl (loop_ipv4 st) (ntohl (t_daddr t)))
         else (case lk6_loop kl (loop_ipv6 st) (t_saddr6 t) of None \<Rightarrow> None
               | Some _ \<Rightarrow> lk6_loop kl (loop_ipv6 st) (t_daddr6 t)))
      in result \<noteq> None)"

definition match_addrs :: "kernel_lookup \<Rightarrow> fw_state \<Rightarrow> match_tuple \<Rightarrow> bitmap \<Rightarrow> bitmap" where
  "match_addrs kl st t key =
     (let maps = GET_MAP st (t_dir t = INGRESS)
      in if t_family t = AF_INET
         then let key1 = and_result key (lookup_map (lk4 kl (saddr_map maps)) (ntohl (t_saddr t)) OTHER_IP4_KEY)
              in and_result key1 (lookup_map (lk4 kl (daddr_map maps)) (ntohl (t_daddr t)) OTHER_IP4_KEY)
         else let key1 = and_result key (lookup_map (lk6 kl (saddr6_map maps)) (t_saddr6 t) (replicate 16 0xff))
              in and_result key1 (lookup_map (lk6 kl (daddr6_map maps)) (t_daddr6 t) (replicate 16 0xff)))"

definition match_ports :: "kernel_lookup \<Rightarrow> fw_state \<Rightarrow> match_tuple \<Rightarrow> bitmap \<Rightarrow> bitmap" where
  "match_ports kl st t key =
     (let maps = GET_MAP st (t_dir t = INGRESS);
          key1 = and_result key (lookup_map (lkport kl (sport_map maps)) (ntohs (t_sport t)) (ntohs OTHER_PORT_KEY))
      in and_result key1 (lookup_map (lkport kl (dport_map maps)) (ntohs (t_dport t)) (ntohs OTHER_PORT_KEY)))"

definition match_protocol :: "fw_state \<Rightarrow> match_tuple \<Rightarrow> bitmap \<Rightarrow> bitmap" where
  "match_protocol st t key =
     and_result key (lookup_map (proto_map (GET_MAP st (t_dir t = INGRESS))) (t_protocol t) OTHER_PROTO_KEY)"

definition match_appuid :: "fw_state \<Rightarrow> match_tuple \<Rightarrow> bitmap \<Rightarrow> bitmap" where
  "match_appuid st t key =
     and_result key (lookup_map (appuid_map (GET_MAP st (t_dir t = INGRESS))) (t_appuid t) OTHER_APPUID_KEY)"

definition match_uid :: "fw_state \<Rightarrow> match_tuple \<Rightarrow> bitmap \<Rightarrow> bitmap" where
  "match_uid st t key =
     and_result key (lookup_map (uid_map (GET_MAP st (t_dir t = INGRESS))) (t_uid t) OTHER_UID_KEY)"

definition match_interface :: "fw_state \<Rightarrow> sk_buff \<Rightarrow> match_tuple \<Rightarrow> bitmap \<Rightarrow> bitmap option" where
  "match_interface st skb t key =
     (case skb_dev_name skb of None \<Rightarrow> None
      | Some name \<Rightarrow> Some (and_result key (lookup_map (iface_map (GET_MAP st (t_dir t = INGRESS))) name [])))"

definition match_action_key :: "kernel_lookup \<Rightarrow> fw_state \<Rightarrow> sk_buff \<Rightarrow> match_tuple \<Rightarrow> bitmap option" where
  "match_action_key kl st skb t =
     (let key0 = bitmap_full;
          key1 = match_addrs kl st t key0;
          key2 = match_protocol st t key1;
          key3 = match_ports kl st t key2;
          key4 = match_appuid st t key3;
          key5 = match_uid st t key4
      in match_interface st skb t key5)"

definition MatchDomain :: "fw_state \<Rightarrow> match_tuple \<Rightarrow> bool" where
  "MatchDomain st t =
     (case (if t_family t = AF_INET then domain_ipv4 st (ntohl (t_saddr t)) else domain_ipv6 st (t_saddr6 t)) of
        None \<Rightarrow> False
      | Some r \<Rightarrow> t_uid t = dv_uid r \<and> (t_appuid t = dv_appuid r \<or> dv_appuid r = 0))"

definition match_action :: "fw_state \<Rightarrow> match_tuple \<Rightarrow> bitmap \<Rightarrow> sk_action" where
  "match_action st t key =
     (let ingress = (t_dir t = INGRESS);
          sk_act = (case default_action st (t_uid t) of None \<Rightarrow> SK_PASS
                    | Some v \<Rightarrow> if ingress then inaction v else outaction v)
      in case action_map (GET_MAP st ingress) 1 of
           Some action_bitmap \<Rightarrow>
             if bitmap_positive key then
               (if sk_act = SK_DROP
                then (let key' = bitmap_and key action_bitmap
                      in if \<not> bitmap_positive key' \<or> MatchDomain st t then SK_PASS else sk_act)
                else (let key' = bitmap_and_inv key action_bitmap
                      in if \<not> bitmap_positive key' \<and> \<not> MatchDomain st t then SK_DROP else sk_act))
             else if MatchDomain st t then SK_PASS else sk_act
         | None \<Rightarrow> if MatchDomain st t then SK_PASS else sk_act)"

subsection \<open>What a rule says about a packet\<close>

definition rule_matches4 :: "NetFirewallIpRule \<Rightarrow> match_tuple \<Rightarrow> string \<Rightarrow> bool" where
  "rule_matches4 r t dev \<longleftrightarrow>
     (remoteIps r = [] \<or> (\<exists>item\<in>set (remoteIps r). item_in4 item (ntohl (t_saddr t)))) \<and>
     (localIps r = [] \<or> (\<exists>item\<in>set (localIps r). item_in4 item (ntohl (t_daddr t)))) \<and>
     (protocol r = 0 \<or> t_protocol t = of_nat (protocol r)) \<and>
     (IsNotNeedPort (protocol r) \<or>
       (remotePorts r = [] \<or> (\<exists>item\<in>set (remotePorts r). port_item_in item (ntohs (t_sport t)))) \<and>
       (localPorts r = [] \<or> (\<exists>item\<in>set (localPorts r). port_item_in item (ntohs (t_dport t))))) \<and>
     (appUid r < 1 \<or> t_appuid t = of_int (appUid r)) \<and>
     (userId r < 1 \<or> t_uid t = of_int (userId r)) \<and>
     (rule_interface r = [] \<or> rule_interface r = dev)"

text \<open>No rule names a value that a map uses as its fallback key.\<close>

definition no_fallback :: "NetFirewallIpRule \<Rightarrow> bool" where
  "no_fallback r \<longleftrightarrow> \<not> (\<exists>item\<in>set (remoteIps r). item_in4 item OTHER_IP4_KEY) \<and>
     \<not> (\<exists>item\<in>set (localIps r). item_in4 item OTHER_IP4_KEY) \<and>
     \<not> (\<exists>item\<in>set (remotePorts r). port_item_in item OTHER_PORT_KEY) \<and>
     \<not> (\<exists>item\<in>set (localPorts r). port_item_in item OTHER_PORT_KEY) \<and>
     (protocol r \<noteq> 0 \<longrightarrow> of_nat (protocol r) \<noteq> OTHER_PROTO_KEY) \<and>
     (appUid r > 0 \<longrightarrow> of_int (appUid r) \<noteq> OTHER_APPUID_KEY) \<and>
     (userId r > 0 \<longrightarrow> of_int (userId r) \<noteq> OTHER_UID_KEY)"

lemma idxs_empty: "list_all (\<lambda>r. \<not> P r) rs \<Longrightarrow> idxs P index rs = {}"
  by (induction rs arbitrary: index) auto

definition fallback_free :: "views \<Rightarrow> bool" where
  "fallback_free V \<longleftrightarrow> v_src V OTHER_IP4_KEY = {} \<and> v_dst V OTHER_IP4_KEY = {} \<and> no_last_port V \<and>
     v_proto V OTHER_PROTO_KEY = {} \<and> v_app V OTHER_APPUID_KEY = {} \<and> v_uid V OTHER_UID_KEY = {} \<and> v_iface V [] = {}"

lemma no_fallback_views:
  assumes "list_all no_fallback rs"
  shows "fallback_free (rule_views rs 0)"
  unfolding fallback_free_def no_last_port_def rule_views_def views.simps
  using assms by (intro conjI idxs_empty; auto simp: list_all_iff no_fallback_def)

subsection \<open>Matching against maps that answer for a rule list\<close>

definition maps_answer :: "kernel_lookup \<Rightarrow> fw_maps \<Rightarrow> views \<Rightarrow> open_rules \<Rightarrow> bool" where
  "maps_answer kl maps V N \<longleftrightarrow>
     serves (lk4 kl (saddr_map maps)) OTHER_IP4_KEY (v_src V) (o_src N) \<and>
     serves (lk4 kl (daddr_map maps)) OTHER_IP4_KEY (v_dst V) (o_dst N) \<and>
     serves (lkport kl (sport_map maps)) OTHER_PORT_KEY (v_sport V) (o_sport N) \<and>
     serves (lkport kl (dport_map maps)) OTHER_PORT_KEY (v_dport V) (o_dport N) \<and>
     serves (proto_map maps) OTHER_PROTO_KEY (v_proto V) (o_proto N) \<and>
     serves (appuid_map maps) OTHER_APPUID_KEY (v_app V) (o_app N) \<and>
     serves (uid_map maps) OTHER_UID_KEY (v_uid V) (o_uid N) \<and>
     serves (iface_map maps) [] (v_iface V) (o_iface N) \<and>
     serves (action_map maps) 1 (v_act V) {}"

lemma and_result_serves:
  assumes "serves look other F N" "F other = {}"
  shows "bits (and_result key (lookup_map look x other)) = bits key \<inter> (F x \<union> N)"
  using assms by (auto simp: serves_iff and_result_def lookup_map_def split: option.splits)

lemma other_port_swap: "ntohs OTHER_PORT_KEY = OTHER_PORT_KEY"
  by (simp add: OTHER_PORT_KEY_def bswap16_def)

lemma match_action_key_bits:
  assumes maps: "maps_answer kl (GET_MAP st (t_dir t = INGRESS)) V N" and V: "fallback_free V"
    and t: "t_family t = AF_INET" and dev: "skb_dev_name skb = Some dev"
  shows "\<exists>key. match_action_key kl st skb t = Some key \<and>
    bits key = {..<BITMAP_BIT_COUNT} \<inter> (v_src V (ntohl (t_saddr t)) \<union> o_src N) \<inter> (v_dst V (ntohl (t_daddr t)) \<union> o_dst N) \<inter>
      (v_proto V (t_protocol t) \<union> o_proto N) \<inter> (v_sport V (ntohs (t_sport t)) \<union> o_sport N) \<inter>
      (v_dport V (ntohs (t_dport t)) \<union> o_dport N) \<inter> (v_app V (t_appuid t) \<union> o_app N) \<inter> (v_uid V (t_uid t) \<union> o_uid N) \<inter>
      (v_iface V dev \<union> o_iface N)"
proof -
  note s = maps [unfolded maps_answer_def] and f = V [unfolded fallback_free_def no_last_port_def]
  define maps' where "maps' = GET_MAP st (t_dir t = INGRESS)"
  have "bits (and_result key (lookup_map (lk4 kl (saddr_map maps')) x OTHER_IP4_KEY)) = bits key \<inter> (v_src V x \<union> o_src N)"
    "bits (and_result key (lookup_map (lk4 kl (daddr_map maps')) x OTHER_IP4_KEY)) = bits key \<inter> (v_dst V x \<union> o_dst N)"
    "bits (and_result key (lookup_map (lkport kl (sport_map maps')) p OTHER_PORT_KEY)) = bits key \<inter> (v_sport V p \<union> o_sport N)"
    "bits (and_result key (lookup_map (lkport kl (dport_map maps')) p OTHER_PORT_KEY)) = bits key \<inter> (v_dport V p \<union> o_dport N)"
    "bits (and_result key (lookup_map (proto_map maps') k OTHER_PROTO_KEY)) = bits key \<inter> (v_proto V k \<union> o_proto N)"
    "bits (and_result key (lookup_map (appuid_map maps') x OTHER_APPUID_KEY)) = bits key \<inter> (v_app V x \<union> o_app N)"
    "bits (and_result key (lookup_map (uid_map maps') x OTHER_UID_KEY)) = bits key \<inter> (v_uid V x \<union> o_uid N)"
    "bits (and_result key (lookup_map (iface_map maps') d [])) = bits key \<inter> (v_iface V d \<union> o_iface N)"
    for key x p k d unfolding maps'_def using s f by (simp_all add: and_result_serves [where F = "v_src V" and N = "o_src N"]
      and_result_serves [where F = "v_dst V" and N = "o_dst N"] and_result_serves [where F = "v_sport V" and N = "o_sport N"]
      and_result_serves [where F = "v_dport V" and N = "o_dport N"] and_result_serves [where F = "v_proto V" and N = "o_proto N"]
      and_result_serves [where F = "v_app V" and N = "o_app N"] and_result_serves [where F = "v_uid V" and N = "o_uid N"]
      and_result_serves [where F = "v_iface V" and N = "o_iface N"])
  then show ?thesis
    unfolding match_action_key_def match_interface_def match_uid_def match_appuid_def match_ports_def match_protocol_def
      match_addrs_def Let_def maps'_def [symmetric] by (simp add: t dev other_port_swap)
qed

lemma idxs_Un: "idxs P 0 rs \<union> idxs Q 0 rs = {i. i < length rs \<and> (P (rs ! i) \<or> Q (rs ! i))}"
  by (auto simp: idxs_iff)

lemma rule_sets:
  "v_src (rule_views rs 0) x \<union> o_src (rules_open rs) =
     {i. i < length rs \<and> (remoteIps (rs ! i) = [] \<or> (\<exists>t\<in>set (remoteIps (rs ! i)). item_in4 t x))}"
  "v_dst (rule_views rs 0) x \<union> o_dst (rules_open rs) =
     {i. i < length rs \<and> (localIps (rs ! i) = [] \<or> (\<exists>t\<in>set (localIps (rs ! i)). item_in4 t x))}"
  "v_proto (rule_views rs 0) k \<union> o_proto (rules_open rs) =
     {i. i < length rs \<and> (protocol (rs ! i) = 0 \<or> k = of_nat (protocol (rs ! i)))}"
  "v_sport (rule_views rs 0) p \<union> o_sport (rules_open rs) =
     {i. i < length rs \<and> (IsNotNeedPort (protocol (rs ! i)) \<or> remotePorts (rs ! i) = [] \<or>
        (\<exists>t\<in>set (remotePorts (rs ! i)). port_item_in t p))}"
  "v_dport (rule_views rs 0) p \<union> o_dport (rules_open rs) =
     {i. i < length rs \<and> (IsNotNeedPort (protocol (rs ! i)) \<or> localPorts (rs ! i) = [] \<or>
        (\<exists>t\<in>set (localPorts (rs ! i)). port_item_in t p))}"
  "v_app (rule_views rs 0) u \<union> o_app (rules_open rs) =
     {i. i < length rs \<and> (appUid (rs ! i) < 1 \<or> u = of_int (appUid (rs ! i)))}"
  "v_uid (rule_views rs 0) u \<union> o_uid (rules_open rs) =
     {i. i < length rs \<and> (userId (rs ! i) < 1 \<or> u = of_int (userId (rs ! i)))}"
  "v_iface (rule_views rs 0) d \<union> o_iface (rules_open rs) =
     {i. i < length rs \<and> (rule_interface (rs ! i) = [] \<or> rule_interface (rs ! i) = d)}"
  unfolding rule_views_def rules_open_def views.simps open_rules.simps idxs_Un by (intro Collect_cong; auto)+

lemma match_action_key_rules:
  assumes maps: "maps_answer kl (GET_MAP st (t_dir t = INGRESS)) (rule_views rs 0) (rules_open rs)"
    and rs: "list_all no_fallback rs" "length rs \<le> BITMAP_BIT_COUNT"
    and t: "t_family t = AF_INET" and dev: "skb_dev_name skb = Some dev"
  shows "\<exists>key. match_action_key kl st skb t = Some key \<and> bits key = {i. i < length rs \<and> rule_matches4 (rs ! i) t dev}"
proof -
  obtain key where key: "match_action_key kl st skb t = Some key" and b: "bits key = {..<BITMAP_BIT_COUNT} \<inter>
      (v_src (rule_views rs 0) (ntohl (t_saddr t)) \<union> o_src (rules_open rs)) \<inter> (v_dst (rule_views rs 0) (ntohl (t_daddr t)) \<union> o_dst (rules_open rs)) \<inter>
      (v_proto (rule_views rs 0) (t_protocol t) \<union> o_proto (rules_open rs)) \<inter> (v_sport (rule_views rs 0) (ntohs (t_sport t)) \<union> o_sport (rules_open rs)) \<inter>
      (v_dport (rule_views rs 0) (ntohs (t_dport t)) \<union> o_dport (rules_open rs)) \<inter> (v_app (rule_views rs 0) (t_appuid t) \<union> o_app (rules_open rs)) \<inter>
      (v_uid (rule_views rs 0) (t_uid t) \<union> o_uid (rules_open rs)) \<inter> (v_iface (rule_views rs 0) dev \<union> o_iface (rules_open rs))"
    using match_action_key_bits [OF maps no_fallback_views [OF rs(1)] t dev] by blast
  have "i \<in> bits key \<longleftrightarrow> i < length rs \<and> rule_matches4 (rs ! i) t dev" for i
  proof (cases "i < length rs")
    case True
    then have "i < BITMAP_BIT_COUNT" using rs(2) by simp
    with True show ?thesis
      unfolding b rule_sets rule_matches4_def Int_iff mem_Collect_eq lessThan_iff by (simp only: simp_thms) blast
  next
    case False
    then show ?thesis unfolding b rule_sets by simp
  qed
  then have "bits key = {i. i < length rs \<and> rule_matches4 (rs ! i) t dev}" by blast
  with key show ?thesis by blast
qed

subsection \<open>The verdict of a rule list\<close>

definition default_for :: "fw_state \<Rightarrow> match_tuple \<Rightarrow> sk_action" where
  "default_for st t = (case default_action st (t_uid t) of None \<Rightarrow> SK_PASS
     | Some v \<Rightarrow> if t_dir t = INGRESS then inaction v else outaction v)"

text \<open>With default deny one matching rule that does not allow is enough to drop; with default allow all matching
  rules must agree not to allow. A known domain address overrides both.\<close>

definition verdict :: "sk_action \<Rightarrow> bool \<Rightarrow> NetFirewallIpRule list \<Rightarrow> sk_action" where
  "verdict def_act domain matched =
     (if domain then SK_PASS
      else if matched = [] then def_act
      else if def_act = SK_DROP then (if list_ex (\<lambda>r. ruleAction r \<noteq> RULE_ALLOW) matched then SK_DROP else SK_PASS)
      else (if list_all (\<lambda>r. ruleAction r \<noteq> RULE_ALLOW) matched then SK_DROP else SK_PASS))"

lemma deny_bits: "v_act (rule_views rs 0) 1 = {i. i < length rs \<and> ruleAction (rs ! i) \<noteq> RULE_ALLOW}"
  by (auto simp: rule_views_def idxs_iff)

lemma match_action_verdict:
  assumes maps: "maps_answer kl (GET_MAP st (t_dir t = INGRESS)) (rule_views rs 0) (rules_open rs)"
    and key: "bits key = {i. i < length rs \<and> P (rs ! i)}"
  shows "match_action st t key = verdict (default_for st t) (MatchDomain st t) (filter P rs)"
proof -
  from maps have "serves (action_map (GET_MAP st (t_dir t = INGRESS))) 1 (v_act (rule_views rs 0)) {}"
    by (simp add: maps_answer_def)
  then obtain ab where ab: "action_map (GET_MAP st (t_dir t = INGRESS)) 1 = Some ab"
    "bits ab = {i. i < length rs \<and> ruleAction (rs ! i) \<noteq> RULE_ALLOW}"
    by (auto simp: serves_iff deny_bits)
  have pos: "bitmap_positive key \<longleftrightarrow> filter P rs \<noteq> []"
    unfolding bm.positive_iff key filter_empty_conv by (metis (mono_tags, lifting) empty_Collect_eq in_set_conv_nth)
  have deny: "bitmap_positive (bitmap_and key ab) \<longleftrightarrow> list_ex (\<lambda>r. ruleAction r \<noteq> RULE_ALLOW) (filter P rs)"
    unfolding bm.positive_and key ab(2) list_ex_iff set_filter by (auto simp: Bex_def in_set_conv_nth)
  have allow: "bitmap_positive (bitmap_and_inv key ab) \<longleftrightarrow> \<not> list_all (\<lambda>r. ruleAction r \<noteq> RULE_ALLOW) (filter P rs)"
    unfolding bm.positive_and_inv key ab(2) list_all_iff set_filter by (auto simp: Bex_def Ball_def in_set_conv_nth)
  have two: "a = SK_DROP \<longleftrightarrow> a \<noteq> SK_PASS" for a by (cases a) simp_all
  show ?thesis
    unfolding match_action_def verdict_def Let_def default_for_def [symmetric]
    by (simp add: ab(1) pos deny allow two)
qed

end
