(* ===== verification/Fw_Domain.thy ===== *)
theory Fw_Domain
  imports Fw_Match "HOL-Library.Sublist"
begin

text \<open>
  Domain rules. The kernel side is \<^verbatim>\<open>netfirewall_domain.h\<close>: DNS packets are parsed, the queried name is turned into
  a key of the pass and deny tries, and addresses from answers to allowed names enter the domain cache. The user
  side is \<^verbatim>\<open>GetDomainHashKey\<close> and \<^verbatim>\<open>DecodeDomainFromKey\<close> of \<^verbatim>\<open>bpf_netfirewall.cpp\<close>, which build the
  keys of the rules and read them back for the interception records. The results: both sides compute the same key for
  a name, decoding a key gives the name back, and a rule key covers a queried name exactly when its labels are the
  last labels of the name.
\<close>

subsection \<open>Constants\<close>

definition DNS_DOMAIN_LEN :: nat where "DNS_DOMAIN_LEN = 128"
definition DNS_DOMAIN_LEN_MIN :: nat where "DNS_DOMAIN_LEN_MIN = 1"
definition DNS_ANSWER_CNT :: nat where "DNS_ANSWER_CNT = 32"
definition DNS_PORT :: u16 where "DNS_PORT = 53"
definition DNS_QRS_IPV4_TYPE :: u16 where "DNS_QRS_IPV4_TYPE = 1"
definition DNS_QRS_IPV4_LEN :: u16 where "DNS_QRS_IPV4_LEN = 4"
definition DNS_QRS_IPV6_TYPE :: u16 where "DNS_QRS_IPV6_TYPE = 28"
definition DNS_QRS_IPV6_LEN :: u16 where "DNS_QRS_IPV6_LEN = 16"
definition SIZEOF_DNSHDR :: nat where "SIZEOF_DNSHDR = 12"

definition empty_key :: domain_hash_key where
  "empty_key = \<lparr> dk_prefixlen = 0, dk_uid = 0, dk_appuid = 0, dk_data = replicate DNS_DOMAIN_LEN 0 \<rparr>"

subsection \<open>Kernel side\<close>

definition get_current_uid :: "fw_state \<Rightarrow> sk_buff \<Rightarrow> u32" where
  "get_current_uid st skb = get_user_id (current_uid st) (skb_uid skb)"

text \<open>The address argument is the payload of an answer: four bytes for IPv4, sixteen for IPv6. \<^verbatim>\<open>room\<close> says whether
  the kernel accepts the entry.\<close>

definition add_domain_cache4 :: "bool \<Rightarrow> sk_buff \<Rightarrow> u32 \<Rightarrow> u32 \<Rightarrow> fw_state \<Rightarrow> fw_state" where
  "add_domain_cache4 room skb addr appuid st =
     (let v = \<lparr> dv_appuid = (if appuid = 0 then 0 else skb_uid skb), dv_uid = get_current_uid st skb \<rparr>
      in if room then st\<lparr> domain_ipv4 := (domain_ipv4 st)(ntohl addr \<mapsto> v) \<rparr> else st)"

definition add_domain_cache6 :: "bool \<Rightarrow> sk_buff \<Rightarrow> in6_addr \<Rightarrow> u32 \<Rightarrow> fw_state \<Rightarrow> fw_state" where
  "add_domain_cache6 room skb addr appuid st =
     (let v = \<lparr> dv_appuid = (if appuid = 0 then 0 else skb_uid skb), dv_uid = get_current_uid st skb \<rparr>
      in if room then st\<lparr> domain_ipv6 := (domain_ipv6 st)(addr \<mapsto> v) \<rparr> else st)"

text \<open>The reading loop: the buffer, the offset and the index of the zero byte, or \<^verbatim>\<open>None\<close> when the loop runs to its
  bound. The offset is a byte that wraps around.\<close>

function parse_name_loop :: "sk_buff \<Rightarrow> u8 \<Rightarrow> nat \<Rightarrow> u8 list \<Rightarrow> (u8 list \<times> u8 \<times> nat) option" where
  "parse_name_loop skb offset i key_data =
     (if i < DNS_DOMAIN_LEN
      then let b = loaded skb (unat offset) 1 ! 0; key_data' = key_data[i := b]
           in if b = 0 then Some (key_data', offset + 1, i)
              else parse_name_loop skb (offset + 1) (i + 1) key_data'
      else None)"
  by pat_completeness auto
termination by (relation "measure (\<lambda>(skb, offset, i, key_data). DNS_DOMAIN_LEN - i)") auto

declare parse_name_loop.simps [simp del]

text \<open>The loop that reverses the name in place, with its two indices.\<close>

function reverse_loop :: "nat \<Rightarrow> nat \<Rightarrow> 'a list \<Rightarrow> 'a list" where
  "reverse_loop start last_i xs =
     (if start < last_i then reverse_loop (start + 1) (last_i - 1) (xs[start := xs ! last_i, last_i := xs ! start]) else xs)"
  by pat_completeness auto
termination by (relation "measure (\<lambda>(start, last_i, xs). last_i - start)") auto

declare reverse_loop.simps [simp del]

text \<open>\<^verbatim>\<open>None\<close> is the return value 0; otherwise the new offset, the key data and the key length.\<close>

definition parse_queries_name :: "sk_buff \<Rightarrow> u16 \<Rightarrow> (u16 \<times> u8 list \<times> nat) option" where
  "parse_queries_name skb dns_qry_off =
     (case parse_name_loop skb (ucast dns_qry_off) 0 (replicate DNS_DOMAIN_LEN 0) of
        None \<Rightarrow> None
      | Some (key_data, offset, key_len) \<Rightarrow>
          let data = (if key_len > DNS_DOMAIN_LEN_MIN \<and> key_len < DNS_DOMAIN_LEN
                      then reverse_loop 0 (key_len - 1) key_data else key_data)
          in if offset = 0 then None else Some (ucast offset, data, key_len))"

definition parse_queries :: "sk_buff \<Rightarrow> u16 \<Rightarrow> (u16 \<times> u8 list \<times> nat) option" where
  "parse_queries skb dns_qry_off =
     (case parse_queries_name skb dns_qry_off of None \<Rightarrow> None
      | Some (offset, data, key_len) \<Rightarrow> Some (offset + 4, data, key_len))"

definition parse_answers :: "bool \<Rightarrow> sk_buff \<Rightarrow> u16 \<Rightarrow> bool \<Rightarrow> u32 \<Rightarrow> fw_state \<Rightarrow> u16 \<times> fw_state" where
  "parse_answers room skb dns_qry_off save_ip appuid st =
     (let offset1 = dns_qry_off + 2;
          atype = ntohs (word16_at (loaded skb (unat offset1) 2) 0);
          offset2 = offset1 + 2 + 2 + 4;
          str_len = ntohs (word16_at (loaded skb (unat offset2) 2) 0);
          offset3 = offset2 + 2
      in if str_len = 0 then (offset3, st)
         else let st' =
           (if atype = DNS_QRS_IPV4_TYPE \<and> str_len = DNS_QRS_IPV4_LEN
            then (if save_ip then add_domain_cache4 room skb (word32_at (loaded skb (unat offset3) 4) 0) appuid st else st)
            else if atype = DNS_QRS_IPV6_TYPE \<and> str_len = DNS_QRS_IPV6_LEN
            then (if save_ip then add_domain_cache6 room skb (bytes_at (loaded skb (unat offset3) 16) 0) appuid st else st)
            else st)
         in (offset3 + str_len, st'))"

definition match_domain_value :: "fw_state \<Rightarrow> sk_buff \<Rightarrow> domain_value \<Rightarrow> bool" where
  "match_domain_value st skb v \<longleftrightarrow>
     dv_uid v = get_current_uid st skb \<and> (dv_appuid v = skb_uid skb \<or> dv_appuid v = 0)"

text \<open>The four lookups that queries and responses share: exact application first, then the wildcard application 0.
  The result: denied, allowed, allowed by the exact key; the last denied key is remembered for the event.\<close>

definition domain_lookups ::
  "kernel_lookup \<Rightarrow> sk_buff \<Rightarrow> domain_hash_key \<Rightarrow> fw_state \<Rightarrow> (bool \<times> bool \<times> bool) \<times> fw_state" where
  "domain_lookups kl skb key st =
     (let allow_exact = (lkdomain kl (domain_pass st) key = Some 1);
          deny_exact = (lkdomain kl (domain_deny st) key = Some 1);
          st1 = (if deny_exact then st\<lparr> domain_data := (domain_data st)(skb_addr skb \<mapsto> key) \<rparr> else st);
          key0 = key\<lparr> dk_appuid := 0 \<rparr>;
          allow_wild = (lkdomain kl (domain_pass st1) key0 = Some 1);
          deny_wild = (lkdomain kl (domain_deny st1) key0 = Some 1);
          st2 = (if deny_wild then st1\<lparr> domain_data := (domain_data st1)(skb_addr skb \<mapsto> key0) \<rparr> else st1)
      in ((deny_exact \<or> deny_wild, allow_exact \<or> allow_wild, allow_exact), st2))"

definition query_key :: "fw_state \<Rightarrow> sk_buff \<Rightarrow> u8 list \<Rightarrow> nat \<Rightarrow> domain_hash_key" where
  "query_key st skb data key_len =
     \<lparr> dk_prefixlen = (key_len + 4 + 4) * 8, dk_uid = get_current_uid st skb, dk_appuid = skb_uid skb, dk_data = data \<rparr>"

text \<open>\<^verbatim>\<open>defaultactionrst\<close> is the default action of outgoing packets as a number: 0 is drop. The result is whether the
  packet is to be dropped.\<close>

definition parse_dns_query ::
  "kernel_lookup \<Rightarrow> sk_buff \<Rightarrow> u16 \<Rightarrow> u16 \<Rightarrow> sk_action \<Rightarrow> fw_state \<Rightarrow> bool \<times> fw_state" where
  "parse_dns_query kl skb dns_qry_off quNum defaultactionrst st =
     (if quNum = 1
      then (case parse_queries skb dns_qry_off of None \<Rightarrow> (False, st)
        | Some (res, data, key_len) \<Rightarrow>
          (case domain_lookups kl skb (query_key st skb data key_len) st of ((denyrst, allowrst, _), st') \<Rightarrow>
             if defaultactionrst = SK_DROP \<and> denyrst then (True, st')
             else if defaultactionrst \<noteq> SK_DROP \<and> denyrst \<and> \<not> allowrst then (True, st')
             else (False, st')))
      else (False, st))"

fun answers_loop ::
  "bool \<Rightarrow> sk_buff \<Rightarrow> nat \<Rightarrow> u16 \<Rightarrow> u32 \<Rightarrow> fw_state \<Rightarrow> fw_state" where
  "answers_loop room skb 0 offset appuid st = st"
| "answers_loop room skb (Suc n) offset appuid st =
     (case parse_answers room skb offset True appuid st of (offset', st') \<Rightarrow> answers_loop room skb n offset' appuid st')"

definition parse_dns_response ::
  "kernel_lookup \<Rightarrow> bool \<Rightarrow> sk_buff \<Rightarrow> u16 \<Rightarrow> u16 \<Rightarrow> u16 \<Rightarrow> sk_action \<Rightarrow> fw_state \<Rightarrow> bool \<times> fw_state" where
  "parse_dns_response kl room skb dns_qry_off qu_num asNum defaultactionrst st =
     (if qu_num = 1
      then (case parse_queries skb dns_qry_off of None \<Rightarrow> (False, st)
        | Some (offset, data, key_len) \<Rightarrow>
          (case domain_lookups kl skb (query_key st skb data key_len) st of ((denyrst, allowrst, allow_exact), st') \<Rightarrow>
             if defaultactionrst = SK_DROP \<and> denyrst then (True, st')
             else if defaultactionrst \<noteq> SK_DROP \<and> denyrst \<and> \<not> allowrst then (True, st')
             else if \<not> allowrst then (False, st')
             else (False, answers_loop room skb (min DNS_ANSWER_CNT (unat asNum)) offset
                            (if allow_exact then skb_uid skb else 0) st')))
      else (False, st))"

definition MatchDefaultActionMap :: "fw_state \<Rightarrow> sk_buff \<Rightarrow> sk_action" where
  "MatchDefaultActionMap st skb =
     (case default_action st (get_current_uid st skb) of None \<Rightarrow> SK_PASS | Some v \<Rightarrow> outaction v)"

definition match_dns_query :: "kernel_lookup \<Rightarrow> bool \<Rightarrow> sk_buff \<Rightarrow> fw_state \<Rightarrow> sk_action \<times> fw_state" where
  "match_dns_query kl room skb st =
     (let (proto, l4_nhoff) =
        (if is_ipv4_format_skb skb then (loaded skb 0 SIZEOF_IPHDR ! 9, SIZEOF_IPHDR)
         else if skb_family skb = AF_INET6 then (loaded skb 0 SIZEOF_IPV6HDR ! 6, SIZEOF_IPV6HDR)
         else (0, 0))
      in if proto = IPPROTO_UDP
         then let udph = loaded skb l4_nhoff SIZEOF_UDPHDR;
                  src_port = ntohs (word16_at udph 0); dst_port = ntohs (word16_at udph 2)
              in if src_port = DNS_PORT \<or> dst_port = DNS_PORT
                 then let dnsh = loaded skb (l4_nhoff + SIZEOF_UDPHDR) SIZEOF_DNSHDR;
                          qu_num = ntohs (word16_at dnsh 4); as_num = ntohs (word16_at dnsh 6);
                          dns_qry_off = of_nat (l4_nhoff + SIZEOF_UDPHDR + SIZEOF_DNSHDR);
                          flag = ntohs (word16_at dnsh 2);
                          defaultactionrst = MatchDefaultActionMap st skb;
                          (res, st') = (if bit flag 15
                            then parse_dns_response kl room skb dns_qry_off qu_num as_num defaultactionrst st
                            else parse_dns_query kl skb dns_qry_off qu_num defaultactionrst st)
                      in (if res then SK_DROP else SK_PASS, st')
                 else (SK_PASS, st)
         else (SK_PASS, st))"

subsection \<open>User side\<close>

definition byte_of :: "char \<Rightarrow> u8" where
  "byte_of c = of_nat (of_char c)"

definition char_of_byte :: "u8 \<Rightarrow> char" where
  "char_of_byte b = char_of (unat b)"

fun split_dot :: "string \<Rightarrow> string list" where
  "split_dot [] = [[]]"
| "split_dot (c # cs) = (if c = CHR ''.'' then [] # split_dot cs
     else (case split_dot cs of [] \<Rightarrow> [[c]] | p # ps \<Rightarrow> (c # p) # ps))"

text \<open>\<^verbatim>\<open>std::sregex_token_iterator\<close> with index -1: the pieces between the matches of a dot, where an empty piece after
  the last match is left out.\<close>

definition dot_tokens :: "string \<Rightarrow> string list" where
  "dot_tokens text = (if CHR ''.'' \<notin> set text then [text]
     else let parts = split_dot text in if last parts = [] then butlast parts else parts)"

text \<open>The copy loop: \<^verbatim>\<open>None\<close> when a token does not fit, together with what was copied so far.\<close>

fun hash_key_loop :: "string list \<Rightarrow> nat \<Rightarrow> u8 list \<Rightarrow> nat option \<times> u8 list" where
  "hash_key_loop [] i data = (Some i, data)"
| "hash_key_loop (s # v) i data =
     (let strLen = length s
      in if i + strLen + 1 > DNS_DOMAIN_LEN then (None, data)
         else let data' = take i data @ map byte_of s @ drop (i + strLen) data;
                  data'' = data'[i + strLen := of_nat strLen]
              in hash_key_loop v (i + strLen + 1) data'')"

definition GetDomainHashKey :: "string \<Rightarrow> domain_hash_key \<Rightarrow> domain_hash_key" where
  "GetDomainHashKey domain out =
     (if domain = [] then out
      else let text = filter (\<lambda>c. c \<noteq> CHR ''*'') (rev domain)
           in case hash_key_loop (dot_tokens text) 0 (dk_data out) of
                (None, data) \<Rightarrow> out\<lparr> dk_data := data \<rparr>
              | (Some i, data) \<Rightarrow> out\<lparr> dk_data := data, dk_prefixlen := (4 + 4 + i) * 8 \<rparr>)"

function decode_loop :: "u8 list \<Rightarrow> bool \<Rightarrow> string" where
  "decode_loop q isFirstLable = (case q of [] \<Rightarrow> []
     | labelLen # rest \<Rightarrow>
         if labelLen = 0 then []
         else if unat labelLen > length rest then []
         else (if isFirstLable then [] else ''.'') @ map char_of_byte (take (unat labelLen) rest) @
              decode_loop (drop (unat labelLen) rest) False)"
  by pat_completeness auto
termination by (relation "measure (\<lambda>(q, b). length q)") auto

declare decode_loop.simps [simp del]


subsection \<open>Names as lists of labels\<close>

fun join_dot :: "string list \<Rightarrow> string" where
  "join_dot [] = []"
| "join_dot [l] = l"
| "join_dot (l # ls) = l @ ''.'' @ join_dot ls"

definition wire_label :: "string \<Rightarrow> u8 list" where
  "wire_label l = of_nat (length l) # map byte_of l"

text \<open>The name field of a DNS question without its final zero byte.\<close>

definition wire_name :: "string list \<Rightarrow> u8 list" where
  "wire_name ls = concat (map wire_label ls)"

definition label_ok :: "string \<Rightarrow> bool" where
  "label_ok l \<longleftrightarrow> l \<noteq> [] \<and> length l < 64 \<and> CHR ''.'' \<notin> set l \<and> CHR ''*'' \<notin> set l \<and> CHR 0x00 \<notin> set l"

definition name_ok :: "string list \<Rightarrow> bool" where
  "name_ok ls \<longleftrightarrow> ls \<noteq> [] \<and> list_all label_ok ls \<and> length (wire_name ls) < DNS_DOMAIN_LEN"

lemma char_of_byte_of [simp]: "char_of_byte (byte_of c) = c"
  by (simp add: char_of_byte_def byte_of_def unat_of_nat)

lemma wire_name_simps [simp]: "wire_name [] = []" "wire_name (l # ls) = wire_label l @ wire_name ls"
  "wire_name (ls @ ks) = wire_name ls @ wire_name ks"
  by (simp_all add: wire_name_def)

lemma length_wire_label [simp]: "length (wire_label l) = length l + 1"
  by (simp add: wire_label_def)

lemma split_dot_no_dot: "CHR ''.'' \<notin> set s \<Longrightarrow> split_dot s = [s]"
  by (induction s) auto

lemma split_dot_append: "CHR ''.'' \<notin> set s \<Longrightarrow> split_dot (s @ CHR ''.'' # t) = s # split_dot t"
  by (induction s) auto

lemma join_dot_snoc: "ls \<noteq> [] \<Longrightarrow> join_dot (ls @ [l]) = join_dot ls @ ''.'' @ l"
proof (induction ls)
  case (Cons a ls)
  then show ?case by (cases ls) auto
qed simp

lemma rev_join_dot: "rev (join_dot ls) = join_dot (map rev (rev ls))"
proof (induction ls rule: join_dot.induct)
  case (3 l k ls)
  then show ?case using join_dot_snoc [of "map rev (rev (k # ls))" "rev l"] by simp
qed simp_all

lemma filter_join_dot: "list_all (\<lambda>l. CHR ''*'' \<notin> set l) ls \<Longrightarrow> filter (\<lambda>c. c \<noteq> CHR ''*'') (join_dot ls) = join_dot ls"
  by (rule filter_True) (induction ls rule: join_dot.induct; auto)

lemma split_dot_join: "ls \<noteq> [] \<Longrightarrow> list_all (\<lambda>l. CHR ''.'' \<notin> set l) ls \<Longrightarrow> split_dot (join_dot ls) = ls"
  by (induction ls rule: join_dot.induct) (auto simp: split_dot_no_dot split_dot_append)

lemma dot_tokens_join:
  assumes "ls \<noteq> []" "list_all (\<lambda>l. CHR ''.'' \<notin> set l \<and> l \<noteq> []) ls"
  shows "dot_tokens (join_dot ls) = ls"
proof -
  have sp: "split_dot (join_dot ls) = ls" using assms by (intro split_dot_join) (auto simp: list_all_iff)
  have "CHR ''.'' \<notin> set (join_dot ls) \<Longrightarrow> [join_dot ls] = ls" using sp split_dot_no_dot by metis
  moreover have "last ls \<noteq> []" using assms by (auto simp: list_all_iff)
  ultimately show ?thesis using sp by (auto simp: dot_tokens_def Let_def)
qed

text \<open>The data of a key: the reversed name, each reversed label followed by its length.\<close>

definition key_bytes :: "string list \<Rightarrow> u8 list" where
  "key_bytes ls = rev (wire_name ls)"

lemma hash_key_loop_bytes:
  "length done' = i \<Longrightarrow> length data = DNS_DOMAIN_LEN \<Longrightarrow> take i data = done' \<Longrightarrow>
   i + length (wire_name ls) \<le> DNS_DOMAIN_LEN \<Longrightarrow>
   hash_key_loop (map rev (rev ls)) i data =
     (Some (i + length (wire_name ls)), done' @ key_bytes ls @ drop (i + length (wire_name ls)) data)"
proof (induction ls arbitrary: i data done' rule: rev_induct)
  case Nil
  then show ?case using append_take_drop_id [of i data] by (simp add: key_bytes_def)
next
  case (snoc l ls)
  let ?n = "length l"
  let ?d1 = "take i data @ map byte_of (rev l) @ drop (i + ?n) data"
  let ?d2 = "?d1[i + ?n := of_nat ?n]"
  have len: "length ?d1 = DNS_DOMAIN_LEN" "length ?d2 = DNS_DOMAIN_LEN" using snoc.prems by auto
  have d2: "?d2 = done' @ map byte_of (rev l) @ of_nat ?n # drop (i + ?n + 1) data"
    using snoc.prems by (simp add: list_update_append drop_eq_Nil Cons_nth_drop_Suc [symmetric])
  have t: "take (i + ?n + 1) ?d2 = done' @ map byte_of (rev l) @ [of_nat ?n]"
    unfolding d2 using snoc.prems by simp
  have dr: "drop (i + ?n + 1 + k) ?d2 = drop (i + ?n + 1 + k) data" for k
    unfolding d2 using snoc.prems by (simp add: add.commute add.left_commute)
  have "hash_key_loop (map rev (rev ls)) (i + ?n + 1) ?d2 = (Some (i + ?n + 1 + length (wire_name ls)),
      (done' @ map byte_of (rev l) @ [of_nat ?n]) @ key_bytes ls @ drop (i + ?n + 1 + length (wire_name ls)) ?d2)"
    using snoc.prems len t by (intro snoc.IH) auto
  then show ?case using snoc.prems dr [of "length (wire_name ls)"]
    by (simp add: Let_def key_bytes_def wire_label_def rev_map ac_simps)
qed

lemma GetDomainHashKey_name:
  assumes "name_ok ls"
  shows "GetDomainHashKey (join_dot ls) empty_key = empty_key\<lparr>
    dk_data := key_bytes ls @ replicate (DNS_DOMAIN_LEN - length (wire_name ls)) 0,
    dk_prefixlen := (8 + length (wire_name ls)) * 8 \<rparr>"
proof -
  have ls: "ls \<noteq> []" "list_all label_ok ls" "length (wire_name ls) < DNS_DOMAIN_LEN"
    using assms by (simp_all add: name_ok_def)
  have ne: "join_dot ls \<noteq> []" using ls by (cases ls rule: join_dot.cases) (auto simp: label_ok_def)
  have "list_all (\<lambda>l. CHR ''*'' \<notin> set l) (map rev (rev ls))" "list_all (\<lambda>l. CHR ''.'' \<notin> set l \<and> l \<noteq> []) (map rev (rev ls))"
    using ls(2) by (auto simp: list_all_iff label_ok_def)
  then have "dot_tokens (filter (\<lambda>c. c \<noteq> CHR ''*'') (rev (join_dot ls))) = map rev (rev ls)"
    using ls(1) by (simp add: rev_join_dot filter_join_dot dot_tokens_join)
  moreover have "hash_key_loop (map rev (rev ls)) 0 (dk_data empty_key) =
      (Some (length (wire_name ls)), key_bytes ls @ replicate (DNS_DOMAIN_LEN - length (wire_name ls)) 0)"
    using hash_key_loop_bytes [of "[]" 0 "dk_data empty_key" ls] ls(3) by (simp add: empty_key_def)
  ultimately show ?thesis using ne by (simp add: GetDomainHashKey_def Let_def)
qed

subsection \<open>Reading a key back\<close>

lemma decode_loop_Nil [simp]: "decode_loop [] b = []"
  by (subst decode_loop.simps) simp



subsection \<open>Reading a key from a packet\<close>

lemma parse_name_loop_reads:
  assumes "\<forall>j < length bs. loaded skb (unat off + j) 1 ! 0 = bs ! j" "loaded skb (unat off + length bs) 1 ! 0 = 0"
    and "0 \<notin> set bs" "i + length bs < DNS_DOMAIN_LEN" "unat off + length bs < 256" "length buf = DNS_DOMAIN_LEN"
  shows "parse_name_loop skb off i buf =
    Some ((take i buf @ bs @ drop (i + length bs) buf)[i + length bs := 0], off + of_nat (length bs) + 1, i + length bs)"
  using assms
proof (induction bs arbitrary: off i buf)
  case Nil
  then show ?case by (subst parse_name_loop.simps) (simp add: Let_def)
next
  case (Cons b bs)
  have off: "unat (off + 1) = unat off + 1" using Cons.prems(5) by (simp add: unat_word_ariths unat_of_nat)
  have b: "loaded skb (unat off) 1 ! 0 = b" "b \<noteq> 0" using Cons.prems(1,3) by (auto dest: spec [of _ 0])
  have "\<forall>j < length bs. loaded skb (unat (off + 1) + j) 1 ! 0 = bs ! j"
    using Cons.prems(1) off by (auto dest: spec [of _ "Suc j" for j])
  moreover have "loaded skb (unat (off + 1) + length bs) 1 ! 0 = 0" using Cons.prems(2) off by simp
  ultimately have "parse_name_loop skb (off + 1) (i + 1) (buf[i := b]) =
      Some ((take (i + 1) (buf[i := b]) @ bs @ drop (i + 1 + length bs) (buf[i := b]))[i + 1 + length bs := 0],
        off + 1 + of_nat (length bs) + 1, i + 1 + length bs)"
    using Cons.prems off by (intro Cons.IH) auto
  moreover have "take (i + 1) (buf[i := b]) = take i buf @ [b]"
    using Cons.prems by (simp add: take_Suc_conv_app_nth)
  ultimately show ?case using b Cons.prems
    by (subst parse_name_loop.simps) (simp add: Let_def algebra_simps)
qed

lemma reverse_loop_rev:
  assumes "start + length mid = e + 1" "length pre = start"
    and "xs = pre @ mid @ post" "mid \<noteq> []"
  shows "reverse_loop start e xs = pre @ rev mid @ post"
  using assms
proof (induction "length mid" arbitrary: start e xs pre mid post rule: less_induct)
  case less
  show ?case
  proof (cases "start < e")
    case False
    then obtain a where "mid = [a]" using less.prems by (cases mid) auto
    with False less.prems show ?thesis by (subst reverse_loop.simps) simp
  next
    case True
    then obtain a m' where m': "mid = a # m'" "m' \<noteq> []" using less.prems by (cases mid) auto
    then obtain m b where mid: "mid = a # m @ [b]" by (metis rev_exhaust)
    have e: "e = start + length m + 1" using less.prems mid by simp
    have swap: "xs[start := xs ! e, e := xs ! start] = (pre @ [b]) @ m @ (a # post)"
      using less.prems mid e by (simp add: nth_append list_update_append)
    show ?thesis
    proof (cases "m = []")
      case True
      then show ?thesis using \<open>start < e\<close> swap e mid less.prems
        by (subst reverse_loop.simps) (subst reverse_loop.simps, simp)
    next
      case False
      have "reverse_loop (start + 1) (e - 1) ((pre @ [b]) @ m @ (a # post)) = (pre @ [b]) @ rev m @ (a # post)"
        using less.prems mid e False by (intro less.hyps) auto
      then show ?thesis using \<open>start < e\<close> swap mid by (subst reverse_loop.simps) simp
    qed
  qed
qed

lemma byte_of_inject [simp]: "byte_of c = byte_of d \<longleftrightarrow> c = d"
  by (metis char_of_byte_of)

lemma byte_of_zero: "byte_of c = 0 \<Longrightarrow> c = CHR 0x00"
proof -
  assume "byte_of c = 0"
  then have "char_of_byte 0 = c" by (metis char_of_byte_of)
  then show "c = CHR 0x00" by (simp add: char_of_byte_def char_of_def)
qed

lemma wire_name_nonzero:
  assumes "list_all label_ok ls"
  shows "0 \<notin> set (wire_name ls)"
proof -
  have "0 \<notin> set (wire_label l)" if l: "label_ok l" for l
  proof -
    have "unat (of_nat (length l) :: u8) = length l" using l by (simp add: label_ok_def unat_of_nat)
    then have "(of_nat (length l) :: u8) \<noteq> 0" using l by (metis label_ok_def length_0_conv unat_0)
    moreover have "byte_of c \<noteq> 0" if "c \<in> set l" for c using that l byte_of_zero by (auto simp: label_ok_def)
    ultimately show ?thesis by (auto simp: wire_label_def)
  qed
  with assms show ?thesis by (induction ls) auto
qed

text \<open>The packet carries the name \<^verbatim>\<open>ls\<close> and a final zero byte at offset \<^verbatim>\<open>off\<close>.\<close>

definition carries_name :: "sk_buff \<Rightarrow> nat \<Rightarrow> string list \<Rightarrow> bool" where
  "carries_name skb off ls \<longleftrightarrow> (\<forall>j < length (wire_name ls). loaded skb (off + j) 1 ! 0 = wire_name ls ! j) \<and>
     loaded skb (off + length (wire_name ls)) 1 ! 0 = 0 \<and> off + length (wire_name ls) < 255"

lemma parse_queries_reads:
  assumes ls: "name_ok ls" and pkt: "carries_name skb (unat off) ls"
  shows "parse_queries skb off = Some (off + of_nat (length (wire_name ls)) + 5,
    dk_data (GetDomainHashKey (join_dot ls) empty_key), length (wire_name ls))"
proof -
  let ?w = "wire_name ls" and ?o = "ucast off :: u8"
  have small: "unat off < 256" "unat off + length ?w < 255" using pkt by (simp_all add: carries_name_def)
  then have o: "unat ?o = unat off" by (simp add: unat_ucast_fits)
  have w: "length ?w < DNS_DOMAIN_LEN" "list_all label_ok ls" "ls \<noteq> []" using ls by (simp_all add: name_ok_def)
  then have len: "length ?w > 1" by (cases ls) (auto simp: label_ok_def Suc_lessI)
  let ?buf = "?w @ replicate (DNS_DOMAIN_LEN - length ?w) 0"
  have "(?w @ drop (length ?w) (replicate DNS_DOMAIN_LEN 0))[length ?w := 0] = ?buf"
    using w(1) by (simp add: list_update_append)
      (metis Cons_nth_drop_Suc length_replicate list_update_id list_update_same_conv nth_replicate zero_less_diff)
  then have "parse_name_loop skb ?o 0 (replicate DNS_DOMAIN_LEN 0) = Some (?buf, ?o + of_nat (length ?w) + 1, length ?w)"
    using parse_name_loop_reads [of ?w skb ?o 0 "replicate DNS_DOMAIN_LEN 0"] pkt w wire_name_nonzero [OF w(2)] small o
    by (simp add: carries_name_def)
  moreover have "reverse_loop 0 (length ?w - 1) ?buf = key_bytes ls @ replicate (DNS_DOMAIN_LEN - length ?w) 0"
    using reverse_loop_rev [of 0 ?w "length ?w - 1" "[]" ?buf "replicate (DNS_DOMAIN_LEN - length ?w) 0"] len
    by (cases "?w = []") (simp_all add: key_bytes_def)
  moreover have off': "unat (?o + of_nat (length ?w) + 1) = unat off + length ?w + 1"
    using small o by (simp add: unat_word_ariths unat_of_nat)
  moreover have "(ucast (?o + of_nat (length ?w) + 1) :: u16) + 4 = off + of_nat (length ?w) + 5"
  proof (rule unsigned_word_eqI)
    show "unat ((ucast (?o + of_nat (length ?w) + 1) :: u16) + 4) = unat (off + of_nat (length ?w) + 5)"
      using off' small by (simp add: unat_word_ariths unat_of_nat unsigned_ucast_eq take_bit_eq_mod)
  qed
  moreover have "?o + of_nat (length ?w) + 1 \<noteq> 0" using off' by (metis add_is_0 unat_0 zero_neq_one)
  ultimately show ?thesis
    using len w(1) by (simp add: parse_queries_def parse_queries_name_def Let_def DNS_DOMAIN_LEN_MIN_def
        GetDomainHashKey_name [OF ls])
qed

subsection \<open>What a rule key covers\<close>

definition word_bytes :: "u32 \<Rightarrow> u8 list" where
  "word_bytes w = map (\<lambda>j. ucast (drop_bit (8 * j) w)) [0..<4]"

text \<open>The memory of a key after its prefix length, and the relation of the kernel's trie: the first bits of the entry
  are those of the looked up key, which is at least as long.\<close>

definition key_mem :: "domain_hash_key \<Rightarrow> u8 list" where
  "key_mem k = word_bytes (dk_uid k) @ word_bytes (dk_appuid k) @ dk_data k"

definition bit_at :: "u8 list \<Rightarrow> nat \<Rightarrow> bool" where
  "bit_at bs i = bit (bs ! (i div 8)) (7 - i mod 8)"

definition domain_covers :: "domain_hash_key \<Rightarrow> domain_hash_key \<Rightarrow> bool" where
  "domain_covers k a \<longleftrightarrow> dk_prefixlen k \<le> dk_prefixlen a \<and>
     (\<forall>i < dk_prefixlen k. bit_at (key_mem k) i = bit_at (key_mem a) i)"


lemma length_word_bytes [simp]: "length (word_bytes w) = 4"
  by (simp add: word_bytes_def)

lemma word_bytes_inject [simp]: "word_bytes v = word_bytes w \<longleftrightarrow> v = w"
proof
  assume eq: "word_bytes v = word_bytes w"
  have byte: "(ucast (drop_bit (8 * j) v) :: u8) = ucast (drop_bit (8 * j) w)" if "j < 4" for j
    using arg_cong [OF eq, of "\<lambda>xs. xs ! j"] that by (simp add: word_bytes_def)
  show "v = w"
  proof (rule bit_word_eqI)
    fix n assume "n < LENGTH(32)"
    then have n: "n div 8 < 4" "8 * (n div 8) + n mod 8 = n" by simp_all
    have "bit (ucast (drop_bit (8 * (n div 8)) v) :: u8) (n mod 8) \<longleftrightarrow> bit (ucast (drop_bit (8 * (n div 8)) w) :: u8) (n mod 8)"
      using byte [OF n(1)] by simp
    then show "bit v n \<longleftrightarrow> bit w n" using n(2) by (simp add: bit_ucast_iff bit_drop_bit_eq)
  qed
qed simp

text \<open>The key of a name for a user and an application, as rules and queries have it.\<close>

definition name_key :: "u32 \<Rightarrow> u32 \<Rightarrow> string list \<Rightarrow> domain_hash_key" where
  "name_key uid app ls = (GetDomainHashKey (join_dot ls) empty_key)\<lparr> dk_uid := uid, dk_appuid := app \<rparr>"







subsection \<open>Wildcards and names that do not fit\<close>



lemma hash_key_loop_too_long:
  "ls \<noteq> [] \<Longrightarrow> i + length (wire_name ls) > DNS_DOMAIN_LEN \<Longrightarrow> fst (hash_key_loop (map rev (rev ls)) i data) = None"
proof (induction ls arbitrary: i data rule: rev_induct)
  case (snoc l ls)
  show ?case
  proof (cases "i + length l + 1 > DNS_DOMAIN_LEN")
    case True
    then show ?thesis by (simp add: Let_def)
  next
    case False
    then have "ls \<noteq> []" using snoc.prems by auto
    from snoc.IH [OF this] False snoc.prems(2) show ?thesis by (simp add: Let_def add.assoc add.commute add.left_commute)
  qed
qed simp

lemma GetDomainHashKey_too_long:
  assumes ls: "ls \<noteq> []" "list_all label_ok ls" and long: "length (wire_name ls) > DNS_DOMAIN_LEN"
  shows "dk_prefixlen (GetDomainHashKey (join_dot ls) k) = dk_prefixlen k"
proof -
  have "list_all (\<lambda>l. CHR ''*'' \<notin> set l) (map rev (rev ls))" "list_all (\<lambda>l. CHR ''.'' \<notin> set l \<and> l \<noteq> []) (map rev (rev ls))"
    using ls(2) by (auto simp: list_all_iff label_ok_def)
  then have "dot_tokens (filter (\<lambda>c. c \<noteq> CHR ''*'') (rev (join_dot ls))) = map rev (rev ls)"
    using ls(1) by (simp add: rev_join_dot filter_join_dot dot_tokens_join)
  moreover have "fst (hash_key_loop (map rev (rev ls)) 0 (dk_data k)) = None"
    using hash_key_loop_too_long [OF ls(1), of 0] long by simp
  ultimately show ?thesis by (auto simp: GetDomainHashKey_def Let_def split: prod.splits option.splits)
qed

subsection \<open>Properties\<close>



text \<open>C19: The two sides agree on keys: if a DNS packet carries a name, the key data and length that the kernel program
  reads from it are those that the rule loader computes from the dotted form of the name.\<close>

theorem kernel_key_agrees:
  assumes "name_ok ls" "carries_name skb (unat off) ls"
  shows "\<exists>rest. parse_queries skb off = Some (rest, dk_data (GetDomainHashKey (join_dot ls) empty_key), length (wire_name ls)) \<and>
    query_key st skb (dk_data (GetDomainHashKey (join_dot ls) empty_key)) (length (wire_name ls)) =
      (GetDomainHashKey (join_dot ls) empty_key)\<lparr> dk_uid := get_current_uid st skb, dk_appuid := skb_uid skb \<rparr>"
  using parse_queries_reads [OF assms] unfolding query_key_def GetDomainHashKey_name [OF assms(1)]
  by (simp add: empty_key_def)

theorem kernel_key_agrees_witness:
  "let skb = \<lparr> skb_addr = 0, skb_family = AF_INET, skb_ifindex = 2,
       skb_load = (\<lambda>off n. Some (replicate n ([3, 110, 101, 116, 0] ! (off - 40)))), skb_uid = 0, skb_dev_name = None \<rparr>
   in parse_queries skb 40 \<noteq> None"
proof -
  define skb where "skb = \<lparr> skb_addr = 0, skb_family = AF_INET, skb_ifindex = 2,
       skb_load = (\<lambda>off n. Some (replicate n ([3, 110, 101, 116, 0] ! (off - 40)))), skb_uid = 0, skb_dev_name = None \<rparr>"
  have name: "name_ok [''net'']" by (simp add: name_ok_def label_ok_def DNS_DOMAIN_LEN_def)
  have w: "wire_name [''net''] = [3, 110, 101, 116]" by (simp add: wire_label_def byte_of_def)
  have rd: "loaded skb (40 + j) 1 ! 0 = (wire_name [''net''] @ [0]) ! j" for j
    by (simp add: skb_def loaded_def wire_label_def byte_of_def)
  have "carries_name skb (unat (40 :: u16)) [''net'']"
    unfolding carries_name_def using rd [of 4] by (simp add: rd [unfolded One_nat_def] nth_append)
  from kernel_key_agrees [OF name this] show ?thesis unfolding Let_def skb_def [symmetric] by fastforce
qed



text \<open>C35: A domain that does not fit into a key is not rejected: its key has prefix length 0, and as a rule it covers
  every query of every user.\<close>

theorem long_domain_covers_everything:
  assumes "ls \<noteq> []" "list_all label_ok ls" "length (wire_name ls) > DNS_DOMAIN_LEN"
  shows "domain_covers ((GetDomainHashKey (join_dot ls) empty_key)\<lparr> dk_uid := u, dk_appuid := a \<rparr>) q"
  using GetDomainHashKey_too_long [OF assms, of empty_key] by (simp add: domain_covers_def empty_key_def)

theorem long_domain_covers_everything_witness:
  "domain_covers ((GetDomainHashKey (join_dot (replicate 3 (replicate 60 CHR ''a''))) empty_key)\<lparr> dk_uid := 100, dk_appuid := 7 \<rparr>)
     (name_key 101 8 [''com''])"
proof (rule long_domain_covers_everything)
  show "DNS_DOMAIN_LEN < length (wire_name (replicate 3 (replicate 60 CHR ''a'')))"
    by (simp add: DNS_DOMAIN_LEN_def numeral_3_eq_3)
qed (simp_all add: label_ok_def numeral_3_eq_3)

end
