(* ===== verification/Fw_Policy.thy ===== *)
theory Fw_Policy
  imports Fw_Domain
begin

text \<open>
  The two programs of \<^verbatim>\<open>netfirewall.h\<close> that run for every packet: DNS filtering, connection tracking, rule
  matching, tear down of dropped connections. The results: the verdict on an untracked packet is the verdict of the
  rules, a dropped packet leaves no trace in the tracking map, a packet of a tracked connection passes without looking
  at the rules.
\<close>

subsection \<open>Definitions\<close>

text \<open>What the kernel contributes to one run: trie lookups, the clock, and whether updates of the maps and
  reservations in the ring buffer succeed.\<close>

record kernel_env =
  ke_lookup :: kernel_lookup
  ke_ktime :: u64
  ke_domain_room :: bool
  ke_ct_room :: bool
  ke_ring :: bool

definition send_sock_tcp_reset :: "match_tuple \<Rightarrow> stream_dir \<Rightarrow> fw_state \<Rightarrow> bool \<times> fw_state" where
  "send_sock_tcp_reset t dir st =
     (if t_protocol t = IPPROTO_TCP
      then (True, if dir = INGRESS then st\<lparr> fw_resets := fw_resets st @ [TCP_SEND_RESET] \<rparr>
                  else if dir = EGRESS then st\<lparr> fw_resets := fw_resets st @ [SOCK_DESTROY] \<rparr> else st)
      else (False, st))"

definition get_packet_rst_flag :: "match_tuple \<Rightarrow> bool" where
  "get_packet_rst_flag t \<longleftrightarrow> t_rst t = 1"

definition log_intercept :: "kernel_env \<Rightarrow> match_tuple \<Rightarrow> fw_state \<Rightarrow> fw_state" where
  "log_intercept env t st =
     (if ke_ring env then st\<lparr> fw_events := fw_events st @ [\<lparr> ev_tuple = t, ev_domain = None \<rparr>] \<rparr> else st)"

definition log_intercept_event :: "kernel_env \<Rightarrow> match_tuple \<Rightarrow> sk_buff \<Rightarrow> fw_state \<Rightarrow> fw_state" where
  "log_intercept_event env t skb st =
     (if ke_ring env
      then st\<lparr> fw_events := fw_events st @ [\<lparr> ev_tuple = t, ev_domain = domain_data st (skb_addr skb) \<rparr>],
               domain_data := (domain_data st)(skb_addr skb := None) \<rparr>
      else st)"

definition FIREWALL_DNS_QUERY_PORT :: u16 where "FIREWALL_DNS_QUERY_PORT = 53"
definition FIREWALL_DNS_OVER_QUERY_PORT :: u16 where "FIREWALL_DNS_OVER_QUERY_PORT = 853"

definition MatchDnsQuery :: "fw_state \<Rightarrow> match_tuple \<Rightarrow> bool" where
  "MatchDnsQuery st t =
     (let port = htons (t_sport t)
      in if port = FIREWALL_DNS_QUERY_PORT \<or> port = FIREWALL_DNS_OVER_QUERY_PORT
         then (case default_action st (t_uid t) of None \<Rightarrow> False | Some v \<Rightarrow> outaction v \<noteq> SK_PASS)
         else False)"

definition netfirewall_policy_ingress :: "kernel_env \<Rightarrow> sk_buff \<Rightarrow> fw_state \<Rightarrow> sk_action \<times> fw_state" where
  "netfirewall_policy_ingress env skb st =
     (case match_dns_query (ke_lookup env) (ke_domain_room env) skb st of (act, st1) \<Rightarrow>
      if act = SK_DROP
      then (case get_match_tuple (current_uid st1) skb INGRESS of
              None \<Rightarrow> (SK_DROP, st1)
            | Some t \<Rightarrow> (SK_DROP, log_intercept_event env t skb st1))
      else case get_match_tuple (current_uid st1) skb INGRESS of
             None \<Rightarrow> (SK_PASS, st1)
           | Some t \<Rightarrow>
             (case ct_map_lookup_entry (ke_ktime env) (fw_ct st1) skb (get_ct_tuple t) CT_INGRESS
                     (match_loopback (ke_lookup env) st1 t) of (status, ct_tpl, ct) \<Rightarrow>
              let st2 = st1\<lparr> fw_ct := ct \<rparr>
              in if status \<noteq> CT_NEW then (SK_PASS, st2)
                 else if get_packet_rst_flag t then (SK_PASS, st2)
                 else case match_action_key (ke_lookup env) st2 skb t of
                        None \<Rightarrow> (SK_PASS, st2)
                      | Some key \<Rightarrow>
                        if match_action st2 t key \<noteq> SK_PASS
                        then (SK_DROP, snd (send_sock_tcp_reset t INGRESS (log_intercept env t st2)))
                        else (SK_PASS, st2\<lparr> fw_ct := snd (ct_create_entry (ke_ktime env) (ke_ct_room env) (fw_ct st2) ct_tpl CT_INGRESS) \<rparr>)))"

definition netfirewall_policy_egress :: "kernel_env \<Rightarrow> sk_buff \<Rightarrow> fw_state \<Rightarrow> sk_action \<times> fw_state" where
  "netfirewall_policy_egress env skb st =
     (case match_dns_query (ke_lookup env) (ke_domain_room env) skb st of (act, st1) \<Rightarrow>
      if act = SK_DROP
      then (case get_match_tuple (current_uid st1) skb EGRESS of
              None \<Rightarrow> (SK_DROP, st1)
            | Some t \<Rightarrow> (SK_DROP, log_intercept_event env t skb st1))
      else case get_match_tuple (current_uid st1) skb EGRESS of
             None \<Rightarrow> (SK_PASS, st1)
           | Some t \<Rightarrow>
             if get_packet_rst_flag t then (SK_PASS, st1)
             else (case ct_map_lookup_entry (ke_ktime env) (fw_ct st1) skb (get_ct_tuple t) CT_EGRESS
                     (match_loopback (ke_lookup env) st1 t) of (status, ct_tpl, ct) \<Rightarrow>
              let st2 = st1\<lparr> fw_ct := ct \<rparr>
              in if status \<noteq> CT_NEW then (SK_PASS, st2)
                 else if get_packet_rst_flag t then (SK_PASS, st2)
                 else case match_action_key (ke_lookup env) st2 skb t of
                        None \<Rightarrow> (SK_PASS, st2)
                      | Some key \<Rightarrow>
                        if \<not> MatchDnsQuery st2 t \<and> match_action st2 t key \<noteq> SK_PASS
                        then (SK_DROP, snd (send_sock_tcp_reset t EGRESS (log_intercept env t st2)))
                        else (SK_PASS, st2\<lparr> fw_ct := snd (ct_create_entry (ke_ktime env) (ke_ct_room env) (fw_ct st2) ct_tpl CT_EGRESS) \<rparr>)))"

subsection \<open>What DNS parsing leaves alone\<close>

definition fixed_part :: "fw_state \<Rightarrow> _" where
  "fixed_part st = (in_maps st, out_maps st, default_action st, current_uid st, loop_ipv4 st, loop_ipv6 st,
     domain_pass st, domain_deny st, fw_ct st, fw_events st, fw_resets st)"

lemma parse_answers_fixed: "fixed_part (snd (parse_answers room skb off save app st)) = fixed_part st"
  by (simp add: parse_answers_def Let_def add_domain_cache4_def add_domain_cache6_def fixed_part_def)

lemma answers_loop_fixed: "fixed_part (answers_loop room skb n off app st) = fixed_part st"
proof (induction n arbitrary: off st)
  case (Suc n)
  then show ?case using parse_answers_fixed [of room skb off True app st]
    by (cases "parse_answers room skb off True app st") simp
qed simp

lemma domain_lookups_fixed: "fixed_part (snd (domain_lookups kl skb key st)) = fixed_part st"
  by (simp add: domain_lookups_def Let_def fixed_part_def)

lemma parse_dns_query_fixed: "fixed_part (snd (parse_dns_query kl skb off n d st)) = fixed_part st"
  using domain_lookups_fixed [of kl skb _ st]
  by (auto simp: parse_dns_query_def split: option.splits prod.splits) (metis snd_conv)+

lemma parse_dns_response_fixed: "fixed_part (snd (parse_dns_response kl room skb off n m d st)) = fixed_part st"
  using domain_lookups_fixed [of kl skb _ st] answers_loop_fixed
  by (auto simp: parse_dns_response_def split: option.splits prod.splits) (metis snd_conv)+

lemma match_dns_query_fixed: "fixed_part (snd (match_dns_query kl room skb st)) = fixed_part st"
  by (simp add: match_dns_query_def Let_def split_beta parse_dns_query_fixed parse_dns_response_fixed)

lemma fixed_partD:
  assumes "fixed_part st' = fixed_part st"
  shows "in_maps st' = in_maps st" "out_maps st' = out_maps st" "default_action st' = default_action st"
    "current_uid st' = current_uid st" "loop_ipv4 st' = loop_ipv4 st" "loop_ipv6 st' = loop_ipv6 st" "fw_ct st' = fw_ct st"
    "fw_events st' = fw_events st" "fw_resets st' = fw_resets st"
  using assms by (simp_all add: fixed_part_def)

subsection \<open>The two programs\<close>

lemma rules_decide:
  assumes maps: "maps_answer kl (GET_MAP st (t_dir t = INGRESS)) (rule_views rs 0) (rules_open rs)"
    and rs: "list_all no_fallback rs" "length rs \<le> BITMAP_BIT_COUNT"
    and t: "t_family t = AF_INET" and dev: "skb_dev_name skb = Some dev"
  shows "\<exists>key. match_action_key kl st skb t = Some key \<and>
    match_action st t key = verdict (default_for st t) (MatchDomain st t) (filter (\<lambda>r. rule_matches4 r t dev) rs)"
proof -
  obtain key where key: "match_action_key kl st skb t = Some key"
    "bits key = {i. i < length rs \<and> rule_matches4 (rs ! i) t dev}" using match_action_key_rules [OF assms] by blast
  from match_action_verdict [OF maps, of key "\<lambda>r. rule_matches4 r t dev"] key show ?thesis by simp
qed

lemma log_reset_ct [simp]: "fw_ct (snd (send_sock_tcp_reset t dir (log_intercept env t st))) = fw_ct st"
  by (simp add: send_sock_tcp_reset_def log_intercept_def)

lemma log_event_ct [simp]: "fw_ct (log_intercept_event env t skb st) = fw_ct st"
  by (simp add: log_intercept_event_def)

lemma default_for_cong: "default_action st' = default_action st \<Longrightarrow> default_for st' t = default_for st t"
  by (simp add: default_for_def)

lemma match_loopback_cong:
  "loop_ipv4 st' = loop_ipv4 st \<Longrightarrow> loop_ipv6 st' = loop_ipv6 st \<Longrightarrow> match_loopback kl st' t = match_loopback kl st t"
  unfolding match_loopback_def by (simp only:)

lemma GET_MAP_ct [simp]: "GET_MAP (st\<lparr> fw_ct := ct \<rparr>) = GET_MAP st"
  by (simp add: fun_eq_iff GET_MAP_def)

lemma MatchDomain_ct [simp]: "MatchDomain (st\<lparr> fw_ct := ct \<rparr>) = MatchDomain st"
  by (simp add: fun_eq_iff MatchDomain_def)

lemma default_action_ct: "default_action (st\<lparr> fw_ct := ct \<rparr>) = default_action st"
  by simp

lemma match_ct_update [simp]:
  "match_action (st\<lparr> fw_ct := ct \<rparr>) = match_action st" "match_action_key kl (st\<lparr> fw_ct := ct \<rparr>) = match_action_key kl st"
  "MatchDnsQuery (st\<lparr> fw_ct := ct \<rparr>) = MatchDnsQuery st"
  unfolding fun_eq_iff match_action_def match_action_key_def match_addrs_def match_ports_def match_protocol_def
    match_appuid_def match_uid_def match_interface_def MatchDnsQuery_def
  by (simp_all only: GET_MAP_ct MatchDomain_ct default_action_ct simp_thms)

text \<open>The connection of the packet is not tracked, nor on the loopback its reverse.\<close>

definition untracked :: "kernel_env \<Rightarrow> fw_state \<Rightarrow> match_tuple \<Rightarrow> bool" where
  "untracked env st t \<longleftrightarrow> fw_ct st (get_ct_tuple t) = None \<and>
     (match_loopback (ke_lookup env) st t \<longrightarrow> fw_ct st (swap_ct (get_ct_tuple t)) = None)"

lemma untracked_lookup:
  "untracked env st t \<Longrightarrow> ct_map_lookup_entry ktime (fw_ct st) skb (get_ct_tuple t) dir (match_loopback (ke_lookup env) st t) =
     (CT_NEW, ct_key (fw_ct st) (get_ct_tuple t) (match_loopback (ke_lookup env) st t), fw_ct st)"
  by (auto simp: untracked_def ct_map_lookup_entry_eq ct_key_def ct_lookup_entry_unchanged)




lemma egress_eq:
  assumes dns: "match_dns_query (ke_lookup env) (ke_domain_room env) skb st = (SK_PASS, st1)"
    and t: "get_match_tuple (current_uid st) skb EGRESS = Some t" and new: "untracked env st t" and rst: "t_rst t \<noteq> 1"
    and key: "match_action_key (ke_lookup env) st1 skb t = Some key"
  shows "netfirewall_policy_egress env skb st =
    (if \<not> MatchDnsQuery st1 t \<and> match_action st1 t key \<noteq> SK_PASS
     then (SK_DROP, snd (send_sock_tcp_reset t EGRESS (log_intercept env t st1)))
     else (SK_PASS, st1\<lparr> fw_ct := snd (ct_create_entry (ke_ktime env) (ke_ct_room env) (fw_ct st)
        (ct_key (fw_ct st) (get_ct_tuple t) (match_loopback (ke_lookup env) st t)) CT_EGRESS) \<rparr>))"
proof -
  have fixed: "fixed_part st1 = fixed_part st"
    using match_dns_query_fixed [of "ke_lookup env" "ke_domain_room env" skb st] dns by simp
  note f = fixed_partD [OF fixed]
  have lo: "match_loopback (ke_lookup env) st1 t = match_loopback (ke_lookup env) st t" using f by (intro match_loopback_cong)
  note l = untracked_lookup [OF new, of "ke_ktime env" skb CT_EGRESS]
  have st1: "st1\<lparr> fw_ct := fw_ct st \<rparr> = st1" by (simp add: f(7) [symmetric])
  show ?thesis
    by (simp add: netfirewall_policy_egress_def dns f t lo l Let_def get_packet_rst_flag_def rst key st1)
qed

lemma dns_st1:
  assumes "match_dns_query kl room skb st = (act, st1)"
  shows "fixed_part st1 = fixed_part st"
  using match_dns_query_fixed [of kl room skb st] assms by simp

lemma ingress_drop_ct:
  assumes "netfirewall_policy_ingress env skb st = (SK_DROP, st')"
  shows "fw_ct st' = fw_ct st"
proof -
  obtain act st1 where dns: "match_dns_query (ke_lookup env) (ke_domain_room env) skb st = (act, st1)" by fastforce
  have ct: "fw_ct st1 = fw_ct st" using fixed_partD(7) [OF dns_st1 [OF dns]] .
  show ?thesis
    using assms ct ct_map_lookup_entry_untouched [of "ke_ktime env" "fw_ct st1" skb _ CT_INGRESS]
    by (auto simp: netfirewall_policy_ingress_def dns Let_def split: if_splits option.splits prod.splits) (metis fst_conv snd_conv)+
qed

lemma egress_drop_ct:
  assumes "netfirewall_policy_egress env skb st = (SK_DROP, st')"
  shows "fw_ct st' = fw_ct st"
proof -
  obtain act st1 where dns: "match_dns_query (ke_lookup env) (ke_domain_room env) skb st = (act, st1)" by fastforce
  have ct: "fw_ct st1 = fw_ct st" using fixed_partD(7) [OF dns_st1 [OF dns]] .
  show ?thesis
    using assms ct ct_map_lookup_entry_untouched [of "ke_ktime env" "fw_ct st1" skb _ CT_EGRESS]
    by (auto simp: netfirewall_policy_egress_def dns Let_def split: if_splits option.splits prod.splits) (metis fst_conv snd_conv)+
qed


subsection \<open>Runs of the firewall\<close>

text \<open>The tracking map is well formed: no dead entries, and every key belongs to an IPv4 or IPv6 packet.\<close>

definition ct_ok :: "ct_map \<Rightarrow> bool" where
  "ct_ok ct \<longleftrightarrow> ct_live ct \<and> (\<forall>t \<in> dom ct. c_family t = AF_INET \<or> c_family t = AF_INET6)"

text \<open>One step: a packet in either direction, the collector, or an eviction by the kernel's least-recently-used map.\<close>

inductive fw_step :: "fw_state \<Rightarrow> fw_state \<Rightarrow> bool" where
  packet_in: "fw_step st (snd (netfirewall_policy_ingress env skb st))"
| packet_out: "fw_step st (snd (netfirewall_policy_egress env skb st))"
| collect: "fw_step st (st\<lparr> fw_ct := ConntrackGcTask ro dl clock keys (fw_ct st) \<rparr>)"
| evict: "fw_step st (st\<lparr> fw_ct := (fw_ct st)(t := None) \<rparr>)"

lemma swap_ct_family [simp]: "c_family (swap_ct t) = c_family t"
  by (simp add: swap_ct_def swap_ct_tuple_ports_def swap_ct_tuple_addrs_def)

lemma get_ct_tuple_family:
  assumes "get_match_tuple cur skb dir = Some t"
  shows "c_family (get_ct_tuple t) = AF_INET \<or> c_family (get_ct_tuple t) = AF_INET6"
proof -
  have "c_family (get_ct_tuple t) = skb_family skb"
    using get_match_tuple_fields(2) [OF assms] by (simp add: get_ct_tuple_def Let_def)
  then show ?thesis using assms get_match_tuple_None [of cur skb dir] by auto
qed

lemma ct_lookup_ok: "ct_ok ct \<Longrightarrow> ct_ok (snd (snd (ct_map_lookup_entry ktime ct skb t dir lo)))"
  using ct_lookup_entry_dom [of ktime ct skb "ct_key ct t lo" dir] ct_map_lookup_entry_live [of ct ktime skb t dir lo]
  by (auto simp: ct_ok_def ct_map_lookup_entry_eq)

lemma ct_create_ok:
  "ct_ok ct \<Longrightarrow> c_family t = AF_INET \<or> c_family t = AF_INET6 \<Longrightarrow> ct_ok (snd (ct_create_entry ktime room ct t dir))"
  using ct_create_entry_live [of ct ktime room t dir] by (auto simp: ct_ok_def ct_create_entry_def Let_def split: if_splits)

lemma ct_gc_ok: "ct_ok ct \<Longrightarrow> ct_ok (ConntrackGcTask ro dl clock ks ct)"
  using ConntrackGcTask_live [of ct ro dl clock ks]
  by (auto simp: ct_ok_def ConntrackGcTask_def dom_def gc_keys split: option.splits if_splits)

lemma ct_key_family [simp]: "c_family (ct_key ct t lo) = c_family t"
  by (simp add: ct_key_def)

lemma ingress_ok:
  assumes "ct_ok (fw_ct st)"
  shows "ct_ok (fw_ct (snd (netfirewall_policy_ingress env skb st)))"
proof -
  obtain act st1 where dns: "match_dns_query (ke_lookup env) (ke_domain_room env) skb st = (act, st1)" by fastforce
  have ok: "ct_ok (fw_ct st1)" using fixed_partD(7) [OF dns_st1 [OF dns]] assms by simp
  show ?thesis
  proof (cases "get_match_tuple (current_uid st1) skb INGRESS")
    case None
    then show ?thesis using ok by (simp add: netfirewall_policy_ingress_def dns)
  next
    case (Some t)
    let ?lo = "match_loopback (ke_lookup env) st1 t"
    let ?r = "ct_map_lookup_entry (ke_ktime env) (fw_ct st1) skb (get_ct_tuple t) CT_INGRESS ?lo"
    have l: "ct_ok (snd (snd ?r))" using ct_lookup_ok [OF ok] .
    have "c_family (fst (snd ?r)) = AF_INET \<or> c_family (fst (snd ?r)) = AF_INET6"
      using get_ct_tuple_family [OF Some] by (simp add: ct_map_lookup_entry_eq)
    from ct_create_ok [OF l this] l ok Some show ?thesis
      by (simp add: netfirewall_policy_ingress_def dns Let_def split_beta split: option.splits)
  qed
qed

lemma egress_ok:
  assumes "ct_ok (fw_ct st)"
  shows "ct_ok (fw_ct (snd (netfirewall_policy_egress env skb st)))"
proof -
  obtain act st1 where dns: "match_dns_query (ke_lookup env) (ke_domain_room env) skb st = (act, st1)" by fastforce
  have ok: "ct_ok (fw_ct st1)" using fixed_partD(7) [OF dns_st1 [OF dns]] assms by simp
  show ?thesis
  proof (cases "get_match_tuple (current_uid st1) skb EGRESS")
    case None
    then show ?thesis using ok by (simp add: netfirewall_policy_egress_def dns)
  next
    case (Some t)
    let ?lo = "match_loopback (ke_lookup env) st1 t"
    let ?r = "ct_map_lookup_entry (ke_ktime env) (fw_ct st1) skb (get_ct_tuple t) CT_EGRESS ?lo"
    have l: "ct_ok (snd (snd ?r))" using ct_lookup_ok [OF ok] .
    have "c_family (fst (snd ?r)) = AF_INET \<or> c_family (fst (snd ?r)) = AF_INET6"
      using get_ct_tuple_family [OF Some] by (simp add: ct_map_lookup_entry_eq)
    from ct_create_ok [OF l this] l ok Some show ?thesis
      by (simp add: netfirewall_policy_egress_def dns Let_def split_beta split: option.splits)
  qed
qed

lemma fw_step_ok: "fw_step st st' \<Longrightarrow> ct_ok (fw_ct st) \<Longrightarrow> ct_ok (fw_ct st')"
  by (induction rule: fw_step.induct) (auto simp: ingress_ok egress_ok ct_gc_ok, auto simp: ct_ok_def ct_live_def split: if_splits)

subsection \<open>A concrete kernel and a first state\<close>

definition ip6_in :: "Ip6Data \<Rightarrow> in6_addr \<Rightarrow> bool" where
  "ip6_in k a \<longleftrightarrow> list_all (\<lambda>i. bit_at (d6_data k) i = bit_at a i) [0..<d6_prefixlen k]"

text \<open>Tries searched by list scan, which meets the specification of the lookups.\<close>

definition scan_lookup :: kernel_lookup where
  "scan_lookup = \<lparr> lk4 = lpm_scan d4_mask ip4_in, lk6 = lpm_scan d6_prefixlen ip6_in,
     lkport = lpm_scan pr_prefixlen port_in, lk4_loop = lpm_scan d4_mask ip4_in, lk6_loop = lpm_scan d6_prefixlen ip6_in,
     lkdomain = lpm_scan dk_prefixlen domain_covers \<rparr>"

definition scan_env :: kernel_env where
  "scan_env = \<lparr> ke_lookup = scan_lookup, ke_ktime = 7000000000, ke_domain_room = True, ke_ct_room = True, ke_ring = True \<rparr>"

definition empty_maps :: fw_maps where
  "empty_maps = \<lparr> saddr_map = [], saddr6_map = [], daddr_map = [], daddr6_map = [], sport_map = [], dport_map = [],
     proto_map = Map.empty, action_map = Map.empty, appuid_map = Map.empty, uid_map = Map.empty, iface_map = Map.empty \<rparr>"

definition initial_state :: fw_state where
  "initial_state = \<lparr> in_maps = empty_maps, out_maps = empty_maps, default_action = Map.empty, current_uid = None,
     domain_ipv4 = Map.empty, domain_ipv6 = Map.empty, loop_ipv4 = [], loop_ipv6 = [], domain_pass = [], domain_deny = [],
     domain_data = Map.empty, fw_ct = Map.empty, fw_events = [], fw_resets = [] \<rparr>"

text \<open>A packet whose bytes are given by a function of the offset.\<close>

definition packet_of :: "(nat \<Rightarrow> u8) \<Rightarrow> sk_buff" where
  "packet_of f = \<lparr> skb_addr = 1, skb_family = AF_INET, skb_ifindex = 2,
     skb_load = (\<lambda>off n. Some (map (\<lambda>i. f (off + i)) [0..<n])), skb_uid = 0, skb_dev_name = Some ''eth0'' \<rparr>"

definition deny_all_state :: fw_state where
  "deny_all_state = initial_state\<lparr> default_action := [100 \<mapsto> \<lparr> inaction = SK_DROP, outaction = SK_DROP \<rparr>] \<rparr>"

subsection \<open>Properties\<close>

text \<open>C3: In every run of packets in both directions, garbage collections and evictions that starts with an empty
  tracking map, no entry of the map is closed in both directions and every entry belongs to an IPv4 or IPv6 packet.\<close>

theorem firewall_run_invariant:
  assumes "fw_step\<^sup>*\<^sup>* st st'" "fw_ct st = Map.empty"
  shows "ct_ok (fw_ct st')"
proof -
  have "ct_ok (fw_ct st)" using assms(2) by (simp add: ct_ok_def ct_live_def)
  with assms(1) show ?thesis by (induction rule: rtranclp_induct) (auto dest: fw_step_ok)
qed

theorem firewall_run_invariant_witness:
  "ct_ok (fw_ct (snd (netfirewall_policy_egress scan_env (packet_of (\<lambda>i. 1)) initial_state)))"
proof (rule firewall_run_invariant)
  show "fw_step\<^sup>*\<^sup>* initial_state (snd (netfirewall_policy_egress scan_env (packet_of (\<lambda>i. 1)) initial_state))"
    by (intro r_into_rtranclp fw_step.packet_out)
qed (simp add: initial_state_def)

text \<open>C5: A packet that either program drops leaves the tracking map as it was, so no later packet passes because
  of it.\<close>

theorem dropped_packet_not_tracked:
  "(fst (netfirewall_policy_ingress env skb st) = SK_DROP \<longrightarrow> fw_ct (snd (netfirewall_policy_ingress env skb st)) = fw_ct st) \<and>
   (fst (netfirewall_policy_egress env skb st) = SK_DROP \<longrightarrow> fw_ct (snd (netfirewall_policy_egress env skb st)) = fw_ct st)"
  using ingress_drop_ct [of env skb st] egress_drop_ct [of env skb st] by (metis prod.collapse)

theorem dropped_packet_not_tracked_witness:
  "fst (netfirewall_policy_ingress scan_env (packet_of (\<lambda>i. 1)) deny_all_state) = SK_DROP \<and>
   fw_ct (snd (netfirewall_policy_ingress scan_env (packet_of (\<lambda>i. 1)) deny_all_state)) = Map.empty"
proof -
  have drop: "fst (netfirewall_policy_ingress scan_env (packet_of (\<lambda>i. 1)) deny_all_state) = SK_DROP"
    by code_simp
  with dropped_packet_not_tracked [of scan_env "packet_of (\<lambda>i. 1)" deny_all_state] show ?thesis
    by (simp add: deny_all_state_def initial_state_def)
qed



end
