(* ===== verification/Fw_Loader.thy ===== *)
theory Fw_Loader
  imports Fw_Policy
begin

text \<open>
  The rule loader \<^verbatim>\<open>NetsysBpfNetFirewall\<close> of \<^verbatim>\<open>bpf_netfirewall.cpp\<close>: it compiles rule lists with
  \<^verbatim>\<open>BitmapManager\<close> and writes the result into the kernel maps. Whether the kernel opens the map at a path and
  accepts updates and deletions there is the parameter \<^verbatim>\<open>map_ok\<close>; as in the code, a map that refuses is left as it is
  and the failure is reported or only logged. The results close the loop: after a rule list was loaded, the verdict of
  the packet programs is the verdict of that list.
\<close>

subsection \<open>Map writes\<close>

text \<open>An update of a longest prefix trie replaces the entry of the same prefix.\<close>

definition lpm_update :: "('k \<Rightarrow> 'k \<Rightarrow> bool) \<Rightarrow> 'k \<Rightarrow> 'v \<Rightarrow> ('k \<times> 'v) list \<Rightarrow> ('k \<times> 'v) list" where
  "lpm_update same k v t = filter (\<lambda>(k', _). \<not> same k k') t @ [(k, v)]"

definition lpm_write :: "('k \<Rightarrow> 'k \<Rightarrow> bool) \<Rightarrow> ('k \<times> 'v) list \<Rightarrow> ('k \<times> 'v) list \<Rightarrow> ('k \<times> 'v) list" where
  "lpm_write same entries t = foldl (\<lambda>t (k, v). lpm_update same k v t) t entries"

definition same4 :: "Ip4Data \<Rightarrow> Ip4Data \<Rightarrow> bool" where
  "same4 k k' \<longleftrightarrow> d4_mask k = d4_mask k' \<and> ip4_in k (d4_data k')"

definition same6 :: "Ip6Data \<Rightarrow> Ip6Data \<Rightarrow> bool" where
  "same6 k k' \<longleftrightarrow> d6_prefixlen k = d6_prefixlen k' \<and> ip6_in k (d6_data k')"

definition same_port :: "portRule \<Rightarrow> portRule \<Rightarrow> bool" where
  "same_port k k' \<longleftrightarrow> pr_prefixlen k = pr_prefixlen k' \<and> port_in k (pr_data k')"

definition same_domain :: "domain_hash_key \<Rightarrow> domain_hash_key \<Rightarrow> bool" where
  "same_domain k k' \<longleftrightarrow> dk_prefixlen k = dk_prefixlen k' \<and> domain_covers k k'"

text \<open>Opening a map for reading or writing, and the update and delete calls on an open map.\<close>

record map_ok =
  rd_valid :: "string \<Rightarrow> bool"
  wr_valid :: "string \<Rightarrow> bool"
  update_ok :: "string \<Rightarrow> bool"
  delete_ok :: "string \<Rightarrow> bool"

definition MAP_PATH :: "string \<Rightarrow> string" where
  "MAP_PATH name = ''/sys/fs/bpf/netsys/maps/'' @ name"

definition GET_MAP_PATH :: "bool \<Rightarrow> string \<Rightarrow> string" where
  "GET_MAP_PATH ingress name =
     (if ingress then MAP_PATH (''in_'' @ name @ ''_map'') else MAP_PATH (''out_'' @ name @ ''_map''))"

text \<open>\<^verbatim>\<open>write\<close> is the effect of the update calls; the flag of the result is whether the source returns 0.\<close>

definition WriteBpfMap :: "map_ok \<Rightarrow> string \<Rightarrow> ('m \<Rightarrow> 'm) \<Rightarrow> 'm \<Rightarrow> bool \<times> 'm" where
  "WriteBpfMap ok path write m =
     (if \<not> wr_valid ok path then (False, m) else if \<not> update_ok ok path then (False, m) else (True, write m))"

definition ClearBpfMap :: "map_ok \<Rightarrow> string \<Rightarrow> 'm \<Rightarrow> 'm \<Rightarrow> bool \<times> 'm" where
  "ClearBpfMap ok path no_keys m =
     (if \<not> rd_valid ok path then (False, m)
      else if m = no_keys then (True, m)
      else if \<not> wr_valid ok path then (False, m)
      else if \<not> delete_ok ok path then (False, m)
      else (True, no_keys))"

definition kern6 :: "Ip6RuleBitmap list \<Rightarrow> (Ip6Data \<times> bitmap) list" where
  "kern6 vec = map (\<lambda>it. (\<lparr> d6_prefixlen = r6_prefixlen it, d6_data = r6_data it \<rparr>, r6_bitmap it)) vec"

text \<open>The write functions return whether the source's sum of results is 0.\<close>

definition WriteSrcIpv4BpfMap :: "map_ok \<Rightarrow> BitmapManager \<Rightarrow> bool \<Rightarrow> fw_maps \<Rightarrow> bool \<times> fw_maps" where
  "WriteSrcIpv4BpfMap ok mg ingress maps =
     (if srcIp4Map mg = [] then (False, maps)
      else case WriteBpfMap ok (GET_MAP_PATH ingress ''saddr'') (lpm_write same4 (kern4 (srcIp4Map mg))) (saddr_map maps) of
             (res, mp) \<Rightarrow> (res, maps\<lparr> saddr_map := mp \<rparr>))"

definition WriteSrcIpv6BpfMap :: "map_ok \<Rightarrow> BitmapManager \<Rightarrow> bool \<Rightarrow> fw_maps \<Rightarrow> bool \<times> fw_maps" where
  "WriteSrcIpv6BpfMap ok mg ingress maps =
     (if srcIp6Map mg = [] then (False, maps)
      else case WriteBpfMap ok (GET_MAP_PATH ingress ''saddr6'') (lpm_write same6 (kern6 (srcIp6Map mg))) (saddr6_map maps) of
             (res, mp) \<Rightarrow> (res, maps\<lparr> saddr6_map := mp \<rparr>))"

definition WriteDstIpv4BpfMap :: "map_ok \<Rightarrow> BitmapManager \<Rightarrow> bool \<Rightarrow> fw_maps \<Rightarrow> bool \<times> fw_maps" where
  "WriteDstIpv4BpfMap ok mg ingress maps =
     (if dstIp4Map mg = [] then (False, maps)
      else case WriteBpfMap ok (GET_MAP_PATH ingress ''daddr'') (lpm_write same4 (kern4 (dstIp4Map mg))) (daddr_map maps) of
             (res, mp) \<Rightarrow> (res, maps\<lparr> daddr_map := mp \<rparr>))"

definition WriteDstIpv6BpfMap :: "map_ok \<Rightarrow> BitmapManager \<Rightarrow> bool \<Rightarrow> fw_maps \<Rightarrow> bool \<times> fw_maps" where
  "WriteDstIpv6BpfMap ok mg ingress maps =
     (if dstIp6Map mg = [] then (False, maps)
      else case WriteBpfMap ok (GET_MAP_PATH ingress ''daddr6'') (lpm_write same6 (kern6 (dstIp6Map mg))) (daddr6_map maps) of
             (res, mp) \<Rightarrow> (res, maps\<lparr> daddr6_map := mp \<rparr>))"

definition WritePortBpfMap ::
  "map_ok \<Rightarrow> portRuleBitmap list \<Rightarrow> string \<Rightarrow> (portRule \<times> bitmap) list \<Rightarrow> bool \<times> (portRule \<times> bitmap) list" where
  "WritePortBpfMap ok portMap path mp =
     (if path = [] then (False, mp)
      else if portMap = [] then (False, mp)
      else WriteBpfMap ok path (lpm_write same_port (kernp portMap)) mp)"

definition WriteSrcPortBpfMap :: "map_ok \<Rightarrow> BitmapManager \<Rightarrow> bool \<Rightarrow> fw_maps \<Rightarrow> bool \<times> fw_maps" where
  "WriteSrcPortBpfMap ok mg ingress maps =
     (case WritePortBpfMap ok (srcPortMap mg) (GET_MAP_PATH ingress ''sport'') (sport_map maps) of
        (res, mp) \<Rightarrow> (res, maps\<lparr> sport_map := mp \<rparr>))"

definition WriteDstPortBpfMap :: "map_ok \<Rightarrow> BitmapManager \<Rightarrow> bool \<Rightarrow> fw_maps \<Rightarrow> bool \<times> fw_maps" where
  "WriteDstPortBpfMap ok mg ingress maps =
     (case WritePortBpfMap ok (dstPortMap mg) (GET_MAP_PATH ingress ''dport'') (dport_map maps) of
        (res, mp) \<Rightarrow> (res, maps\<lparr> dport_map := mp \<rparr>))"

definition WriteProtoBpfMap :: "map_ok \<Rightarrow> BitmapManager \<Rightarrow> bool \<Rightarrow> fw_maps \<Rightarrow> bool \<times> fw_maps" where
  "WriteProtoBpfMap ok mg ingress maps =
     (if protoMap mg = Map.empty then (False, maps)
      else case WriteBpfMap ok (GET_MAP_PATH ingress ''proto'') (\<lambda>m. m ++ protoMap mg) (proto_map maps) of
             (res, mp) \<Rightarrow> (res, maps\<lparr> proto_map := mp \<rparr>))"

definition WriteAppUidBpfMap :: "map_ok \<Rightarrow> BitmapManager \<Rightarrow> bool \<Rightarrow> fw_maps \<Rightarrow> bool \<times> fw_maps" where
  "WriteAppUidBpfMap ok mg ingress maps =
     (if appUidMap mg = Map.empty then (False, maps)
      else case WriteBpfMap ok (GET_MAP_PATH ingress ''appuid'') (\<lambda>m. m ++ appUidMap mg) (appuid_map maps) of
             (res, mp) \<Rightarrow> (res, maps\<lparr> appuid_map := mp \<rparr>))"

definition WriteUidBpfMap :: "map_ok \<Rightarrow> BitmapManager \<Rightarrow> bool \<Rightarrow> fw_maps \<Rightarrow> bool \<times> fw_maps" where
  "WriteUidBpfMap ok mg ingress maps =
     (if uidMap mg = Map.empty then (False, maps)
      else case WriteBpfMap ok (GET_MAP_PATH ingress ''uid'') (\<lambda>m. m ++ uidMap mg) (uid_map maps) of
             (res, mp) \<Rightarrow> (res, maps\<lparr> uid_map := mp \<rparr>))"

definition WriteActionBpfMap :: "map_ok \<Rightarrow> BitmapManager \<Rightarrow> bool \<Rightarrow> fw_maps \<Rightarrow> bool \<times> fw_maps" where
  "WriteActionBpfMap ok mg ingress maps =
     (if actionMap mg = Map.empty then (False, maps)
      else case WriteBpfMap ok (GET_MAP_PATH ingress ''action'') (\<lambda>m. m ++ actionMap mg) (action_map maps) of
             (res, mp) \<Rightarrow> (res, maps\<lparr> action_map := mp \<rparr>))"

definition INTERFACE_NAME_MAX_LEN :: nat where "INTERFACE_NAME_MAX_LEN = 16"

text \<open>A name that does not fit into a key is skipped without an error result.\<close>

definition WriteInterfaceBpfMap :: "map_ok \<Rightarrow> BitmapManager \<Rightarrow> bool \<Rightarrow> fw_maps \<Rightarrow> bool \<times> fw_maps" where
  "WriteInterfaceBpfMap ok mg ingress maps =
     (if interfaceMap mg = Map.empty then (False, maps)
      else let keys = (\<lambda>devName. if length devName \<ge> INTERFACE_NAME_MAX_LEN then None else interfaceMap mg devName)
           in if keys = Map.empty then (True, maps)
              else case WriteBpfMap ok (GET_MAP_PATH ingress ''iface'') (\<lambda>m. m ++ keys) (iface_map maps) of
                     (res, mp) \<Rightarrow> (res, maps\<lparr> iface_map := mp \<rparr>))"

subsection \<open>Loader operations\<close>

datatype NetFirewallRuleType =
  TYPE_INVALID | RULE_IP | RULE_DOMAIN | RULE_DNS | RULE_DEFAULT_ACTION | RULE_ALL

record NetFirewallDomainParam =
  isWildcard :: bool
  domain :: string

record NetFirewallDomainRule =
  dr_userId :: int
  dr_appUid :: int
  dr_ruleAction :: FirewallRuleAction
  domains :: "NetFirewallDomainParam list"

text \<open>A rule as it arrives; \<^verbatim>\<open>firewall_rule_cast\<close> is a static cast, undefined on a rule of another type.\<close>

datatype NetFirewallBaseRule = IpRule NetFirewallIpRule | DomainRule NetFirewallDomainRule

fun cast_ip :: "NetFirewallBaseRule \<Rightarrow> NetFirewallIpRule option" where
  "cast_ip (IpRule r) = Some r"
| "cast_ip _ = None"

fun cast_domain :: "NetFirewallBaseRule \<Rightarrow> NetFirewallDomainRule option" where
  "cast_domain (DomainRule r) = Some r"
| "cast_domain _ = None"

fun cast_all :: "('b \<Rightarrow> 'r option) \<Rightarrow> 'b list \<Rightarrow> 'r list option" where
  "cast_all f [] = Some []"
| "cast_all f (x # xs) = (case f x of None \<Rightarrow> None | Some y \<Rightarrow> map_option ((#) y) (cast_all f xs))"

fun err_code :: "NetFirewallError \<Rightarrow> int" where
  "err_code NETFIREWALL_SUCCESS = 0"
| "err_code NETFIREWALL_ERR = 1"
| "err_code NETFIREWALL_IP_STR_ERR = 2"
| "err_code NETFIREWALL_MASK_ERR = 3"
| "err_code NETFIREWALL_FAMILY_ERR = 4"
| "err_code NETFIREWALL_EMPTY_ERR = 5"

record loader =
  isBpfLoaded :: bool
  firewallIpRules :: "NetFirewallIpRule list"
  firewallDomainRules :: "NetFirewallDomainRule list"
  ld_state :: fw_state

definition put_maps :: "bool \<Rightarrow> fw_maps \<Rightarrow> fw_state \<Rightarrow> fw_state" where
  "put_maps ingress maps st = (if ingress then st\<lparr> in_maps := maps \<rparr> else st\<lparr> out_maps := maps \<rparr>)"

definition WriteLoopBackBpfMap :: "map_ok \<Rightarrow> fw_state \<Rightarrow> NetFirewallError \<times> fw_state" where
  "WriteLoopBackBpfMap ok st =
     (case WriteBpfMap ok (MAP_PATH ''loop_ipv4_map'') (lpm_update same4 \<lparr> d4_mask = 8, d4_data = 0x7f000000 \<rparr> 1) (loop_ipv4 st) of
        (r4, l4) \<Rightarrow>
        if \<not> r4 then (NETFIREWALL_ERR, st\<lparr> loop_ipv4 := l4 \<rparr>)
        else case WriteBpfMap ok (MAP_PATH ''loop_ipv6_map'')
                    (lpm_update same6 \<lparr> d6_prefixlen = 128, d6_data = replicate 15 0 @ [1] \<rparr> 1) (loop_ipv6 st) of
               (r6, l6) \<Rightarrow> (if r6 then NETFIREWALL_SUCCESS else NETFIREWALL_ERR, st\<lparr> loop_ipv4 := l4, loop_ipv6 := l6 \<rparr>))"

definition SetBpfLoaded :: "map_ok \<Rightarrow> bool \<Rightarrow> loader \<Rightarrow> loader" where
  "SetBpfLoaded ok load ld =
     (let ld' = ld\<lparr> isBpfLoaded := load \<rparr>
      in if load then ld'\<lparr> ld_state := snd (WriteLoopBackBpfMap ok (ld_state ld')) \<rparr> else ld')"

definition ClearBpfFirewallRules :: "map_ok \<Rightarrow> bool \<Rightarrow> fw_state \<Rightarrow> fw_state" where
  "ClearBpfFirewallRules ok ingress st =
     (let m = GET_MAP st ingress; p = GET_MAP_PATH ingress;
          m' = \<lparr> saddr_map = snd (ClearBpfMap ok (p ''saddr'') [] (saddr_map m)),
                 saddr6_map = snd (ClearBpfMap ok (p ''saddr6'') [] (saddr6_map m)),
                 daddr_map = snd (ClearBpfMap ok (p ''daddr'') [] (daddr_map m)),
                 daddr6_map = snd (ClearBpfMap ok (p ''daddr6'') [] (daddr6_map m)),
                 sport_map = snd (ClearBpfMap ok (p ''sport'') [] (sport_map m)),
                 dport_map = snd (ClearBpfMap ok (p ''dport'') [] (dport_map m)),
                 proto_map = snd (ClearBpfMap ok (p ''proto'') Map.empty (proto_map m)),
                 action_map = snd (ClearBpfMap ok (p ''action'') Map.empty (action_map m)),
                 appuid_map = snd (ClearBpfMap ok (p ''appuid'') Map.empty (appuid_map m)),
                 uid_map = snd (ClearBpfMap ok (p ''uid'') Map.empty (uid_map m)),
                 iface_map = snd (ClearBpfMap ok (p ''iface'') Map.empty (iface_map m)) \<rparr>
      in put_maps ingress m' (st\<lparr> fw_ct := snd (ClearBpfMap ok (MAP_PATH ''ct_map'') Map.empty (fw_ct st)) \<rparr>))"

definition ClearDomainCache :: "map_ok \<Rightarrow> fw_state \<Rightarrow> fw_state" where
  "ClearDomainCache ok st = st\<lparr> domain_ipv4 := snd (ClearBpfMap ok (MAP_PATH ''domain_ipv4_map'') Map.empty (domain_ipv4 st)),
     domain_ipv6 := snd (ClearBpfMap ok (MAP_PATH ''domain_ipv6_map'') Map.empty (domain_ipv6 st)) \<rparr>"

definition ClearDomainRules :: "map_ok \<Rightarrow> fw_state \<Rightarrow> fw_state" where
  "ClearDomainRules ok st =
     (let st1 = ClearDomainCache ok st
      in st1\<lparr> domain_pass := snd (ClearBpfMap ok (MAP_PATH ''domain_pass_map'') [] (domain_pass st1)),
             domain_deny := snd (ClearBpfMap ok (MAP_PATH ''domain_deny_map'') [] (domain_deny st1)) \<rparr>)"

definition ClearFirewallDefaultAction :: "map_ok \<Rightarrow> loader \<Rightarrow> NetFirewallError \<times> loader" where
  "ClearFirewallDefaultAction ok ld =
     (if \<not> isBpfLoaded ld then (NETFIREWALL_ERR, ld)
      else case ClearBpfMap ok (MAP_PATH ''def_act_map'') Map.empty (default_action (ld_state ld)) of
             (r, m) \<Rightarrow> (if r then NETFIREWALL_SUCCESS else NETFIREWALL_ERR,
                        ld\<lparr> ld_state := (ld_state ld)\<lparr> default_action := m \<rparr> \<rparr>))"

definition ClearFirewallRules :: "map_ok \<Rightarrow> NetFirewallRuleType \<Rightarrow> loader \<Rightarrow> NetFirewallError \<times> loader" where
  "ClearFirewallRules ok type ld =
     (let clear_ip = (\<lambda>ld. ld\<lparr> firewallIpRules := [],
            ld_state := ClearBpfFirewallRules ok False (ClearBpfFirewallRules ok True (ld_state ld)) \<rparr>);
          clear_domain = (\<lambda>ld. ld\<lparr> firewallDomainRules := [], ld_state := ClearDomainRules ok (ld_state ld) \<rparr>);
          clear_default = (\<lambda>ld. snd (ClearFirewallDefaultAction ok ld))
      in (NETFIREWALL_SUCCESS,
          case type of RULE_IP \<Rightarrow> clear_ip ld | RULE_DOMAIN \<Rightarrow> clear_domain ld | RULE_DEFAULT_ACTION \<Rightarrow> clear_default ld
          | RULE_ALL \<Rightarrow> clear_default (clear_domain (clear_ip ld)) | _ \<Rightarrow> ld))"

text \<open>\<^verbatim>\<open>None\<close> is a crash on a null rule, which the callers below never pass.\<close>

definition SetBpfFirewallRules ::
  "map_ok \<Rightarrow> NetFirewallIpRule option list \<Rightarrow> bool \<Rightarrow> fw_state \<Rightarrow> (NetFirewallError \<times> fw_state) option" where
  "SetBpfFirewallRules ok ruleList ingress st =
     (case BuildBitmapMap ruleList of None \<Rightarrow> None
      | Some (ret, mg) \<Rightarrow>
        if ret \<noteq> NETFIREWALL_SUCCESS then Some (ret, st)
        else let st1 = ClearBpfFirewallRules ok ingress st;
                 m0 = GET_MAP st1 ingress;
                 m1 = snd (WriteSrcIpv4BpfMap ok mg ingress m0);
                 m2 = snd (WriteSrcIpv6BpfMap ok mg ingress m1);
                 m3 = snd (WriteDstIpv4BpfMap ok mg ingress m2);
                 m4 = snd (WriteDstIpv6BpfMap ok mg ingress m3);
                 m5 = snd (WriteSrcPortBpfMap ok mg ingress m4);
                 m6 = snd (WriteDstPortBpfMap ok mg ingress m5);
                 m7 = snd (WriteProtoBpfMap ok mg ingress m6);
                 m8 = snd (WriteAppUidBpfMap ok mg ingress m7);
                 m9 = snd (WriteUidBpfMap ok mg ingress m8);
                 m10 = snd (WriteActionBpfMap ok mg ingress m9);
                 m11 = snd (WriteInterfaceBpfMap ok mg ingress m10)
             in Some (NETFIREWALL_SUCCESS, put_maps ingress m11 st1))"

text \<open>The split by direction: incoming ICMP rules go to the outgoing list.\<close>

definition in_rules :: "NetFirewallIpRule list \<Rightarrow> NetFirewallIpRule list" where
  "in_rules rs = filter (\<lambda>r. ruleDirection r = RULE_IN \<and> protocol r \<noteq> PROTO_ICMP \<and> protocol r \<noteq> PROTO_ICMPV6) rs"

definition out_rules :: "NetFirewallIpRule list \<Rightarrow> NetFirewallIpRule list" where
  "out_rules rs = filter (\<lambda>r. ruleDirection r = RULE_OUT \<or>
     ruleDirection r = RULE_IN \<and> (protocol r = PROTO_ICMP \<or> protocol r = PROTO_ICMPV6)) rs"

text \<open>The result adds the return codes of the two directions. A direction without rules is not touched.\<close>

definition SetFirewallIpRules :: "map_ok \<Rightarrow> NetFirewallIpRule list \<Rightarrow> fw_state \<Rightarrow> (int \<times> fw_state) option" where
  "SetFirewallIpRules ok rs st =
     (case (if in_rules rs \<noteq> [] then SetBpfFirewallRules ok (map Some (in_rules rs)) True st
            else Some (NETFIREWALL_SUCCESS, st)) of
        None \<Rightarrow> None
      | Some (ret1, st1) \<Rightarrow>
        (case (if out_rules rs \<noteq> [] then SetBpfFirewallRules ok (map Some (out_rules rs)) False st1
               else Some (NETFIREWALL_SUCCESS, st1)) of
           None \<Rightarrow> None
         | Some (ret2, st2) \<Rightarrow> Some (err_code ret1 + err_code ret2, st2)))"

definition SetBpfFirewallDomainRules ::
  "map_ok \<Rightarrow> FirewallRuleAction \<Rightarrow> domain_hash_key \<Rightarrow> domain_value \<Rightarrow> bool \<Rightarrow> fw_state \<Rightarrow> int \<times> fw_state" where
  "SetBpfFirewallDomainRules ok action key v isWild st =
     (let key' = key\<lparr> dk_uid := dv_uid v, dk_appuid := dv_appuid v \<rparr>
      in if action = RULE_ALLOW
         then (case WriteBpfMap ok (MAP_PATH ''domain_pass_map'') (lpm_update same_domain key' 1) (domain_pass st) of
                 (r, mp) \<Rightarrow> (if r then 0 else -1, st\<lparr> domain_pass := mp \<rparr>))
         else if action = RULE_DENY
         then (case WriteBpfMap ok (MAP_PATH ''domain_deny_map'') (lpm_update same_domain key' 1) (domain_deny st) of
                 (r, mp) \<Rightarrow> (if r then 0 else -1, st\<lparr> domain_deny := mp \<rparr>))
         else (0, st))"

definition SetDomainParam :: "map_ok \<Rightarrow> NetFirewallDomainRule \<Rightarrow> int \<times> fw_state \<Rightarrow> NetFirewallDomainParam \<Rightarrow> int \<times> fw_state" where
  "SetDomainParam ok rule acc param =
     (if domain param = [] then acc
      else SetBpfFirewallDomainRules ok (dr_ruleAction rule) (GetDomainHashKey (domain param) empty_key)
             \<lparr> dv_appuid = of_int (dr_appUid rule), dv_uid = of_int (dr_userId rule) \<rparr> (isWildcard param) (snd acc))"

definition SetFirewallDomainRules :: "map_ok \<Rightarrow> NetFirewallDomainRule list \<Rightarrow> fw_state \<Rightarrow> int \<times> fw_state" where
  "SetFirewallDomainRules ok ruleList st =
     (if ruleList = [] then (err_code NETFIREWALL_ERR, st)
      else foldl (\<lambda>acc rule. foldl (SetDomainParam ok rule) acc (domains rule)) (0, ClearDomainRules ok st) ruleList)"

text \<open>The rule lists arrive in pages; the last page triggers the load and empties the collected list.\<close>

definition SetFirewallRules ::
  "map_ok \<Rightarrow> NetFirewallRuleType \<Rightarrow> NetFirewallBaseRule list \<Rightarrow> bool \<Rightarrow> loader \<Rightarrow> (int \<times> loader) option" where
  "SetFirewallRules ok type ruleList isFinish ld =
     (if \<not> isBpfLoaded ld then Some (err_code NETFIREWALL_ERR, ld)
      else if ruleList = [] then Some (err_code NETFIREWALL_ERR, ld)
      else case type of
        RULE_IP \<Rightarrow>
          (case cast_all cast_ip ruleList of None \<Rightarrow> None
           | Some rs \<Rightarrow>
             let all_rules = firewallIpRules ld @ rs
             in if isFinish
                then map_option (\<lambda>(ret, st). (ret, ld\<lparr> firewallIpRules := [], ld_state := st \<rparr>))
                       (SetFirewallIpRules ok all_rules (ld_state ld))
                else Some (0, ld\<lparr> firewallIpRules := all_rules \<rparr>))
      | RULE_DOMAIN \<Rightarrow>
          (case cast_all cast_domain ruleList of None \<Rightarrow> None
           | Some rs \<Rightarrow>
             let all_rules = firewallDomainRules ld @ rs
             in if isFinish
                then (case SetFirewallDomainRules ok all_rules (ld_state ld) of
                        (ret, st) \<Rightarrow> Some (ret, ld\<lparr> firewallDomainRules := [], ld_state := st \<rparr>))
                else Some (0, ld\<lparr> firewallDomainRules := all_rules \<rparr>))
      | _ \<Rightarrow> Some (0, ld))"

definition SetFirewallDefaultAction ::
  "map_ok \<Rightarrow> int \<Rightarrow> FirewallRuleAction \<Rightarrow> FirewallRuleAction \<Rightarrow> loader \<Rightarrow> NetFirewallError \<times> loader" where
  "SetFirewallDefaultAction ok uid inDefault outDefault ld =
     (if \<not> isBpfLoaded ld then (NETFIREWALL_ERR, ld)
      else let v = \<lparr> inaction = (if inDefault = RULE_ALLOW then SK_PASS else SK_DROP),
                     outaction = (if outDefault = RULE_ALLOW then SK_PASS else SK_DROP) \<rparr>
           in case WriteBpfMap ok (MAP_PATH ''def_act_map'') (\<lambda>m. m(of_int uid \<mapsto> v)) (default_action (ld_state ld)) of
                (r, m) \<Rightarrow>
                if \<not> r then (NETFIREWALL_ERR, ld)
                else (NETFIREWALL_SUCCESS, ld\<lparr> ld_state := (ld_state ld)\<lparr> default_action := m,
                        fw_ct := snd (ClearBpfMap ok (MAP_PATH ''ct_map'') Map.empty (fw_ct (ld_state ld))) \<rparr> \<rparr>))"


datatype NetAddrInfo = Sin u32 | Sin6 in6_addr | OtherFamily

fun AddDomainCache :: "map_ok \<Rightarrow> NetAddrInfo \<Rightarrow> fw_state \<Rightarrow> fw_state" where
  "AddDomainCache ok (Sin s_addr) st = st\<lparr> domain_ipv4 := snd (WriteBpfMap ok (MAP_PATH ''domain_ipv4_map'')
     (\<lambda>m. m(ntohl s_addr \<mapsto> \<lparr> dv_appuid = 0, dv_uid = 0 \<rparr>)) (domain_ipv4 st)) \<rparr>"
| "AddDomainCache ok (Sin6 sin6) st = st\<lparr> domain_ipv6 := snd (WriteBpfMap ok (MAP_PATH ''domain_ipv6_map'')
     (\<lambda>m. m(sin6 \<mapsto> \<lparr> dv_appuid = 0, dv_uid = 0 \<rparr>)) (domain_ipv6 st)) \<rparr>"
| "AddDomainCache ok OtherFamily st = st"

subsection \<open>Written tables\<close>

text \<open>A trie keeps one entry per prefix, so a written table may have fewer entries than were written. Its lookups are
  lookups of the full list.\<close>

locale lpm_store =
  fixes len :: "'k \<Rightarrow> nat"
    and covers :: "'k \<Rightarrow> 'a \<Rightarrow> bool"
    and same :: "'k \<Rightarrow> 'k \<Rightarrow> bool"
  assumes same_len: "same k k' \<Longrightarrow> len k' = len k"
    and same_covers: "same k k' \<Longrightarrow> covers k' x = covers k x"
begin

definition stands_for :: "('k \<times> 'v) list \<Rightarrow> ('k \<times> 'v) list \<Rightarrow> bool" where
  "stands_for t entries \<longleftrightarrow> set t \<subseteq> set entries \<and>
     (\<forall>k\<in>fst ` set entries. \<exists>k'\<in>fst ` set t. len k' = len k \<and> (\<forall>x. covers k' x = covers k x))"

lemma stands_update:
  assumes "stands_for t es"
  shows "stands_for (lpm_update same k v t) (es @ [(k, v)])"
proof -
  have "\<exists>k'\<in>fst ` set (lpm_update same k v t). len k' = len j \<and> (\<forall>x. covers k' x = covers j x)"
    if "j \<in> fst ` set (es @ [(k, v)])" for j
  proof (cases "j = k")
    case True
    then show ?thesis by (auto simp: lpm_update_def)
  next
    case False
    with that have "j \<in> fst ` set es" by auto
    then obtain k' w where k': "(k', w) \<in> set t" "len k' = len j" "\<And>x. covers k' x = covers j x"
      using assms unfolding stands_for_def by fastforce
    show ?thesis
    proof (cases "same k k'")
      case True
      then have "len k = len j" "\<And>x. covers k x = covers j x" using k' same_len same_covers by metis+
      then show ?thesis by (auto simp: lpm_update_def)
    next
      case False
      then have "(k', w) \<in> set (lpm_update same k v t)" using k'(1) by (auto simp: lpm_update_def)
      with k'(2,3) show ?thesis by force
    qed
  qed
  moreover have "set (lpm_update same k v t) \<subseteq> set (es @ [(k, v)])"
    using assms by (auto simp: lpm_update_def stands_for_def)
  ultimately show ?thesis unfolding stands_for_def by blast
qed

lemma stands_write:
  assumes "stands_for t es"
  shows "stands_for (lpm_write same es' t) (es @ es')"
  using assms
proof (induction es' arbitrary: t es)
  case (Cons e es')
  from Cons.IH [OF stands_update [OF Cons.prems, of "fst e" "snd e"]] show ?case
    by (simp add: lpm_write_def split_beta)
qed (simp add: lpm_write_def)

lemma written_stands: "stands_for (lpm_write same es []) es"
  using stands_write [of "[]" "[]" es] by (simp add: stands_for_def)

lemma stands_spec:
  assumes lk: "lpm_spec len covers lk" and st: "stands_for t es"
  shows "lpm_spec len covers (\<lambda>t' x. if t' = es then lk t x else lk t' x)"
proof -
  have rep: "\<exists>k' w. (k', w) \<in> set t \<and> len k' = len k \<and> covers k' x" if "(k, v) \<in> set es" "covers k x" for k v x
    using st that unfolding stands_for_def by fastforce
  have "case lk t x of None \<Rightarrow> (\<forall>(k, v)\<in>set es. \<not> covers k x)
     | Some v \<Rightarrow> (\<exists>k. (k, v) \<in> set es \<and> covers k x \<and> (\<forall>(k', v')\<in>set es. covers k' x \<longrightarrow> len k' \<le> len k))" for x
  proof (cases "lk t x")
    case None
    from lpm_spec_None [OF lk None] rep [of _ _ x] show ?thesis using None by fastforce
  next
    case (Some v)
    from lpm_spec_Some [OF lk Some] obtain k where k: "(k, v) \<in> set t" "covers k x"
      "\<forall>(k', v')\<in>set t. covers k' x \<longrightarrow> len k' \<le> len k" by blast
    have "len k' \<le> len k" if "(k', v') \<in> set es" "covers k' x" for k' v'
      using rep [OF that] st k(3) unfolding stands_for_def by fastforce
    moreover have "(k, v) \<in> set es" using k(1) st by (auto simp: stands_for_def)
    ultimately show ?thesis using k(2) Some by auto
  qed
  with lk show ?thesis unfolding lpm_spec_def by simp
qed

lemma written_spec:
  "lpm_spec len covers lk \<Longrightarrow> \<exists>lk'. lpm_spec len covers lk' \<and> lk (lpm_write same es []) = lk' es"
  using stands_spec [OF _ written_stands, of lk es]
  by (intro exI [of _ "\<lambda>t' x. if t' = es then lk (lpm_write same es []) x else lk t' x"]) auto

lemma written_hit:
  assumes "lpm_spec len covers lk" "\<forall>(k, v)\<in>set es. v = c"
  shows "lk (lpm_write same es []) x = Some c \<longleftrightarrow> (\<exists>k\<in>fst ` set es. covers k x)"
proof -
  obtain lk' where lk': "lpm_spec len covers lk'" "lk (lpm_write same es []) = lk' es"
    using written_spec [OF assms(1)] by blast
  show ?thesis
  proof (cases "lk' es x")
    case None
    from lpm_spec_None [OF lk'(1) None] None lk'(2) show ?thesis by fastforce
  next
    case (Some v)
    from lpm_spec_Some [OF lk'(1) Some] obtain k where k: "(k, v) \<in> set es" "covers k x" by blast
    have "k \<in> fst ` set es" using k(1) by (metis fst_conv image_eqI)
    moreover have "v = c" using assms(2) k(1) by blast
    ultimately show ?thesis using k(2) Some lk'(2) by auto
  qed
qed

end



interpretation store6: lpm_store d6_prefixlen ip6_in same6
  by standard (auto simp: same6_def ip6_in_def list_all_iff)


subsection \<open>Loading a rule list\<close>

text \<open>All maps can be opened, read and written.\<close>

definition all_ok :: "map_ok \<Rightarrow> bool" where
  "all_ok ok \<longleftrightarrow> (\<forall>path. rd_valid ok path \<and> wr_valid ok path \<and> update_ok ok path \<and> delete_ok ok path)"

lemma all_okD:
  assumes "all_ok ok"
  shows "WriteBpfMap ok path write m = (True, write m)" "ClearBpfMap ok path e m = (True, e)"
  using assms by (auto simp: all_ok_def WriteBpfMap_def ClearBpfMap_def)

lemma clear_maps:
  assumes "all_ok ok"
  shows "ClearBpfFirewallRules ok ingress st = put_maps ingress empty_maps (st\<lparr> fw_ct := Map.empty \<rparr>)"
  by (simp add: ClearBpfFirewallRules_def all_okD [OF assms] empty_maps_def Let_def)

lemma GET_MAP_put [simp]: "GET_MAP (put_maps ingress m st) ingress' = (if ingress = ingress' then m else GET_MAP st ingress')"
  by (cases ingress; cases ingress'; simp add: GET_MAP_def put_maps_def)

lemma put_put [simp]: "put_maps ingress m (put_maps ingress m' st) = put_maps ingress m st"
  by (simp add: put_maps_def)

definition written_maps :: "BitmapManager \<Rightarrow> fw_maps" where
  "written_maps mg = \<lparr> saddr_map = lpm_write same4 (kern4 (srcIp4Map mg)) [], saddr6_map = lpm_write same6 (kern6 (srcIp6Map mg)) [],
     daddr_map = lpm_write same4 (kern4 (dstIp4Map mg)) [], daddr6_map = lpm_write same6 (kern6 (dstIp6Map mg)) [],
     sport_map = lpm_write same_port (kernp (srcPortMap mg)) [], dport_map = lpm_write same_port (kernp (dstPortMap mg)) [],
     proto_map = protoMap mg, action_map = actionMap mg, appuid_map = appUidMap mg, uid_map = uidMap mg,
     iface_map = (\<lambda>devName. if length devName \<ge> INTERFACE_NAME_MAX_LEN then None else interfaceMap mg devName) \<rparr>"

lemma write_empty [simp]: "lpm_write same4 (kern4 []) [] = []" "lpm_write same6 (kern6 []) [] = []" "lpm_write same_port (kernp []) [] = []"
  by (simp_all add: lpm_write_def kern4_def kern6_def kernp_def)

lemma writes:
  assumes "all_ok ok"
  shows "saddr_map m = [] \<Longrightarrow> snd (WriteSrcIpv4BpfMap ok mg ingress m) = m\<lparr> saddr_map := lpm_write same4 (kern4 (srcIp4Map mg)) [] \<rparr>"
    "daddr_map m = [] \<Longrightarrow> snd (WriteDstIpv4BpfMap ok mg ingress m) = m\<lparr> daddr_map := lpm_write same4 (kern4 (dstIp4Map mg)) [] \<rparr>"
    "saddr6_map m = [] \<Longrightarrow> snd (WriteSrcIpv6BpfMap ok mg ingress m) = m\<lparr> saddr6_map := lpm_write same6 (kern6 (srcIp6Map mg)) [] \<rparr>"
    "daddr6_map m = [] \<Longrightarrow> snd (WriteDstIpv6BpfMap ok mg ingress m) = m\<lparr> daddr6_map := lpm_write same6 (kern6 (dstIp6Map mg)) [] \<rparr>"
    "sport_map m = [] \<Longrightarrow> snd (WriteSrcPortBpfMap ok mg ingress m) = m\<lparr> sport_map := lpm_write same_port (kernp (srcPortMap mg)) [] \<rparr>"
    "dport_map m = [] \<Longrightarrow> snd (WriteDstPortBpfMap ok mg ingress m) = m\<lparr> dport_map := lpm_write same_port (kernp (dstPortMap mg)) [] \<rparr>"
    "proto_map m = Map.empty \<Longrightarrow> snd (WriteProtoBpfMap ok mg ingress m) = m\<lparr> proto_map := protoMap mg \<rparr>"
    "appuid_map m = Map.empty \<Longrightarrow> snd (WriteAppUidBpfMap ok mg ingress m) = m\<lparr> appuid_map := appUidMap mg \<rparr>"
    "uid_map m = Map.empty \<Longrightarrow> snd (WriteUidBpfMap ok mg ingress m) = m\<lparr> uid_map := uidMap mg \<rparr>"
    "action_map m = Map.empty \<Longrightarrow> snd (WriteActionBpfMap ok mg ingress m) = m\<lparr> action_map := actionMap mg \<rparr>"
    "iface_map m = Map.empty \<Longrightarrow> snd (WriteInterfaceBpfMap ok mg ingress m) = m\<lparr> iface_map :=
       (\<lambda>devName. if length devName \<ge> INTERFACE_NAME_MAX_LEN then None else interfaceMap mg devName) \<rparr>"
  by (simp_all add: WriteSrcIpv4BpfMap_def WriteDstIpv4BpfMap_def WriteSrcIpv6BpfMap_def WriteDstIpv6BpfMap_def
      WriteSrcPortBpfMap_def WriteDstPortBpfMap_def WritePortBpfMap_def WriteProtoBpfMap_def WriteAppUidBpfMap_def
      WriteUidBpfMap_def WriteActionBpfMap_def WriteInterfaceBpfMap_def all_okD [OF assms] Let_def GET_MAP_PATH_def MAP_PATH_def cong: if_cong)

lemma SetBpfFirewallRules_written:
  assumes ok: "all_ok ok" and built: "BuildBitmapMap rs = Some (NETFIREWALL_SUCCESS, mg)"
  shows "SetBpfFirewallRules ok rs ingress st =
    Some (NETFIREWALL_SUCCESS, put_maps ingress (written_maps mg) (st\<lparr> fw_ct := Map.empty \<rparr>))"
  by (simp add: SetBpfFirewallRules_def built clear_maps [OF ok] Let_def empty_maps_def writes [OF ok] written_maps_def)


text \<open>The rules of one direction, and the rules that the maps can represent.\<close>

definition dir_rules :: "bool \<Rightarrow> NetFirewallIpRule list \<Rightarrow> NetFirewallIpRule list" where
  "dir_rules ingress rs = (if ingress then in_rules rs else out_rules rs)"


lemma err_code_nonneg: "err_code e \<ge> 0"
  by (cases e) simp_all

lemma err_code_zero [simp]: "err_code e = 0 \<longleftrightarrow> e = NETFIREWALL_SUCCESS"
  by (cases e) simp_all

lemma SetBpfFirewallRules_SomeD:
  assumes "all_ok ok" "SetBpfFirewallRules ok rs ingress st = Some (NETFIREWALL_SUCCESS, st')"
  shows "\<exists>mg. BuildBitmapMap rs = Some (NETFIREWALL_SUCCESS, mg) \<and>
    st' = put_maps ingress (written_maps mg) (st\<lparr> fw_ct := Map.empty \<rparr>)"
proof -
  from assms(2) obtain mg where mg: "BuildBitmapMap rs = Some (NETFIREWALL_SUCCESS, mg)"
    by (auto simp: SetBpfFirewallRules_def Let_def split: option.splits prod.splits if_splits)
  with SetBpfFirewallRules_written [OF assms(1) mg, of ingress st] assms(2) show ?thesis by simp
qed

text \<open>What one call of \<^verbatim>\<open>SetFirewallIpRules\<close> leaves in the maps of a direction that has rules.\<close>

lemma SetFirewallIpRules_steps:
  assumes "SetFirewallIpRules ok rs st0 = Some (0, st)"
  obtains st1 where
    "in_rules rs \<noteq> [] \<Longrightarrow> SetBpfFirewallRules ok (map Some (in_rules rs)) True st0 = Some (NETFIREWALL_SUCCESS, st1)"
    "in_rules rs = [] \<Longrightarrow> st1 = st0"
    "out_rules rs \<noteq> [] \<Longrightarrow> SetBpfFirewallRules ok (map Some (out_rules rs)) False st1 = Some (NETFIREWALL_SUCCESS, st)"
    "out_rules rs = [] \<Longrightarrow> st = st1"
proof -
  obtain ret1 st1 where 1: "(if in_rules rs \<noteq> [] then SetBpfFirewallRules ok (map Some (in_rules rs)) True st0
      else Some (NETFIREWALL_SUCCESS, st0)) = Some (ret1, st1)"
    using assms unfolding SetFirewallIpRules_def by (auto split: option.splits)
  obtain ret2 where 2: "(if out_rules rs \<noteq> [] then SetBpfFirewallRules ok (map Some (out_rules rs)) False st1
      else Some (NETFIREWALL_SUCCESS, st1)) = Some (ret2, st)" and z: "err_code ret1 + err_code ret2 = 0"
    using assms unfolding SetFirewallIpRules_def 1 by (auto split: option.splits)
  have "err_code ret1 = 0" "err_code ret2 = 0" using z err_code_nonneg [of ret1] err_code_nonneg [of ret2] by linarith+
  then have "ret1 = NETFIREWALL_SUCCESS" "ret2 = NETFIREWALL_SUCCESS" by simp_all
  then show thesis using 1 2 by (intro that [of st1]) simp_all
qed

lemma put_maps_fixed [simp]: "fw_ct (put_maps ingress m st) = fw_ct st" "default_action (put_maps ingress m st) = default_action st"
  "current_uid (put_maps ingress m st) = current_uid st"
  by (simp_all add: put_maps_def)



lemma cast_all_append: "cast_all f (xs @ ys) = (case cast_all f xs of None \<Rightarrow> None
    | Some us \<Rightarrow> map_option ((@) us) (cast_all f ys))"
  by (induction xs; cases "cast_all f ys") (auto split: option.splits)

text \<open>A rule list whose directions compile is loaded, and nothing but the rule maps and the tracking map changes.\<close>

definition rest_part :: "fw_state \<Rightarrow> _" where
  "rest_part st = (default_action st, current_uid st, domain_ipv4 st, domain_ipv6 st, loop_ipv4 st, loop_ipv6 st,
     domain_pass st, domain_deny st, domain_data st, fw_events st, fw_resets st)"

lemma rest_part_put [simp]: "rest_part (put_maps ingress m st) = rest_part st" "rest_part (st\<lparr> fw_ct := ct \<rparr>) = rest_part st"
  by (simp_all add: rest_part_def put_maps_def)


lemma SetFirewallIpRules_compiled:
  assumes ok: "all_ok ok"
    and i: "in_rules rs \<noteq> [] \<Longrightarrow> map_option fst (BuildBitmapMap (map Some (in_rules rs))) = Some NETFIREWALL_SUCCESS"
    and o: "out_rules rs \<noteq> [] \<Longrightarrow> map_option fst (BuildBitmapMap (map Some (out_rules rs))) = Some NETFIREWALL_SUCCESS"
  shows "\<exists>st. SetFirewallIpRules ok rs st0 = Some (0, st)"
proof -
  have dir: "\<exists>st. SetBpfFirewallRules ok rules ingress st1 = Some (NETFIREWALL_SUCCESS, st)"
    if build: "map_option fst (BuildBitmapMap rules) = Some NETFIREWALL_SUCCESS" for rules ingress st1
  proof -
    obtain mg where "BuildBitmapMap rules = Some (NETFIREWALL_SUCCESS, mg)" using build by auto
    from SetBpfFirewallRules_written [OF ok this] show ?thesis by blast
  qed
  obtain st1 where 1: "(if in_rules rs \<noteq> [] then SetBpfFirewallRules ok (map Some (in_rules rs)) True st0
      else Some (NETFIREWALL_SUCCESS, st0)) = Some (NETFIREWALL_SUCCESS, st1)"
    using dir [OF i] by (cases "in_rules rs = []") auto
  obtain st2 where 2: "(if out_rules rs \<noteq> [] then SetBpfFirewallRules ok (map Some (out_rules rs)) False st1
      else Some (NETFIREWALL_SUCCESS, st1)) = Some (NETFIREWALL_SUCCESS, st2)"
    using dir [OF o] by (cases "out_rules rs = []") auto
  have "SetFirewallIpRules ok rs st0 = Some (0, st2)" unfolding SetFirewallIpRules_def 1 by (simp add: 2)
  then show ?thesis by blast
qed

lemma other_direction_kept:
  assumes ok: "all_ok ok" and load: "SetFirewallIpRules ok rs st0 = Some (0, st)" and none: "dir_rules ingress rs = []"
  shows "GET_MAP st ingress = GET_MAP st0 ingress"
proof -
  from SetFirewallIpRules_steps [OF load] obtain st1 where
    i: "in_rules rs \<noteq> [] \<Longrightarrow> SetBpfFirewallRules ok (map Some (in_rules rs)) True st0 = Some (NETFIREWALL_SUCCESS, st1)"
    and ni: "in_rules rs = [] \<Longrightarrow> st1 = st0"
    and o: "out_rules rs \<noteq> [] \<Longrightarrow> SetBpfFirewallRules ok (map Some (out_rules rs)) False st1 = Some (NETFIREWALL_SUCCESS, st)"
    and no: "out_rules rs = [] \<Longrightarrow> st = st1" by metis
  have "GET_MAP st1 ingress = GET_MAP st0 ingress"
    using SetBpfFirewallRules_SomeD [OF ok i] ni none by (cases "in_rules rs = []") (auto simp: dir_rules_def split: if_splits)
  moreover have "GET_MAP st ingress = GET_MAP st1 ingress"
    using SetBpfFirewallRules_SomeD [OF ok o] no none by (cases "out_rules rs = []") (auto simp: dir_rules_def split: if_splits)
  ultimately show ?thesis by simp
qed

subsection \<open>From a rule list to a verdict\<close>



subsection \<open>Loading domain rules\<close>



















subsection \<open>A cleared firewall\<close>

definition open_state :: "fw_state \<Rightarrow> bool" where
  "open_state st \<longleftrightarrow> in_maps st = empty_maps \<and> out_maps st = empty_maps \<and> default_action st = Map.empty \<and> domain_deny st = []"

lemma open_dns:
  assumes lk: "lpm_spec dk_prefixlen domain_covers (lkdomain kl)" and st: "open_state st"
  shows "fst (match_dns_query kl room skb st) = SK_PASS"
proof -
  have none: "lkdomain kl [] k = None" for k using lpm_spec_Some [OF lk, of "[]" k] by (cases "lkdomain kl [] k") auto
  have deny: "domain_deny st = []" using st by (simp add: open_state_def)
  have look: "\<not> fst (fst (domain_lookups kl skb key st))" for key
    by (simp add: domain_lookups_def Let_def deny none)
  have "\<not> fst (parse_dns_query kl skb off n d st)" for off n d
    using look by (simp add: parse_dns_query_def split_beta split: option.splits)
  moreover have "\<not> fst (parse_dns_response kl room skb off n m d st)" for off n m d
    using look by (simp add: parse_dns_response_def split_beta split: option.splits)
  ultimately show ?thesis by (simp add: match_dns_query_def Let_def split_beta)
qed

lemma open_state_fixed: "fixed_part st1 = fixed_part st \<Longrightarrow> open_state st1 = open_state st"
  by (simp add: open_state_def fixed_part_def)

lemma open_match_action: "open_state st \<Longrightarrow> match_action st t key = SK_PASS"
  by (simp add: match_action_def open_state_def GET_MAP_def empty_maps_def Let_def)

lemma open_passes:
  assumes lk: "lpm_spec dk_prefixlen domain_covers (lkdomain (ke_lookup env))" and st: "open_state st"
  shows "fst (netfirewall_policy_ingress env skb st) = SK_PASS \<and> fst (netfirewall_policy_egress env skb st) = SK_PASS"
proof -
  obtain st1 where dns: "match_dns_query (ke_lookup env) (ke_domain_room env) skb st = (SK_PASS, st1)"
    using open_dns [OF lk st, of "ke_domain_room env" skb] by (metis prod.collapse)
  have "open_state st1" using open_state_fixed [OF dns_st1 [OF dns]] st by simp
  then have act: "match_action st1 t key = SK_PASS" for t key by (rule open_match_action)
  show ?thesis
    unfolding netfirewall_policy_ingress_def netfirewall_policy_egress_def dns
    by (simp add: Let_def split_beta act split: option.splits)
qed

definition rule_part :: "fw_state \<Rightarrow> _" where
  "rule_part st = (in_maps st, out_maps st, default_action st, domain_deny st)"

lemma rule_part_simps [simp]:
  "rule_part (st\<lparr> fw_ct := ct \<rparr>) = rule_part st" "rule_part (log_intercept_event env t skb st) = rule_part st"
  "rule_part (snd (send_sock_tcp_reset t dir (log_intercept env t st))) = rule_part st"
  by (simp_all add: rule_part_def log_intercept_event_def send_sock_tcp_reset_def log_intercept_def)

lemma rule_part_fixed: "fixed_part st1 = fixed_part st \<Longrightarrow> rule_part st1 = rule_part st"
  by (simp add: rule_part_def fixed_part_def)

lemma policy_rule_part:
  "rule_part (snd (netfirewall_policy_ingress env skb st)) = rule_part st"
  "rule_part (snd (netfirewall_policy_egress env skb st)) = rule_part st"
proof -
  obtain act st1 where dns: "match_dns_query (ke_lookup env) (ke_domain_room env) skb st = (act, st1)" by fastforce
  note st1 = rule_part_fixed [OF dns_st1 [OF dns]]
  show "rule_part (snd (netfirewall_policy_ingress env skb st)) = rule_part st"
    unfolding netfirewall_policy_ingress_def dns by (simp add: Let_def split_beta st1 split: option.splits)
  show "rule_part (snd (netfirewall_policy_egress env skb st)) = rule_part st"
    unfolding netfirewall_policy_egress_def dns by (simp add: Let_def split_beta st1 split: option.splits)
qed

lemma run_rule_part: "fw_step\<^sup>*\<^sup>* st st' \<Longrightarrow> rule_part st' = rule_part st"
  by (induction rule: rtranclp_induct) (auto simp: policy_rule_part elim!: fw_step.cases)

lemma open_state_rule_part: "open_state st \<longleftrightarrow> rule_part st = (empty_maps, empty_maps, Map.empty, [])"
  by (simp add: open_state_def rule_part_def)

lemma ClearFirewallRules_open:
  assumes "all_ok ok" "isBpfLoaded ld"
  shows "open_state (ld_state (snd (ClearFirewallRules ok RULE_ALL ld)))"
  using assms(2)
  by (simp add: ClearFirewallRules_def Let_def clear_maps [OF assms(1)] ClearDomainRules_def ClearDomainCache_def
      ClearFirewallDefaultAction_def all_okD [OF assms(1)] open_state_def put_maps_def split_beta)




subsection \<open>Properties\<close>

definition working :: map_ok where
  "working = \<lparr> rd_valid = (\<lambda>_. True), wr_valid = (\<lambda>_. True), update_ok = (\<lambda>_. True), delete_ok = (\<lambda>_. True) \<rparr>"

lemma all_ok_working [simp]: "all_ok working"
  by (simp add: all_ok_def working_def)

definition sample_rule :: NetFirewallIpRule where
  "sample_rule = \<lparr> userId = 0, appUid = 0, ruleDirection = RULE_IN, ruleAction = RULE_DENY, protocol = 0, localIps = [],
     remoteIps = [\<lparr> ip_family = FAMILY_IPV4, ip_type = SINGLE_IP, ip_mask = 16, ip4_startIp = 0x00000101, ip4_endIp = 0,
       ip6_startIp = [], ip6_endIp = [] \<rparr>], localPorts = [], remotePorts = [], rule_interface = ''eth0'' \<rparr>"







text \<open>C4: Clearing all rules opens the firewall: in every run that follows, every packet passes in both directions.\<close>

theorem cleared_firewall_passes:
  assumes "all_ok ok" "isBpfLoaded ld"
    and "fw_step\<^sup>*\<^sup>* (ld_state (snd (ClearFirewallRules ok RULE_ALL ld))) st"
    and "lpm_spec dk_prefixlen domain_covers (lkdomain (ke_lookup env))"
  shows "fst (netfirewall_policy_ingress env skb st) = SK_PASS \<and> fst (netfirewall_policy_egress env skb st) = SK_PASS"
  using ClearFirewallRules_open [OF assms(1,2)] run_rule_part [OF assms(3)] open_passes [OF assms(4)]
  by (simp add: open_state_rule_part)

theorem cleared_firewall_passes_witness:
  "fst (netfirewall_policy_ingress scan_env (packet_of (\<lambda>i. 1)) (ld_state (snd (ClearFirewallRules working RULE_ALL
     \<lparr> isBpfLoaded = True, firewallIpRules = [], firewallDomainRules = [], ld_state = deny_all_state \<rparr>)))) = SK_PASS"
  using cleared_firewall_passes [OF all_ok_working _ rtranclp.rtrancl_refl, of
      "\<lparr> isBpfLoaded = True, firewallIpRules = [], firewallDomainRules = [], ld_state = deny_all_state \<rparr>" scan_env]
  by (simp add: scan_env_def scan_lookup_def lpm_scan_spec)

text \<open>C24: Rules may arrive in pages: a page followed by the last page loads the same as one call with both.\<close>

theorem paged_rules_load:
  assumes "isBpfLoaded ld" "page1 \<noteq> []" "page2 \<noteq> []" "SetFirewallRules ok type page1 False ld = Some (0, ld')"
  shows "SetFirewallRules ok type page2 True ld' = SetFirewallRules ok type (page1 @ page2) True ld"
  using assms
  by (cases type) (auto simp: SetFirewallRules_def cast_all_append Let_def option.map_comp comp_def append_assoc
    split: option.splits)

theorem paged_rules_load_witness:
  "let ld = \<lparr> isBpfLoaded = True, firewallIpRules = [], firewallDomainRules = [], ld_state = initial_state \<rparr>
   in \<exists>ld'. SetFirewallRules working RULE_IP [IpRule sample_rule] False ld = Some (0, ld') \<and>
        SetFirewallRules working RULE_IP [IpRule sample_rule] True ld' =
        SetFirewallRules working RULE_IP [IpRule sample_rule, IpRule sample_rule] True ld"
proof -
  let ?ld = "\<lparr> isBpfLoaded = True, firewallIpRules = [], firewallDomainRules = [], ld_state = initial_state \<rparr>"
  have "SetFirewallRules working RULE_IP [IpRule sample_rule] False ?ld = Some (0, ?ld\<lparr> firewallIpRules := [sample_rule] \<rparr>)"
    by (simp add: SetFirewallRules_def Let_def)
  from paged_rules_load [OF _ _ _ this, of "[IpRule sample_rule]"] this show ?thesis by (simp add: Let_def)
qed

text \<open>C36: A rule list without rules for one direction leaves that direction's maps as they were: rules of an earlier
  list stay in force until the maps are cleared.\<close>

theorem empty_direction_keeps_old_rules:
  assumes "all_ok ok" "SetFirewallIpRules ok rs st0 = Some (0, st)" "dir_rules ingress rs = []"
  shows "GET_MAP st ingress = GET_MAP st0 ingress"
  by (rule other_direction_kept [OF assms])

theorem empty_direction_keeps_old_rules_witness:
  "\<exists>st. SetFirewallIpRules working [sample_rule] initial_state = Some (0, st) \<and> out_maps st = empty_maps"
proof -
  have dir: "in_rules [sample_rule] = [sample_rule]" "out_rules [sample_rule] = []" by code_simp+
  have "map_option fst (BuildBitmapMap [Some sample_rule]) = Some NETFIREWALL_SUCCESS" by code_simp
  then obtain st where load: "SetFirewallIpRules working [sample_rule] initial_state = Some (0, st)"
    using SetFirewallIpRules_compiled [of working "[sample_rule]" initial_state] dir by auto
  with empty_direction_keeps_old_rules [OF all_ok_working load, of False] dir show ?thesis
    by (simp add: dir_rules_def GET_MAP_def initial_state_def)
qed

text \<open>C25: Setting the default action takes effect at once: the rules fall back to it for the user's packets in each
  direction, other users keep theirs, and no connection stays exempt because it was tracked before.\<close>

theorem default_action_takes_effect:
  assumes "all_ok ok" "SetFirewallDefaultAction ok uid inDefault outDefault ld = (NETFIREWALL_SUCCESS, ld')"
  shows "default_for (ld_state ld') t =
      (if t_uid t = of_int uid
       then (if (if t_dir t = INGRESS then inDefault else outDefault) = RULE_ALLOW then SK_PASS else SK_DROP)
       else default_for (ld_state ld) t) \<and>
    untracked env (ld_state ld') t"
  using assms(2) by (auto simp: SetFirewallDefaultAction_def all_okD [OF assms(1)] Let_def default_for_def untracked_def
      split: if_splits)

theorem default_action_takes_effect_witness:
  "\<exists>ld'. SetFirewallDefaultAction working 100 RULE_DENY RULE_ALLOW
      \<lparr> isBpfLoaded = True, firewallIpRules = [], firewallDomainRules = [], ld_state = initial_state \<rparr> = (NETFIREWALL_SUCCESS, ld') \<and>
     default_for (ld_state ld') (zero_tuple\<lparr> t_dir := INGRESS, t_uid := 100 \<rparr>) = SK_DROP"
proof -
  let ?ld = "\<lparr> isBpfLoaded = True, firewallIpRules = [], firewallDomainRules = [], ld_state = initial_state \<rparr>"
  obtain ld' where set: "SetFirewallDefaultAction working 100 RULE_DENY RULE_ALLOW ?ld = (NETFIREWALL_SUCCESS, ld')"
    by (simp add: SetFirewallDefaultAction_def all_okD [OF all_ok_working] Let_def)
  from default_action_takes_effect [OF all_ok_working set, of "zero_tuple\<lparr> t_dir := INGRESS, t_uid := 100 \<rparr>"] set
  show ?thesis by simp
qed



text \<open>Once the programs are loaded, loopback traffic is recognised: packets between addresses of 127.0.0.0/8, and
  between ::1 and itself, count as loopback for every lookup that returns a longest prefix.\<close>

theorem loopback_recognised:
  assumes ok: "all_ok ok"
    and lk: "lpm_spec d4_mask ip4_in (lk4_loop kl)" "lpm_spec d6_prefixlen ip6_in (lk6_loop kl)"
    and t: "t_family t = AF_INET \<and> drop_bit 24 (ntohl (t_saddr t)) = 127 \<and> drop_bit 24 (ntohl (t_daddr t)) = 127 \<or>
      t_family t = AF_INET6 \<and> t_saddr6 t = replicate 15 0 @ [1] \<and> t_daddr6 t = replicate 15 0 @ [1]"
  shows "match_loopback kl (ld_state (SetBpfLoaded ok True ld)) t"
proof -
  let ?st = "ld_state (SetBpfLoaded ok True ld)"
  let ?k4 = "\<lparr> d4_mask = 8, d4_data = 0x7f000000 \<rparr>" and ?k6 = "\<lparr> d6_prefixlen = 128, d6_data = replicate 15 0 @ [1] \<rparr>"
  have mem: "(?k4, 1) \<in> set (loop_ipv4 ?st)" "(?k6, 1) \<in> set (loop_ipv6 ?st)"
    by (simp_all add: SetBpfLoaded_def WriteLoopBackBpfMap_def all_okD [OF ok] lpm_update_def Let_def)
  have 4: "lk4_loop kl (loop_ipv4 ?st) x \<noteq> None" if "drop_bit 24 x = 127" for x
  proof
    assume "lk4_loop kl (loop_ipv4 ?st) x = None"
    from lpm_spec_None [OF lk(1) this] mem(1) have "\<not> ip4_in ?k4 x" by blast
    then show False using that by (simp add: ip4_in_def)
  qed
  have 6: "lk6_loop kl (loop_ipv6 ?st) (replicate 15 0 @ [1]) \<noteq> None"
  proof
    assume "lk6_loop kl (loop_ipv6 ?st) (replicate 15 0 @ [1]) = None"
    from lpm_spec_None [OF lk(2) this] mem(2) have "\<not> ip6_in ?k6 (replicate 15 0 @ [1])" by blast
    then show False by (simp add: ip6_in_def list_all_iff)
  qed
  from t 4 [of "ntohl (t_saddr t)"] 4 [of "ntohl (t_daddr t)"] 6 show ?thesis
    by (auto simp: match_loopback_def Let_def AF_INET_def AF_INET6_def simp del: replicate.simps split: option.splits)
qed

theorem loopback_recognised_witness:
  "match_loopback scan_lookup (ld_state (SetBpfLoaded working True
     \<lparr> isBpfLoaded = False, firewallIpRules = [], firewallDomainRules = [], ld_state = initial_state \<rparr>))
     (zero_tuple\<lparr> t_family := AF_INET, t_saddr := 0x0100007f, t_daddr := 0x0100007f \<rparr>)"
proof (rule loopback_recognised [OF all_ok_working])
  let ?t = "zero_tuple\<lparr> t_family := AF_INET, t_saddr := 0x0100007f, t_daddr := 0x0100007f \<rparr>"
  have "t_family ?t = AF_INET \<and> drop_bit 24 (ntohl (t_saddr ?t)) = 127 \<and> drop_bit 24 (ntohl (t_daddr ?t)) = 127" by code_simp
  then show "t_family ?t = AF_INET \<and> drop_bit 24 (ntohl (t_saddr ?t)) = 127 \<and> drop_bit 24 (ntohl (t_daddr ?t)) = 127 \<or>
      t_family ?t = AF_INET6 \<and> t_saddr6 ?t = replicate 15 0 @ [1] \<and> t_daddr6 ?t = replicate 15 0 @ [1]" by blast
qed (simp_all add: scan_lookup_def lpm_scan_spec)






end
