(* ===== verification/Pc_Parcel.thy ===== *)
theory Pc_Parcel
  imports Prelude "HOL-Library.Monad_Syntax"
begin

text \<open>
  Parcels, the byte buffers that carry data between processes. The class \<^verbatim>\<open>Parcel\<close> is not part of the repository: its
  operations are the fields of \<^verbatim>\<open>parcel_ops\<close>, an argument of every function that reads or writes one, and
  \<^verbatim>\<open>parcel_spec\<close> states the documented behaviour, that values are read back in the order and with the type in which
  they were written. A failed operation is \<^verbatim>\<open>None\<close>; the callers abandon the parcel then. The judgements \<^verbatim>\<open>writes\<close> and
  \<^verbatim>\<open>reads\<close> follow the sequence of operations of a function, and the locale \<^verbatim>\<open>codec\<close> is the contract of a pair of
  functions that belong together. The lists of such values are codecs again.
\<close>

type_synonym s8 = "8 word"
type_synonym s32 = "32 word"
type_synonym s64 = "64 word"

record 'p parcel_ops =
  WriteBool :: "bool \<Rightarrow> 'p \<Rightarrow> 'p option"
  WriteInt8 :: "s8 \<Rightarrow> 'p \<Rightarrow> 'p option"
  WriteInt32 :: "s32 \<Rightarrow> 'p \<Rightarrow> 'p option"
  WriteInt64 :: "s64 \<Rightarrow> 'p \<Rightarrow> 'p option"
  WriteUint8 :: "u8 \<Rightarrow> 'p \<Rightarrow> 'p option"
  WriteUint16 :: "u16 \<Rightarrow> 'p \<Rightarrow> 'p option"
  WriteUint32 :: "u32 \<Rightarrow> 'p \<Rightarrow> 'p option"
  WriteUint64 :: "u64 \<Rightarrow> 'p \<Rightarrow> 'p option"
  WriteString :: "string \<Rightarrow> 'p \<Rightarrow> 'p option"
  ReadBool :: "'p \<Rightarrow> (bool \<times> 'p) option"
  ReadInt8 :: "'p \<Rightarrow> (s8 \<times> 'p) option"
  ReadInt32 :: "'p \<Rightarrow> (s32 \<times> 'p) option"
  ReadInt64 :: "'p \<Rightarrow> (s64 \<times> 'p) option"
  ReadUint8 :: "'p \<Rightarrow> (u8 \<times> 'p) option"
  ReadUint16 :: "'p \<Rightarrow> (u16 \<times> 'p) option"
  ReadUint32 :: "'p \<Rightarrow> (u32 \<times> 'p) option"
  ReadUint64 :: "'p \<Rightarrow> (u64 \<times> 'p) option"
  ReadString :: "'p \<Rightarrow> (string \<times> 'p) option"

text \<open>The values a parcel still holds. Signed and unsigned integers of a width share their representation.\<close>

datatype pval = VBool bool | V8 u8 | V16 u16 | V32 u32 | V64 u64 | VStr string

definition writes :: "('p \<Rightarrow> pval list) \<Rightarrow> ('p \<Rightarrow> 'p option) \<Rightarrow> pval list \<Rightarrow> bool" where
  "writes pending f vs \<longleftrightarrow> (\<forall>p p'. f p = Some p' \<longrightarrow> pending p' = pending p @ vs)"

definition reads :: "('p \<Rightarrow> pval list) \<Rightarrow> ('p \<Rightarrow> ('a \<times> 'p) option) \<Rightarrow> pval list \<Rightarrow> 'a \<Rightarrow> bool" where
  "reads pending f vs x \<longleftrightarrow> (\<forall>p ws. pending p = vs @ ws \<longrightarrow> (\<exists>p'. f p = Some (x, p') \<and> pending p' = ws))"

definition parcel_spec :: "'p parcel_ops \<Rightarrow> ('p \<Rightarrow> pval list) \<Rightarrow> bool" where
  "parcel_spec io pending \<longleftrightarrow>
     (\<forall>x. writes pending (WriteBool io x) [VBool x] \<and> reads pending (ReadBool io) [VBool x] x) \<and>
     (\<forall>x. writes pending (WriteInt8 io x) [V8 x] \<and> reads pending (ReadInt8 io) [V8 x] x) \<and>
     (\<forall>x. writes pending (WriteInt32 io x) [V32 x] \<and> reads pending (ReadInt32 io) [V32 x] x) \<and>
     (\<forall>x. writes pending (WriteInt64 io x) [V64 x] \<and> reads pending (ReadInt64 io) [V64 x] x) \<and>
     (\<forall>x. writes pending (WriteUint8 io x) [V8 x] \<and> reads pending (ReadUint8 io) [V8 x] x) \<and>
     (\<forall>x. writes pending (WriteUint16 io x) [V16 x] \<and> reads pending (ReadUint16 io) [V16 x] x) \<and>
     (\<forall>x. writes pending (WriteUint32 io x) [V32 x] \<and> reads pending (ReadUint32 io) [V32 x] x) \<and>
     (\<forall>x. writes pending (WriteUint64 io x) [V64 x] \<and> reads pending (ReadUint64 io) [V64 x] x) \<and>
     (\<forall>x. writes pending (WriteString io x) [VStr x] \<and> reads pending (ReadString io) [VStr x] x)"

text \<open>A parcel that is the list of its values meets the specification.\<close>

fun take_bool :: "pval list \<Rightarrow> (bool \<times> pval list) option" where
  "take_bool (VBool x # vs) = Some (x, vs)" | "take_bool _ = None"
fun take_8 :: "pval list \<Rightarrow> (u8 \<times> pval list) option" where
  "take_8 (V8 x # vs) = Some (x, vs)" | "take_8 _ = None"
fun take_16 :: "pval list \<Rightarrow> (u16 \<times> pval list) option" where
  "take_16 (V16 x # vs) = Some (x, vs)" | "take_16 _ = None"
fun take_32 :: "pval list \<Rightarrow> (u32 \<times> pval list) option" where
  "take_32 (V32 x # vs) = Some (x, vs)" | "take_32 _ = None"
fun take_64 :: "pval list \<Rightarrow> (u64 \<times> pval list) option" where
  "take_64 (V64 x # vs) = Some (x, vs)" | "take_64 _ = None"
fun take_str :: "pval list \<Rightarrow> (string \<times> pval list) option" where
  "take_str (VStr x # vs) = Some (x, vs)" | "take_str _ = None"

definition list_parcel :: "pval list parcel_ops" where
  "list_parcel = \<lparr> WriteBool = (\<lambda>x p. Some (p @ [VBool x])), WriteInt8 = (\<lambda>x p. Some (p @ [V8 x])),
     WriteInt32 = (\<lambda>x p. Some (p @ [V32 x])), WriteInt64 = (\<lambda>x p. Some (p @ [V64 x])),
     WriteUint8 = (\<lambda>x p. Some (p @ [V8 x])), WriteUint16 = (\<lambda>x p. Some (p @ [V16 x])),
     WriteUint32 = (\<lambda>x p. Some (p @ [V32 x])), WriteUint64 = (\<lambda>x p. Some (p @ [V64 x])),
     WriteString = (\<lambda>x p. Some (p @ [VStr x])),
     ReadBool = take_bool, ReadInt8 = take_8, ReadInt32 = take_32, ReadInt64 = take_64, ReadUint8 = take_8,
     ReadUint16 = take_16, ReadUint32 = take_32, ReadUint64 = take_64, ReadString = take_str \<rparr>"

lemma list_parcel_spec [simp]: "parcel_spec list_parcel id"
  by (simp add: parcel_spec_def list_parcel_def writes_def reads_def)

subsection \<open>Sequences of operations\<close>

text \<open>Rules that follow a sequence from its first operation, one value after the other.\<close>

lemma writes_bind: "writes pending f vs \<Longrightarrow> writes pending g us \<Longrightarrow> writes pending (\<lambda>p. f p \<bind> g) (vs @ us)"
  unfolding writes_def by (auto simp: bind_eq_Some_conv)

lemma writes_cons: "writes pending f [v] \<Longrightarrow> writes pending g us \<Longrightarrow> writes pending (\<lambda>p. f p \<bind> g) (v # us)"
  using writes_bind [of pending f "[v]" g us] by simp

lemma writes_return: "writes pending Some []"
  by (simp add: writes_def)

lemma writes_if: "(c \<Longrightarrow> writes pending f vs) \<Longrightarrow> (\<not> c \<Longrightarrow> writes pending g us) \<Longrightarrow>
    writes pending (\<lambda>p. if c then f p else g p) (if c then vs else us)"
  by (cases c) simp_all

lemma reads_bind:
  assumes "reads pending f vs x" "reads pending (g x) us y"
  shows "reads pending (\<lambda>p. f p \<bind> (\<lambda>(a, q). g a q)) (vs @ us) y"
  unfolding reads_def
proof (intro allI impI)
  fix p rest assume "pending p = (vs @ us) @ rest"
  then have "pending p = vs @ us @ rest" by simp
  then obtain q where q: "f p = Some (x, q)" "pending q = us @ rest" using assms(1) unfolding reads_def by blast
  then obtain p' where "g x q = Some (y, p')" "pending p' = rest" using assms(2) unfolding reads_def by blast
  with q show "\<exists>p'. (f p \<bind> (\<lambda>(a, q). g a q)) = Some (y, p') \<and> pending p' = rest" by simp
qed

lemma reads_cons: "reads pending f [v] x \<Longrightarrow> reads pending (g x) us y \<Longrightarrow> reads pending (\<lambda>p. f p \<bind> (\<lambda>(a, q). g a q)) (v # us) y"
  using reads_bind [of pending f "[v]" x g us y] by simp

lemma reads_return: "x = y \<Longrightarrow> reads pending (\<lambda>p. Some (x, p)) [] y"
  by (simp add: reads_def)

lemma reads_guard: "\<not> c \<Longrightarrow> reads pending f vs x \<Longrightarrow> reads pending (\<lambda>p. if c then None else f p) vs x"
  by simp

lemma reads_if: "(c \<Longrightarrow> reads pending f vs x) \<Longrightarrow> (\<not> c \<Longrightarrow> reads pending g us x) \<Longrightarrow>
    reads pending (\<lambda>p. if c then f p else g p) (if c then vs else us) x"
  by (cases c) simp_all

lemma parcel_prims:
  assumes "parcel_spec io pending"
  shows "writes pending (WriteBool io b) [VBool b]" "reads pending (ReadBool io) [VBool b] b"
    "writes pending (WriteInt8 io x) [V8 x]" "reads pending (ReadInt8 io) [V8 x] x"
    "writes pending (WriteInt32 io i) [V32 i]" "reads pending (ReadInt32 io) [V32 i] i"
    "writes pending (WriteInt64 io l) [V64 l]" "reads pending (ReadInt64 io) [V64 l] l"
    "writes pending (WriteUint8 io x) [V8 x]" "reads pending (ReadUint8 io) [V8 x] x"
    "writes pending (WriteUint16 io h) [V16 h]" "reads pending (ReadUint16 io) [V16 h] h"
    "writes pending (WriteUint32 io i) [V32 i]" "reads pending (ReadUint32 io) [V32 i] i"
    "writes pending (WriteUint64 io l) [V64 l]" "reads pending (ReadUint64 io) [V64 l] l"
    "writes pending (WriteString io s) [VStr s]" "reads pending (ReadString io) [VStr s] s"
  using assms by (simp_all add: parcel_spec_def)

lemma parcel_writes:
  assumes io: "parcel_spec io pending" and g: "writes pending g us"
  shows "writes pending (\<lambda>p. WriteBool io b p \<bind> g) (VBool b # us)"
    "writes pending (\<lambda>p. WriteInt8 io x p \<bind> g) (V8 x # us)"
    "writes pending (\<lambda>p. WriteInt32 io i p \<bind> g) (V32 i # us)"
    "writes pending (\<lambda>p. WriteInt64 io l p \<bind> g) (V64 l # us)"
    "writes pending (\<lambda>p. WriteUint8 io x p \<bind> g) (V8 x # us)"
    "writes pending (\<lambda>p. WriteUint16 io h p \<bind> g) (V16 h # us)"
    "writes pending (\<lambda>p. WriteUint32 io i p \<bind> g) (V32 i # us)"
    "writes pending (\<lambda>p. WriteUint64 io l p \<bind> g) (V64 l # us)"
    "writes pending (\<lambda>p. WriteString io s p \<bind> g) (VStr s # us)"
  by (rule writes_cons [OF _ g], rule parcel_prims [OF io])+

lemma parcel_reads:
  assumes io: "parcel_spec io pending"
  shows "reads pending (g0 b) us y \<Longrightarrow> reads pending (\<lambda>p. ReadBool io p \<bind> (\<lambda>(a, q). g0 a q)) (VBool b # us) y"
    "reads pending (g1 x) us y \<Longrightarrow> reads pending (\<lambda>p. ReadInt8 io p \<bind> (\<lambda>(a, q). g1 a q)) (V8 x # us) y"
    "reads pending (g2 i) us y \<Longrightarrow> reads pending (\<lambda>p. ReadInt32 io p \<bind> (\<lambda>(a, q). g2 a q)) (V32 i # us) y"
    "reads pending (g3 l) us y \<Longrightarrow> reads pending (\<lambda>p. ReadInt64 io p \<bind> (\<lambda>(a, q). g3 a q)) (V64 l # us) y"
    "reads pending (g4 x) us y \<Longrightarrow> reads pending (\<lambda>p. ReadUint8 io p \<bind> (\<lambda>(a, q). g4 a q)) (V8 x # us) y"
    "reads pending (g5 h) us y \<Longrightarrow> reads pending (\<lambda>p. ReadUint16 io p \<bind> (\<lambda>(a, q). g5 a q)) (V16 h # us) y"
    "reads pending (g6 i) us y \<Longrightarrow> reads pending (\<lambda>p. ReadUint32 io p \<bind> (\<lambda>(a, q). g6 a q)) (V32 i # us) y"
    "reads pending (g7 l) us y \<Longrightarrow> reads pending (\<lambda>p. ReadUint64 io p \<bind> (\<lambda>(a, q). g7 a q)) (V64 l # us) y"
    "reads pending (g8 s) us y \<Longrightarrow> reads pending (\<lambda>p. ReadString io p \<bind> (\<lambda>(a, q). g8 a q)) (VStr s # us) y"
  by (erule reads_cons [rotated], rule parcel_prims [OF io])+

subsection \<open>Codecs\<close>

fun marshal_all :: "('p parcel_ops \<Rightarrow> 'a \<Rightarrow> 'p \<Rightarrow> 'p option) \<Rightarrow> 'p parcel_ops \<Rightarrow> 'a list \<Rightarrow> 'p \<Rightarrow> 'p option" where
  "marshal_all marsh io [] = (\<lambda>p. Some p)"
| "marshal_all marsh io (x # xs) = (\<lambda>p. do { p \<leftarrow> marsh io x p; marshal_all marsh io xs p })"

fun unmarshal_n :: "('p parcel_ops \<Rightarrow> 'p \<Rightarrow> ('a \<times> 'p) option) \<Rightarrow> 'p parcel_ops \<Rightarrow> nat \<Rightarrow> 'p \<Rightarrow> ('a list \<times> 'p) option" where
  "unmarshal_n unmarsh io 0 = (\<lambda>p. Some ([], p))"
| "unmarshal_n unmarsh io (Suc n) =
     (\<lambda>p. do { (x, p) \<leftarrow> unmarsh io p; (xs, p) \<leftarrow> unmarshal_n unmarsh io n p; Some (x # xs, p) })"

lemma unmarshal_n_length: "unmarshal_n unmarsh io n p = Some (xs, p') \<Longrightarrow> length xs = n"
  by (induction n arbitrary: xs p) (auto simp: bind_eq_Some_conv)

lemma unmarshal_n_all:
  assumes "\<And>p x p'. unmarsh io p = Some (x, p') \<Longrightarrow> P x"
  shows "unmarshal_n unmarsh io n p = Some (xs, p') \<Longrightarrow> list_all P xs"
  by (induction n arbitrary: xs p) (auto simp: bind_eq_Some_conv dest: assms)

text \<open>\<^verbatim>\<open>enc\<close> is the sequence of values of an object, \<^verbatim>\<open>norm\<close> the object that is read back: what is not written takes its
  initial value.\<close>

locale codec =
  fixes marsh :: "'p parcel_ops \<Rightarrow> 'a \<Rightarrow> 'p \<Rightarrow> 'p option"
    and unmarsh :: "'p parcel_ops \<Rightarrow> 'p \<Rightarrow> ('a \<times> 'p) option"
    and enc :: "'a \<Rightarrow> pval list"
    and good :: "'a \<Rightarrow> bool"
    and norm :: "'a \<Rightarrow> 'a"
  assumes writes: "parcel_spec io pending \<Longrightarrow> good x \<Longrightarrow> writes pending (marsh io x) (enc x)"
    and reads: "parcel_spec io pending \<Longrightarrow> good x \<Longrightarrow> reads pending (unmarsh io) (enc x) (norm x)"
begin

lemma roundtrip:
  assumes "parcel_spec io pending" "good x" "pending p = []" "marsh io x p = Some p'"
  shows "\<exists>p''. unmarsh io p' = Some (norm x, p'') \<and> pending p'' = []"
proof -
  have "pending p' = enc x @ []" using writes [OF assms(1,2)] assms(3,4) by (simp add: writes_def)
  then show ?thesis using reads [OF assms(1,2)] by (auto simp: reads_def)
qed

lemma all_writes:
  "parcel_spec io pending \<Longrightarrow> list_all good xs \<Longrightarrow> writes pending (marshal_all marsh io xs) (concat (map enc xs))"
proof (induction xs)
  case (Cons x xs)
  then show ?case by (simp add: writes_bind writes)
qed (simp add: writes_return [unfolded id_def])

lemma n_reads:
  "parcel_spec io pending \<Longrightarrow> list_all good xs \<Longrightarrow>
     reads pending (unmarshal_n unmarsh io (length xs)) (concat (map enc xs)) (map norm xs)"
proof (induction xs)
  case (Cons x xs)
  have "reads pending (unmarshal_n unmarsh io (length xs)) (concat (map enc xs)) (map norm xs)" using Cons by simp
  from reads_bind [OF this reads_return [OF refl]]
  have "reads pending (\<lambda>p. do { (ys, p) \<leftarrow> unmarshal_n unmarsh io (length xs) p; Some (norm x # ys, p) })
      (concat (map enc xs)) (norm x # map norm xs)" by simp
  then show ?case unfolding unmarshal_n.simps list.size list.map concat.simps add_Suc_right add_0_right
    using Cons.prems by (intro reads_bind) (simp_all add: reads)
qed (simp add: reads_return)

end

end
