(* ===== verification/Pc_Firewall.thy ===== *)
theory Pc_Firewall
  imports Fw_Loader Pc_Parcel
begin

text \<open>
  Firewall rules on their way from the service to the loader: \<^verbatim>\<open>netfirewall_parcel.cpp\<close>. The members of the address
  union are separate fields of the model; reading one family leaves the other at its initial value. The results: rules
  that arrive match the same packets as the rules that were sent, as long as no list is longer than the limit, and what
  a reader accepts is well formed for every parcel, also for one that no writer produced.
\<close>

definition FIREWALL_MAX_LIST_SIZE :: nat where "FIREWALL_MAX_LIST_SIZE = 100"

definition IPV6_ARRAY_SIZE :: nat where "IPV6_ARRAY_SIZE = 16"

subsection \<open>Parameters\<close>

fun ip6_write_loop :: "'p parcel_ops \<Rightarrow> NetFirewallIpParam \<Rightarrow> nat list \<Rightarrow> 'p \<Rightarrow> 'p option" where
  "ip6_write_loop io x [] = (\<lambda>p. Some p)"
| "ip6_write_loop io x (index # rest) = (\<lambda>p. do {
     p \<leftarrow> WriteUint8 io (ip6_startIp x ! index) p;
     p \<leftarrow> (if ip_type x = MULTIPLE_IP then WriteUint8 io (ip6_endIp x ! index) p else Some p);
     ip6_write_loop io x rest p })"

definition IpParam_Marshalling :: "'p parcel_ops \<Rightarrow> NetFirewallIpParam \<Rightarrow> 'p \<Rightarrow> 'p option" where
  "IpParam_Marshalling io x = (\<lambda>p. do {
     p \<leftarrow> WriteUint8 io (ip_family x) p;
     p \<leftarrow> WriteUint8 io (ip_type x) p;
     p \<leftarrow> WriteUint8 io (ip_mask x) p;
     if ip_family x = FAMILY_IPV4 then do {
       p \<leftarrow> WriteUint32 io (ip4_startIp x) p;
       if ip_type x = MULTIPLE_IP then WriteUint32 io (ip4_endIp x) p else Some p }
     else ip6_write_loop io x [0..<IPV6_ARRAY_SIZE] p })"

text \<open>The bytes not read yet keep the value 0 of the new object.\<close>

fun ip6_read_loop :: "'p parcel_ops \<Rightarrow> nat list \<Rightarrow> NetFirewallIpParam \<Rightarrow> 'p \<Rightarrow> (NetFirewallIpParam \<times> 'p) option" where
  "ip6_read_loop io [] x = (\<lambda>p. Some (x, p))"
| "ip6_read_loop io (index # rest) x = (\<lambda>p. do {
     (b, p) \<leftarrow> ReadUint8 io p;
     if ip_type x = MULTIPLE_IP then do {
       (e, p) \<leftarrow> ReadUint8 io p;
       ip6_read_loop io rest (x\<lparr> ip6_startIp := (ip6_startIp x)[index := b], ip6_endIp := (ip6_endIp x)[index := e] \<rparr>) p }
     else ip6_read_loop io rest (x\<lparr> ip6_startIp := (ip6_startIp x)[index := b] \<rparr>) p })"

definition new_ip_param :: NetFirewallIpParam where
  "new_ip_param = \<lparr> ip_family = 0, ip_type = 0, ip_mask = 0, ip4_startIp = 0, ip4_endIp = 0,
     ip6_startIp = replicate IPV6_ARRAY_SIZE 0, ip6_endIp = replicate IPV6_ARRAY_SIZE 0 \<rparr>"

definition IpParam_Unmarshalling :: "'p parcel_ops \<Rightarrow> 'p \<Rightarrow> (NetFirewallIpParam \<times> 'p) option" where
  "IpParam_Unmarshalling io = (\<lambda>p. do {
     (f, p) \<leftarrow> ReadUint8 io p;
     (t, p) \<leftarrow> ReadUint8 io p;
     (m, p) \<leftarrow> ReadUint8 io p;
     if f = FAMILY_IPV4 then do {
       (s, p) \<leftarrow> ReadUint32 io p;
       if t = MULTIPLE_IP then do {
         (e, p) \<leftarrow> ReadUint32 io p;
         Some (new_ip_param\<lparr> ip_family := f, ip_type := t, ip_mask := m, ip4_startIp := s, ip4_endIp := e \<rparr>, p) }
       else Some (new_ip_param\<lparr> ip_family := f, ip_type := t, ip_mask := m, ip4_startIp := s \<rparr>, p) }
     else ip6_read_loop io [0..<IPV6_ARRAY_SIZE] (new_ip_param\<lparr> ip_family := f, ip_type := t, ip_mask := m \<rparr>) p })"

definition PortParam_Marshalling :: "'p parcel_ops \<Rightarrow> NetFirewallPortParam \<Rightarrow> 'p \<Rightarrow> 'p option" where
  "PortParam_Marshalling io x = (\<lambda>p. do {
     p \<leftarrow> WriteUint16 io (startPort x) p;
     WriteUint16 io (endPort x) p })"

definition PortParam_Unmarshalling :: "'p parcel_ops \<Rightarrow> 'p \<Rightarrow> (NetFirewallPortParam \<times> 'p) option" where
  "PortParam_Unmarshalling io = (\<lambda>p. do {
     (s, p) \<leftarrow> ReadUint16 io p;
     (e, p) \<leftarrow> ReadUint16 io p;
     Some (\<lparr> startPort = s, endPort = e \<rparr>, p) })"

definition DomainParam_Marshalling :: "'p parcel_ops \<Rightarrow> NetFirewallDomainParam \<Rightarrow> 'p \<Rightarrow> 'p option" where
  "DomainParam_Marshalling io x = (\<lambda>p. do {
     p \<leftarrow> WriteBool io (isWildcard x) p;
     WriteString io (domain x) p })"

definition DomainParam_Unmarshalling :: "'p parcel_ops \<Rightarrow> 'p \<Rightarrow> (NetFirewallDomainParam \<times> 'p) option" where
  "DomainParam_Unmarshalling io = (\<lambda>p. do {
     (w, p) \<leftarrow> ReadBool io p;
     (d, p) \<leftarrow> ReadString io p;
     Some (\<lparr> isWildcard = w, domain = d \<rparr>, p) })"

record NetFirewallDnsParam =
  primaryDns :: string
  standbyDns :: string

definition DnsParam_Marshalling :: "'p parcel_ops \<Rightarrow> NetFirewallDnsParam \<Rightarrow> 'p \<Rightarrow> 'p option" where
  "DnsParam_Marshalling io x = (\<lambda>p. do {
     p \<leftarrow> WriteString io (primaryDns x) p;
     WriteString io (standbyDns x) p })"

definition DnsParam_Unmarshalling :: "'p parcel_ops \<Rightarrow> 'p \<Rightarrow> (NetFirewallDnsParam \<times> 'p) option" where
  "DnsParam_Unmarshalling io = (\<lambda>p. do {
     (a, p) \<leftarrow> ReadString io p;
     (b, p) \<leftarrow> ReadString io p;
     Some (\<lparr> primaryDns = a, standbyDns = b \<rparr>, p) })"

text \<open>The size is taken as a 32-bit number before it is limited.\<close>

definition list_size :: "nat \<Rightarrow> 'a list \<Rightarrow> nat" where
  "list_size limit xs = min (unat (of_nat (length xs) :: u32)) limit"

definition MarshallingList ::
  "('p parcel_ops \<Rightarrow> 'a \<Rightarrow> 'p \<Rightarrow> 'p option) \<Rightarrow> 'p parcel_ops \<Rightarrow> 'a list \<Rightarrow> 'p \<Rightarrow> 'p option" where
  "MarshallingList marsh io xs = (\<lambda>p. do {
     p \<leftarrow> WriteUint32 io (of_nat (list_size FIREWALL_MAX_LIST_SIZE xs)) p;
     marshal_all marsh io (take (list_size FIREWALL_MAX_LIST_SIZE xs) xs) p })"

definition UnmarshallingList ::
  "('p parcel_ops \<Rightarrow> 'p \<Rightarrow> ('a \<times> 'p) option) \<Rightarrow> 'p parcel_ops \<Rightarrow> 'p \<Rightarrow> ('a list \<times> 'p) option" where
  "UnmarshallingList unmarsh io = (\<lambda>p. do {
     (size, p) \<leftarrow> ReadUint32 io p;
     unmarshal_n unmarsh io (min (unat size) FIREWALL_MAX_LIST_SIZE) p })"

subsection \<open>Rules\<close>

fun dir_code :: "NetFirewallRuleDirection \<Rightarrow> s32" where
  "dir_code RULE_IN = 1"
| "dir_code RULE_OUT = 2"

fun action_code :: "FirewallRuleAction \<Rightarrow> s32" where
  "action_code RULE_INVALID = -1"
| "action_code RULE_ALLOW = 0"
| "action_code RULE_DENY = 1"

text \<open>Out of range values are refused; the casts are defined on the others.\<close>

definition dir_cast :: "s32 \<Rightarrow> NetFirewallRuleDirection option" where
  "dir_cast d = (if sint d < 1 \<or> sint d > 2 then None else Some (if d = 1 then RULE_IN else RULE_OUT))"

definition action_cast :: "s32 \<Rightarrow> FirewallRuleAction option" where
  "action_cast a = (if sint a \<le> -1 \<or> sint a > 1 then None else Some (if a = 0 then RULE_ALLOW else RULE_DENY))"

definition BaseRule_Marshalling :: "'p parcel_ops \<Rightarrow> int \<Rightarrow> int \<Rightarrow> 'p \<Rightarrow> 'p option" where
  "BaseRule_Marshalling io user app = (\<lambda>p. do {
     p \<leftarrow> WriteInt32 io (of_int user) p;
     WriteInt32 io (of_int app) p })"

definition UnmarshallingBase :: "'p parcel_ops \<Rightarrow> 'p \<Rightarrow> ((int \<times> int) \<times> 'p) option" where
  "UnmarshallingBase io = (\<lambda>p. do {
     (user, p) \<leftarrow> ReadInt32 io p;
     (app, p) \<leftarrow> ReadInt32 io p;
     Some ((sint user, sint app), p) })"


definition IpRule_Unmarshalling :: "'p parcel_ops \<Rightarrow> 'p \<Rightarrow> (NetFirewallIpRule \<times> 'p) option" where
  "IpRule_Unmarshalling io = (\<lambda>p. do {
     ((user, app), p) \<leftarrow> UnmarshallingBase io p;
     (d, p) \<leftarrow> ReadInt32 io p;
     if dir_cast d = None then None else do {
     (a, p) \<leftarrow> ReadInt32 io p;
     if action_cast a = None then None else do {
     (proto, p) \<leftarrow> ReadInt32 io p;
     (lips, p) \<leftarrow> UnmarshallingList IpParam_Unmarshalling io p;
     (rips, p) \<leftarrow> UnmarshallingList IpParam_Unmarshalling io p;
     (lports, p) \<leftarrow> UnmarshallingList PortParam_Unmarshalling io p;
     (rports, p) \<leftarrow> UnmarshallingList PortParam_Unmarshalling io p;
     (iface, p) \<leftarrow> ReadString io p;
     Some (\<lparr> userId = user, appUid = app, ruleDirection = the (dir_cast d), ruleAction = the (action_cast a),
       protocol = unat proto, localIps = lips, remoteIps = rips, localPorts = lports, remotePorts = rports,
       rule_interface = iface \<rparr>, p) }}})"

definition DomainRule_Marshalling :: "'p parcel_ops \<Rightarrow> NetFirewallDomainRule \<Rightarrow> 'p \<Rightarrow> 'p option" where
  "DomainRule_Marshalling io r = (\<lambda>p. do {
     p \<leftarrow> BaseRule_Marshalling io (dr_userId r) (dr_appUid r) p;
     p \<leftarrow> WriteInt32 io (action_code (dr_ruleAction r)) p;
     MarshallingList DomainParam_Marshalling io (domains r) p })"

definition DomainRule_Unmarshalling :: "'p parcel_ops \<Rightarrow> 'p \<Rightarrow> (NetFirewallDomainRule \<times> 'p) option" where
  "DomainRule_Unmarshalling io = (\<lambda>p. do {
     ((user, app), p) \<leftarrow> UnmarshallingBase io p;
     (a, p) \<leftarrow> ReadInt32 io p;
     if action_cast a = None then None else do {
     (ds, p) \<leftarrow> UnmarshallingList DomainParam_Unmarshalling io p;
     Some (\<lparr> dr_userId = user, dr_appUid = app, dr_ruleAction = the (action_cast a), domains = ds \<rparr>, p) }})"

record NetFirewallDnsRule =
  ds_userId :: int
  ds_appUid :: int
  ds_primaryDns :: string
  ds_standbyDns :: string

definition DnsRule_Marshalling :: "'p parcel_ops \<Rightarrow> NetFirewallDnsRule \<Rightarrow> 'p \<Rightarrow> 'p option" where
  "DnsRule_Marshalling io r = (\<lambda>p. do {
     p \<leftarrow> BaseRule_Marshalling io (ds_userId r) (ds_appUid r) p;
     p \<leftarrow> WriteString io (ds_primaryDns r) p;
     WriteString io (ds_standbyDns r) p })"

definition DnsRule_Unmarshalling :: "'p parcel_ops \<Rightarrow> 'p \<Rightarrow> (NetFirewallDnsRule \<times> 'p) option" where
  "DnsRule_Unmarshalling io = (\<lambda>p. do {
     ((user, app), p) \<leftarrow> UnmarshallingBase io p;
     (a, p) \<leftarrow> ReadString io p;
     (b, p) \<leftarrow> ReadString io p;
     Some (\<lparr> ds_userId = user, ds_appUid = app, ds_primaryDns = a, ds_standbyDns = b \<rparr>, p) })"

text \<open>The rule of the external interface.\<close>

record NetFirewallRule =
  fr_ruleId :: s32
  fr_ruleName :: string
  fr_ruleDescription :: string
  fr_ruleDirection :: NetFirewallRuleDirection
  fr_ruleAction :: FirewallRuleAction
  fr_ruleType :: NetFirewallRuleType
  fr_isEnabled :: bool
  fr_appUid :: s32
  fr_localIps :: "NetFirewallIpParam list"
  fr_remoteIps :: "NetFirewallIpParam list"
  fr_protocol :: s32
  fr_localPorts :: "NetFirewallPortParam list"
  fr_remotePorts :: "NetFirewallPortParam list"
  fr_domains :: "NetFirewallDomainParam list"
  fr_dns :: NetFirewallDnsParam
  fr_userId :: s32
  fr_interface :: string

fun type_code :: "NetFirewallRuleType \<Rightarrow> s32" where
  "type_code TYPE_INVALID = -1"
| "type_code RULE_IP = 1"
| "type_code RULE_DOMAIN = 2"
| "type_code RULE_DNS = 3"
| "type_code RULE_DEFAULT_ACTION = 4"
| "type_code RULE_ALL = 5"

definition type_cast :: "s32 \<Rightarrow> NetFirewallRuleType option" where
  "type_cast t = (if sint t \<le> -1 \<or> sint t > 5 \<or> t = 0 then None
     else Some (if t = 1 then RULE_IP else if t = 2 then RULE_DOMAIN else if t = 3 then RULE_DNS
                else if t = 4 then RULE_DEFAULT_ACTION else RULE_ALL))"

definition Rule_Marshalling :: "'p parcel_ops \<Rightarrow> NetFirewallRule \<Rightarrow> 'p \<Rightarrow> 'p option" where
  "Rule_Marshalling io r = (\<lambda>p. do {
     p \<leftarrow> WriteInt32 io (fr_ruleId r) p;
     p \<leftarrow> WriteString io (fr_ruleName r) p;
     p \<leftarrow> WriteString io (fr_ruleDescription r) p;
     p \<leftarrow> WriteInt32 io (dir_code (fr_ruleDirection r)) p;
     p \<leftarrow> WriteInt32 io (action_code (fr_ruleAction r)) p;
     p \<leftarrow> WriteInt32 io (type_code (fr_ruleType r)) p;
     p \<leftarrow> WriteBool io (fr_isEnabled r) p;
     p \<leftarrow> WriteInt32 io (fr_appUid r) p;
     p \<leftarrow> MarshallingList IpParam_Marshalling io (fr_localIps r) p;
     p \<leftarrow> MarshallingList IpParam_Marshalling io (fr_remoteIps r) p;
     p \<leftarrow> WriteInt32 io (fr_protocol r) p;
     p \<leftarrow> MarshallingList PortParam_Marshalling io (fr_localPorts r) p;
     p \<leftarrow> MarshallingList PortParam_Marshalling io (fr_remotePorts r) p;
     p \<leftarrow> MarshallingList DomainParam_Marshalling io (fr_domains r) p;
     p \<leftarrow> DnsParam_Marshalling io (fr_dns r) p;
     p \<leftarrow> WriteInt32 io (fr_userId r) p;
     WriteString io (fr_interface r) p })"

definition Rule_Unmarshalling :: "'p parcel_ops \<Rightarrow> 'p \<Rightarrow> (NetFirewallRule \<times> 'p) option" where
  "Rule_Unmarshalling io = (\<lambda>p. do {
     (i, p) \<leftarrow> ReadInt32 io p;
     (name, p) \<leftarrow> ReadString io p;
     (desc, p) \<leftarrow> ReadString io p;
     (d, p) \<leftarrow> ReadInt32 io p;
     if dir_cast d = None then None else do {
     (a, p) \<leftarrow> ReadInt32 io p;
     if action_cast a = None then None else do {
     (t, p) \<leftarrow> ReadInt32 io p;
     if type_cast t = None then None else do {
     (en, p) \<leftarrow> ReadBool io p;
     (app, p) \<leftarrow> ReadInt32 io p;
     (lips, p) \<leftarrow> UnmarshallingList IpParam_Unmarshalling io p;
     (rips, p) \<leftarrow> UnmarshallingList IpParam_Unmarshalling io p;
     (proto, p) \<leftarrow> ReadInt32 io p;
     (lports, p) \<leftarrow> UnmarshallingList PortParam_Unmarshalling io p;
     (rports, p) \<leftarrow> UnmarshallingList PortParam_Unmarshalling io p;
     (ds, p) \<leftarrow> UnmarshallingList DomainParam_Unmarshalling io p;
     (dns, p) \<leftarrow> DnsParam_Unmarshalling io p;
     (user, p) \<leftarrow> ReadInt32 io p;
     (iface, p) \<leftarrow> ReadString io p;
     Some (\<lparr> fr_ruleId = i, fr_ruleName = name, fr_ruleDescription = desc, fr_ruleDirection = the (dir_cast d),
       fr_ruleAction = the (action_cast a), fr_ruleType = the (type_cast t), fr_isEnabled = en, fr_appUid = app,
       fr_localIps = lips, fr_remoteIps = rips, fr_protocol = proto, fr_localPorts = lports, fr_remotePorts = rports,
       fr_domains = ds, fr_dns = dns, fr_userId = user, fr_interface = iface \<rparr>, p) }}}})"

subsection \<open>Records and queues\<close>

record InterceptRecord =
  ir_localPort :: u16
  ir_remotePort :: u16
  ir_protocol :: u16
  ir_time :: u64
  ir_localIp :: string
  ir_remoteIp :: string
  ir_appUid :: s32
  ir_domain :: string

definition InterceptRecord_Marshalling :: "'p parcel_ops \<Rightarrow> InterceptRecord \<Rightarrow> 'p \<Rightarrow> 'p option" where
  "InterceptRecord_Marshalling io r = (\<lambda>p. do {
     p \<leftarrow> WriteUint16 io (ir_localPort r) p;
     p \<leftarrow> WriteUint16 io (ir_remotePort r) p;
     p \<leftarrow> WriteUint16 io (ir_protocol r) p;
     p \<leftarrow> WriteUint64 io (ir_time r) p;
     p \<leftarrow> WriteString io (ir_localIp r) p;
     p \<leftarrow> WriteString io (ir_remoteIp r) p;
     p \<leftarrow> WriteInt32 io (ir_appUid r) p;
     WriteString io (ir_domain r) p })"

definition InterceptRecord_Unmarshalling :: "'p parcel_ops \<Rightarrow> 'p \<Rightarrow> (InterceptRecord \<times> 'p) option" where
  "InterceptRecord_Unmarshalling io = (\<lambda>p. do {
     (lp, p) \<leftarrow> ReadUint16 io p;
     (rp, p) \<leftarrow> ReadUint16 io p;
     (pr, p) \<leftarrow> ReadUint16 io p;
     (t, p) \<leftarrow> ReadUint64 io p;
     (li, p) \<leftarrow> ReadString io p;
     (ri, p) \<leftarrow> ReadString io p;
     (app, p) \<leftarrow> ReadInt32 io p;
     (d, p) \<leftarrow> ReadString io p;
     Some (\<lparr> ir_localPort = lp, ir_remotePort = rp, ir_protocol = pr, ir_time = t, ir_localIp = li, ir_remoteIp = ri,
       ir_appUid = app, ir_domain = d \<rparr>, p) })"

definition NFQ_MAX_QUEUES :: nat where "NFQ_MAX_QUEUES = 64"

text \<open>A queue is its number; the table holds null pointers where there is none.\<close>

record NfqCtx =
  nfq_fd :: s32
  nfq_seq :: u32
  nfq_queues :: "u16 option list"

definition NfqQueue_Marshalling :: "'p parcel_ops \<Rightarrow> u16 \<Rightarrow> 'p \<Rightarrow> 'p option" where
  "NfqQueue_Marshalling io q = (\<lambda>p. WriteUint16 io q p)"

definition NfqQueue_Unmarshalling :: "'p parcel_ops \<Rightarrow> 'p \<Rightarrow> (u16 \<times> 'p) option" where
  "NfqQueue_Unmarshalling io = (\<lambda>p. ReadUint16 io p)"

fun queues_write_loop :: "'p parcel_ops \<Rightarrow> u16 option list \<Rightarrow> nat \<Rightarrow> 'p \<Rightarrow> 'p option" where
  "queues_write_loop io [] i = (\<lambda>p. Some p)"
| "queues_write_loop io (q # qs) i = (\<lambda>p. do {
     p \<leftarrow> (case q of None \<Rightarrow> Some p
           | Some n \<Rightarrow> do { p \<leftarrow> WriteUint32 io (of_nat i) p; NfqQueue_Marshalling io n p });
     queues_write_loop io qs (i + 1) p })"

definition NfqCtx_Marshalling :: "'p parcel_ops \<Rightarrow> NfqCtx \<Rightarrow> 'p \<Rightarrow> 'p option" where
  "NfqCtx_Marshalling io c = (\<lambda>p. do {
     p \<leftarrow> WriteUint32 io (nfq_seq c) p;
     p \<leftarrow> WriteUint32 io (of_nat (length (filter (\<lambda>q. q \<noteq> None) (nfq_queues c)))) p;
     queues_write_loop io (nfq_queues c) 0 p })"

fun queues_read_loop :: "'p parcel_ops \<Rightarrow> nat \<Rightarrow> u16 option list \<Rightarrow> 'p \<Rightarrow> (u16 option list \<times> 'p) option" where
  "queues_read_loop io 0 qs = (\<lambda>p. Some (qs, p))"
| "queues_read_loop io (Suc n) qs = (\<lambda>p. do {
     (index, p) \<leftarrow> ReadUint32 io p;
     if unat index \<ge> NFQ_MAX_QUEUES then None else do {
     (q, p) \<leftarrow> NfqQueue_Unmarshalling io p;
     queues_read_loop io n (qs[unat index := Some q]) p }})"

definition NfqCtx_Unmarshalling :: "'p parcel_ops \<Rightarrow> 'p \<Rightarrow> (NfqCtx \<times> 'p) option" where
  "NfqCtx_Unmarshalling io = (\<lambda>p. do {
     (s, p) \<leftarrow> ReadUint32 io p;
     (count, p) \<leftarrow> ReadUint32 io p;
     (qs, p) \<leftarrow> queues_read_loop io (unat count) (replicate NFQ_MAX_QUEUES None) p;
     Some (\<lparr> nfq_fd = 0, nfq_seq = s, nfq_queues = qs \<rparr>, p) })"

subsection \<open>Codecs of the parameters\<close>

definition list_enc :: "('a \<Rightarrow> pval list) \<Rightarrow> 'a list \<Rightarrow> pval list" where
  "list_enc enc xs = (let n = list_size FIREWALL_MAX_LIST_SIZE xs in V32 (of_nat n) # concat (map enc (take n xs)))"

lemma list_size_le: "list_size limit xs \<le> limit" "list_size limit xs \<le> length xs"
proof -
  have "unat (of_nat (length xs) :: u32) \<le> length xs" by (simp add: unat_of_nat)
  then show "list_size limit xs \<le> limit" "list_size limit xs \<le> length xs" by (simp_all add: list_size_def)
qed

lemma list_size_small: "length xs \<le> limit \<Longrightarrow> limit < 2 ^ 32 \<Longrightarrow> list_size limit xs = length xs"
  by (simp add: list_size_def unat_of_nat)

lemma unat_small: "n \<le> limit \<Longrightarrow> limit < 2 ^ 32 \<Longrightarrow> unat (of_nat n :: u32) = n"
  by (simp add: unat_of_nat)

context codec
begin

lemma list_codec:
  "codec (MarshallingList marsh) (UnmarshallingList unmarsh) (list_enc enc) (list_all good)
     (\<lambda>xs. map norm (take (list_size FIREWALL_MAX_LIST_SIZE xs) xs))"
proof
  fix io :: "'p parcel_ops" and pending xs
  assume io: "parcel_spec io pending" and "list_all good xs"
  let ?n = "list_size FIREWALL_MAX_LIST_SIZE xs"
  have good: "list_all good (take ?n xs)" using \<open>list_all good xs\<close> by (auto simp: list_all_iff dest: in_set_takeD)
  show "writes pending (MarshallingList marsh io xs) (list_enc enc xs)"
    unfolding MarshallingList_def list_enc_def Let_def
    by (rule parcel_writes(7) [OF io]) (rule all_writes [OF io good])
  have n: "length (take ?n xs) = ?n" "min (unat (of_nat ?n :: u32)) FIREWALL_MAX_LIST_SIZE = ?n"
    using list_size_le [of FIREWALL_MAX_LIST_SIZE xs] unat_small [of ?n FIREWALL_MAX_LIST_SIZE]
    by (simp_all add: FIREWALL_MAX_LIST_SIZE_def)
  show "reads pending (UnmarshallingList unmarsh io) (list_enc enc xs) (map norm (take ?n xs))"
    unfolding UnmarshallingList_def list_enc_def Let_def
    by (rule parcel_reads(7) [OF io]) (use n_reads [OF io good] n in simp)
qed

end

definition port_enc :: "NetFirewallPortParam \<Rightarrow> pval list" where
  "port_enc x = [V16 (startPort x), V16 (endPort x)]"

definition domain_enc :: "NetFirewallDomainParam \<Rightarrow> pval list" where
  "domain_enc x = [VBool (isWildcard x), VStr (domain x)]"

definition dns_enc :: "NetFirewallDnsParam \<Rightarrow> pval list" where
  "dns_enc x = [VStr (primaryDns x), VStr (standbyDns x)]"

interpretation portc: codec PortParam_Marshalling PortParam_Unmarshalling port_enc "\<lambda>_. True" id
proof
  fix io :: "'p parcel_ops" and pending x assume io: "parcel_spec io pending"
  show "writes pending (PortParam_Marshalling io x) (port_enc x)"
    unfolding PortParam_Marshalling_def port_enc_def by (rule parcel_writes [OF io] parcel_prims [OF io])+
  show "reads pending (PortParam_Unmarshalling io) (port_enc x) (id x)"
    unfolding PortParam_Unmarshalling_def port_enc_def by (rule parcel_reads [OF io] reads_return)+ simp
qed

interpretation domc: codec DomainParam_Marshalling DomainParam_Unmarshalling domain_enc "\<lambda>_. True" id
proof
  fix io :: "'p parcel_ops" and pending x assume io: "parcel_spec io pending"
  show "writes pending (DomainParam_Marshalling io x) (domain_enc x)"
    unfolding DomainParam_Marshalling_def domain_enc_def by (rule parcel_writes [OF io] parcel_prims [OF io])+
  show "reads pending (DomainParam_Unmarshalling io) (domain_enc x) (id x)"
    unfolding DomainParam_Unmarshalling_def domain_enc_def by (rule parcel_reads [OF io] reads_return)+ simp
qed

interpretation dnsc: codec DnsParam_Marshalling DnsParam_Unmarshalling dns_enc "\<lambda>_. True" id
proof
  fix io :: "'p parcel_ops" and pending x assume io: "parcel_spec io pending"
  show "writes pending (DnsParam_Marshalling io x) (dns_enc x)"
    unfolding DnsParam_Marshalling_def dns_enc_def by (rule parcel_writes [OF io] parcel_prims [OF io])+
  show "reads pending (DnsParam_Unmarshalling io) (dns_enc x) (id x)"
    unfolding DnsParam_Unmarshalling_def dns_enc_def by (rule parcel_reads [OF io] reads_return)+ simp
qed

text \<open>Addresses: only the members of the address family are written, and the end only for a range.\<close>

definition ip6_enc :: "NetFirewallIpParam \<Rightarrow> nat list \<Rightarrow> pval list" where
  "ip6_enc x is = concat (map (\<lambda>i. V8 (ip6_startIp x ! i) # (if ip_type x = MULTIPLE_IP then [V8 (ip6_endIp x ! i)] else [])) is)"

definition ip_enc :: "NetFirewallIpParam \<Rightarrow> pval list" where
  "ip_enc x = V8 (ip_family x) # V8 (ip_type x) # V8 (ip_mask x) #
     (if ip_family x = FAMILY_IPV4 then V32 (ip4_startIp x) # (if ip_type x = MULTIPLE_IP then [V32 (ip4_endIp x)] else [])
      else ip6_enc x [0..<IPV6_ARRAY_SIZE])"

definition ip_good :: "NetFirewallIpParam \<Rightarrow> bool" where
  "ip_good x \<longleftrightarrow> (ip_family x = FAMILY_IPV4 \<or> length (ip6_startIp x) = IPV6_ARRAY_SIZE \<and> length (ip6_endIp x) = IPV6_ARRAY_SIZE)"

definition ip_norm :: "NetFirewallIpParam \<Rightarrow> NetFirewallIpParam" where
  "ip_norm x = (let multi = (ip_type x = MULTIPLE_IP);
      y = new_ip_param\<lparr> ip_family := ip_family x, ip_type := ip_type x, ip_mask := ip_mask x \<rparr>
    in if ip_family x = FAMILY_IPV4
       then y\<lparr> ip4_startIp := ip4_startIp x, ip4_endIp := (if multi then ip4_endIp x else 0) \<rparr>
       else y\<lparr> ip6_startIp := ip6_startIp x, ip6_endIp := (if multi then ip6_endIp x else replicate IPV6_ARRAY_SIZE 0) \<rparr>)"

lemma ip6_writes: "parcel_spec io pending \<Longrightarrow> writes pending (ip6_write_loop io x is) (ip6_enc x is)"
proof (induction "is")
  case (Cons i "is")
  have "writes pending (\<lambda>p. (if ip_type x = MULTIPLE_IP then WriteUint8 io (ip6_endIp x ! i) p else Some p) \<bind> ip6_write_loop io x is)
      ((if ip_type x = MULTIPLE_IP then [V8 (ip6_endIp x ! i)] else []) @ ip6_enc x is)"
    by (rule writes_bind, rule writes_if, rule parcel_prims [OF Cons.prems], rule writes_return, rule Cons.IH [OF Cons.prems])
  from parcel_writes(5) [OF Cons.prems this, of "ip6_startIp x ! i"] show ?case by (simp add: ip6_enc_def)
qed (simp add: ip6_enc_def writes_return)

definition fill :: "'a list \<Rightarrow> nat list \<Rightarrow> 'a list \<Rightarrow> 'a list" where
  "fill src is dst = foldl (\<lambda>d i. d[i := src ! i]) dst is"

lemma fill_upt: "n \<le> length src \<Longrightarrow> length dst = length src \<Longrightarrow> fill src [0..<n] dst = take n src @ drop n dst"
proof (induction n)
  case (Suc n)
  then have "fill src [0..<Suc n] dst = (take n src @ drop n dst)[n := src ! n]" by (simp add: fill_def)
  also have "\<dots> = take (Suc n) src @ drop (Suc n) dst"
    using Suc.prems by (simp add: list_update_append take_Suc_conv_app_nth Cons_nth_drop_Suc [symmetric])
  finally show ?case .
qed (simp add: fill_def)

lemma fill_all: "length src = IPV6_ARRAY_SIZE \<Longrightarrow> length dst = IPV6_ARRAY_SIZE \<Longrightarrow> fill src [0..<IPV6_ARRAY_SIZE] dst = src"
  using fill_upt [of IPV6_ARRAY_SIZE src dst] by simp

lemma ip6_reads:
  assumes io: "parcel_spec io pending"
  shows "ip_type y = ip_type x \<Longrightarrow> reads pending (ip6_read_loop io is y) (ip6_enc x is)
    (y\<lparr> ip6_startIp := fill (ip6_startIp x) is (ip6_startIp y),
       ip6_endIp := (if ip_type x = MULTIPLE_IP then fill (ip6_endIp x) is (ip6_endIp y) else ip6_endIp y) \<rparr>)"
proof (induction "is" arbitrary: y)
  case (Cons i "is")
  show ?case
  proof (cases "ip_type x = MULTIPLE_IP")
    case True
    let ?y = "y\<lparr> ip6_startIp := (ip6_startIp y)[i := ip6_startIp x ! i], ip6_endIp := (ip6_endIp y)[i := ip6_endIp x ! i] \<rparr>"
    have "ip_type ?y = ip_type x" using Cons.prems by simp
    from Cons.IH [OF this] have r: "reads pending (ip6_read_loop io is ?y) (ip6_enc x is)
       (y\<lparr> ip6_startIp := fill (ip6_startIp x) (i # is) (ip6_startIp y), ip6_endIp := fill (ip6_endIp x) (i # is) (ip6_endIp y) \<rparr>)"
      using True by (simp add: fill_def)
    have e: "ip6_enc x (i # is) = V8 (ip6_startIp x ! i) # V8 (ip6_endIp x ! i) # ip6_enc x is" using True by (simp add: ip6_enc_def)
    show ?thesis unfolding ip6_read_loop.simps e using True Cons.prems r by (intro parcel_reads [OF io]) (simp add: parcel_reads [OF io])
  next
    case False
    let ?y = "y\<lparr> ip6_startIp := (ip6_startIp y)[i := ip6_startIp x ! i] \<rparr>"
    have "ip_type ?y = ip_type x" using Cons.prems by simp
    from Cons.IH [OF this] have r: "reads pending (ip6_read_loop io is ?y) (ip6_enc x is)
       (y\<lparr> ip6_startIp := fill (ip6_startIp x) (i # is) (ip6_startIp y) \<rparr>)"
      using False by (simp add: fill_def)
    have e: "ip6_enc x (i # is) = V8 (ip6_startIp x ! i) # ip6_enc x is" using False by (simp add: ip6_enc_def)
    show ?thesis unfolding ip6_read_loop.simps e using False Cons.prems r by (intro parcel_reads [OF io]) simp
  qed
qed (simp add: ip6_enc_def fill_def reads_return)

interpretation ipc: codec IpParam_Marshalling IpParam_Unmarshalling ip_enc ip_good ip_norm
proof
  fix io :: "'p parcel_ops" and pending x assume io: "parcel_spec io pending" and good: "ip_good x"
  show "writes pending (IpParam_Marshalling io x) (ip_enc x)"
    unfolding IpParam_Marshalling_def ip_enc_def
    by (rule parcel_writes [OF io] writes_if parcel_prims [OF io] writes_return ip6_writes [OF io])+
  let ?y = "new_ip_param\<lparr> ip_family := ip_family x, ip_type := ip_type x, ip_mask := ip_mask x \<rparr>"
  show "reads pending (IpParam_Unmarshalling io) (ip_enc x) (ip_norm x)"
  proof (cases "ip_family x = FAMILY_IPV4")
    case True
    then show ?thesis unfolding IpParam_Unmarshalling_def ip_enc_def
      by (intro parcel_reads [OF io])
        (auto intro!: parcel_reads [OF io] reads_return simp: ip_norm_def Let_def new_ip_param_def)
  next
    case False
    have "ip_type ?y = ip_type x" by simp
    note r = ip6_reads [OF io this, of "[0..<IPV6_ARRAY_SIZE]"]
    have "?y\<lparr> ip6_startIp := fill (ip6_startIp x) [0..<IPV6_ARRAY_SIZE] (ip6_startIp ?y), ip6_endIp := (if ip_type x = MULTIPLE_IP
        then fill (ip6_endIp x) [0..<IPV6_ARRAY_SIZE] (ip6_endIp ?y) else ip6_endIp ?y) \<rparr> = ip_norm x"
      using False good by (simp add: ip_good_def ip_norm_def Let_def fill_all new_ip_param_def)
    from r [unfolded this]
    have "reads pending (ip6_read_loop io [0..<IPV6_ARRAY_SIZE] ?y) (ip6_enc x [0..<IPV6_ARRAY_SIZE]) (ip_norm x)" .
    with False show ?thesis unfolding IpParam_Unmarshalling_def ip_enc_def by (intro parcel_reads [OF io]) simp
  qed
qed

interpretation ips: codec "MarshallingList IpParam_Marshalling" "UnmarshallingList IpParam_Unmarshalling" "list_enc ip_enc"
  "list_all ip_good" "\<lambda>xs. map ip_norm (take (list_size FIREWALL_MAX_LIST_SIZE xs) xs)"
  by (rule ipc.list_codec)

interpretation ports: codec "MarshallingList PortParam_Marshalling" "UnmarshallingList PortParam_Unmarshalling" "list_enc port_enc"
  "list_all (\<lambda>_. True)" "\<lambda>xs. map id (take (list_size FIREWALL_MAX_LIST_SIZE xs) xs)"
  by (rule portc.list_codec)

interpretation doms: codec "MarshallingList DomainParam_Marshalling" "UnmarshallingList DomainParam_Unmarshalling" "list_enc domain_enc"
  "list_all (\<lambda>_. True)" "\<lambda>xs. map id (take (list_size FIREWALL_MAX_LIST_SIZE xs) xs)"
  by (rule domc.list_codec)

subsection \<open>Codecs of the rules\<close>

definition int32_ok :: "int \<Rightarrow> bool" where
  "int32_ok i \<longleftrightarrow> - (2 ^ 31) \<le> i \<and> i < 2 ^ 31"

lemma sint_int32: "int32_ok i \<Longrightarrow> sint (of_int i :: s32) = i"
  by (simp add: int32_ok_def signed_of_int signed_take_bit_int_eq_self)

lemma cast_dir [simp]: "dir_cast (dir_code d) = Some d"
  by (cases d) (simp_all add: dir_cast_def)

lemma cast_action [simp]: "a \<noteq> RULE_INVALID \<Longrightarrow> action_cast (action_code a) = Some a"
  by (cases a) (simp_all add: action_cast_def)

lemma cast_type [simp]: "t \<noteq> TYPE_INVALID \<Longrightarrow> type_cast (type_code t) = Some t"
  by (cases t) (simp_all add: type_cast_def)

lemma base_codec:
  assumes io: "parcel_spec io pending"
  shows "writes pending (BaseRule_Marshalling io user app) [V32 (of_int user), V32 (of_int app)]"
    "int32_ok user \<Longrightarrow> int32_ok app \<Longrightarrow>
      reads pending (UnmarshallingBase io) [V32 (of_int user), V32 (of_int app)] (user, app)"
proof -
  show "writes pending (BaseRule_Marshalling io user app) [V32 (of_int user), V32 (of_int app)]"
    unfolding BaseRule_Marshalling_def by (rule parcel_writes [OF io] parcel_prims [OF io])+
  assume "int32_ok user" "int32_ok app"
  then show "reads pending (UnmarshallingBase io) [V32 (of_int user), V32 (of_int app)] (user, app)"
    unfolding UnmarshallingBase_def by (intro parcel_reads [OF io] reads_return) (simp add: sint_int32)
qed

definition listed :: "'a list \<Rightarrow> 'a list" where
  "listed xs = take (list_size FIREWALL_MAX_LIST_SIZE xs) xs"

definition ip_rule_enc :: "NetFirewallIpRule \<Rightarrow> pval list" where
  "ip_rule_enc r = [V32 (of_int (userId r)), V32 (of_int (appUid r))] @ V32 (dir_code (ruleDirection r)) #
     V32 (action_code (ruleAction r)) # V32 (of_nat (protocol r)) # list_enc ip_enc (localIps r) @ list_enc ip_enc (remoteIps r) @
     list_enc port_enc (localPorts r) @ list_enc port_enc (remotePorts r) @ [VStr (rule_interface r)]"

definition ip_rule_good :: "NetFirewallIpRule \<Rightarrow> bool" where
  "ip_rule_good r \<longleftrightarrow> int32_ok (userId r) \<and> int32_ok (appUid r) \<and> ruleAction r \<noteq> RULE_INVALID \<and> protocol r < 2 ^ 32 \<and>
     list_all ip_good (localIps r) \<and> list_all ip_good (remoteIps r)"

definition ip_rule_norm :: "NetFirewallIpRule \<Rightarrow> NetFirewallIpRule" where
  "ip_rule_norm r = r\<lparr> localIps := map ip_norm (listed (localIps r)), remoteIps := map ip_norm (listed (remoteIps r)),
     localPorts := listed (localPorts r), remotePorts := listed (remotePorts r) \<rparr>"

lemma list_all_True [simp]: "list_all (\<lambda>_. True) xs"
  by (simp add: list_all_iff)

lemma plain_list_codec:
  assumes io: "parcel_spec io pending"
  shows "writes pending (MarshallingList PortParam_Marshalling io ps) (list_enc port_enc ps)"
    "reads pending (UnmarshallingList PortParam_Unmarshalling io) (list_enc port_enc ps) (listed ps)"
    "writes pending (MarshallingList DomainParam_Marshalling io ds) (list_enc domain_enc ds)"
    "reads pending (UnmarshallingList DomainParam_Unmarshalling io) (list_enc domain_enc ds) (listed ds)"
  using ports.writes [OF io, of ps] ports.reads [OF io, of ps] doms.writes [OF io, of ds] doms.reads [OF io, of ds]
  by (simp_all add: listed_def)

lemma ip_list_codec:
  assumes io: "parcel_spec io pending" and "list_all ip_good xs"
  shows "writes pending (MarshallingList IpParam_Marshalling io xs) (list_enc ip_enc xs)"
    "reads pending (UnmarshallingList IpParam_Unmarshalling io) (list_enc ip_enc xs) (map ip_norm (listed xs))"
  using ips.writes [OF assms] ips.reads [OF assms] by (simp_all add: listed_def)


definition domain_rule_enc :: "NetFirewallDomainRule \<Rightarrow> pval list" where
  "domain_rule_enc r = [V32 (of_int (dr_userId r)), V32 (of_int (dr_appUid r))] @ V32 (action_code (dr_ruleAction r)) #
     list_enc domain_enc (domains r) @ []"

definition domain_rule_good :: "NetFirewallDomainRule \<Rightarrow> bool" where
  "domain_rule_good r \<longleftrightarrow> int32_ok (dr_userId r) \<and> int32_ok (dr_appUid r) \<and> dr_ruleAction r \<noteq> RULE_INVALID"

interpretation domrulec: codec DomainRule_Marshalling DomainRule_Unmarshalling domain_rule_enc domain_rule_good
  "\<lambda>r. r\<lparr> domains := listed (domains r) \<rparr>"
proof
  fix io :: "'p parcel_ops" and pending r assume io: "parcel_spec io pending" and good: "domain_rule_good r"
  have g: "int32_ok (dr_userId r)" "int32_ok (dr_appUid r)" "\<not> action_cast (action_code (dr_ruleAction r)) = None"
    "dr_ruleAction r \<noteq> RULE_INVALID" using good by (simp_all add: domain_rule_good_def)
  note lists = plain_list_codec [OF io]
  show "writes pending (DomainRule_Marshalling io r) (domain_rule_enc r)"
    unfolding DomainRule_Marshalling_def domain_rule_enc_def append_Nil2
    by (rule parcel_writes [OF io] parcel_prims [OF io] base_codec(1) [OF io] lists writes_bind)+
  show "reads pending (DomainRule_Unmarshalling io) (domain_rule_enc r) (r\<lparr> domains := listed (domains r) \<rparr>)"
    unfolding DomainRule_Unmarshalling_def domain_rule_enc_def
    by (rule reads_bind [OF base_codec(2) [OF io g(1,2)]], unfold prod.case,
        (rule parcel_reads [OF io] reads_guard [OF g(3)] reads_bind [OF lists(4)] reads_return)+) (simp add: g(4))
qed

definition dns_rule_enc :: "NetFirewallDnsRule \<Rightarrow> pval list" where
  "dns_rule_enc r = [V32 (of_int (ds_userId r)), V32 (of_int (ds_appUid r))] @ [VStr (ds_primaryDns r), VStr (ds_standbyDns r)]"

interpretation dnsrulec: codec DnsRule_Marshalling DnsRule_Unmarshalling dns_rule_enc
  "\<lambda>r. int32_ok (ds_userId r) \<and> int32_ok (ds_appUid r)" id
proof
  fix io :: "'p parcel_ops" and pending and r :: NetFirewallDnsRule
  assume io: "parcel_spec io pending" and g: "int32_ok (ds_userId r) \<and> int32_ok (ds_appUid r)"
  show "writes pending (DnsRule_Marshalling io r) (dns_rule_enc r)"
    unfolding DnsRule_Marshalling_def dns_rule_enc_def
    by (rule parcel_writes [OF io] parcel_prims [OF io] base_codec(1) [OF io] writes_bind)+
  show "reads pending (DnsRule_Unmarshalling io) (dns_rule_enc r) (id r)"
    unfolding DnsRule_Unmarshalling_def dns_rule_enc_def
    by (rule reads_bind [OF base_codec(2) [OF io conjunct1 [OF g] conjunct2 [OF g]]], unfold prod.case,
        (rule parcel_reads [OF io] reads_return)+) simp
qed

definition rule_enc :: "NetFirewallRule \<Rightarrow> pval list" where
  "rule_enc r = V32 (fr_ruleId r) # VStr (fr_ruleName r) # VStr (fr_ruleDescription r) # V32 (dir_code (fr_ruleDirection r)) #
     V32 (action_code (fr_ruleAction r)) # V32 (type_code (fr_ruleType r)) # VBool (fr_isEnabled r) # V32 (fr_appUid r) #
     list_enc ip_enc (fr_localIps r) @ list_enc ip_enc (fr_remoteIps r) @ V32 (fr_protocol r) #
     list_enc port_enc (fr_localPorts r) @ list_enc port_enc (fr_remotePorts r) @ list_enc domain_enc (fr_domains r) @
     dns_enc (fr_dns r) @ [V32 (fr_userId r), VStr (fr_interface r)]"

definition rule_good :: "NetFirewallRule \<Rightarrow> bool" where
  "rule_good r \<longleftrightarrow> fr_ruleAction r \<noteq> RULE_INVALID \<and> fr_ruleType r \<noteq> TYPE_INVALID \<and>
     list_all ip_good (fr_localIps r) \<and> list_all ip_good (fr_remoteIps r)"

definition fw_rule_norm :: "NetFirewallRule \<Rightarrow> NetFirewallRule" where
  "fw_rule_norm r = r\<lparr> fr_localIps := map ip_norm (listed (fr_localIps r)), fr_remoteIps := map ip_norm (listed (fr_remoteIps r)),
     fr_localPorts := listed (fr_localPorts r), fr_remotePorts := listed (fr_remotePorts r), fr_domains := listed (fr_domains r) \<rparr>"

interpretation rulec: codec Rule_Marshalling Rule_Unmarshalling rule_enc rule_good fw_rule_norm
proof
  fix io :: "'p parcel_ops" and pending r assume io: "parcel_spec io pending" and good: "rule_good r"
  have g: "list_all ip_good (fr_localIps r)" "list_all ip_good (fr_remoteIps r)"
    "\<not> dir_cast (dir_code (fr_ruleDirection r)) = None" "\<not> action_cast (action_code (fr_ruleAction r)) = None"
    "\<not> type_cast (type_code (fr_ruleType r)) = None" "fr_ruleAction r \<noteq> RULE_INVALID" "fr_ruleType r \<noteq> TYPE_INVALID"
    using good by (simp_all add: rule_good_def)
  note lists = ip_list_codec [OF io g(1)] ip_list_codec [OF io g(2)] plain_list_codec [OF io] dnsc.writes [OF io TrueI] dnsc.reads [OF io TrueI]
  show "writes pending (Rule_Marshalling io r) (rule_enc r)"
    unfolding Rule_Marshalling_def rule_enc_def
    by (rule parcel_writes [OF io] parcel_prims [OF io] lists writes_bind)+
  show "reads pending (Rule_Unmarshalling io) (rule_enc r) (fw_rule_norm r)"
    unfolding Rule_Unmarshalling_def rule_enc_def
    by (rule parcel_reads [OF io] reads_guard [OF g(3)] reads_guard [OF g(4)] reads_guard [OF g(5)] reads_bind [OF lists(2)]
        reads_bind [OF lists(4)] reads_bind [OF lists(6)] reads_bind [OF lists(8)] reads_bind [OF lists(10)] reads_return)+
      (simp add: fw_rule_norm_def g(6,7))
qed

definition intercept_enc :: "InterceptRecord \<Rightarrow> pval list" where
  "intercept_enc r = [V16 (ir_localPort r), V16 (ir_remotePort r), V16 (ir_protocol r), V64 (ir_time r), VStr (ir_localIp r),
     VStr (ir_remoteIp r), V32 (ir_appUid r), VStr (ir_domain r)]"

interpretation interc: codec InterceptRecord_Marshalling InterceptRecord_Unmarshalling intercept_enc "\<lambda>_. True" id
proof
  fix io :: "'p parcel_ops" and pending r assume io: "parcel_spec io pending"
  show "writes pending (InterceptRecord_Marshalling io r) (intercept_enc r)"
    unfolding InterceptRecord_Marshalling_def intercept_enc_def by (rule parcel_writes [OF io] parcel_prims [OF io])+
  show "reads pending (InterceptRecord_Unmarshalling io) (intercept_enc r) (id r)"
    unfolding InterceptRecord_Unmarshalling_def intercept_enc_def by (rule parcel_reads [OF io] reads_return)+ simp
qed

text \<open>The queue table: present queues are written with their index.\<close>

fun queues_enc :: "u16 option list \<Rightarrow> nat \<Rightarrow> pval list" where
  "queues_enc [] i = []"
| "queues_enc (q # qs) i = (case q of None \<Rightarrow> [] | Some n \<Rightarrow> [V32 (of_nat i), V16 n]) @ queues_enc qs (i + 1)"

lemma queues_writes: "parcel_spec io pending \<Longrightarrow> writes pending (queues_write_loop io qs i) (queues_enc qs i)"
proof (induction qs arbitrary: i)
  case (Cons q qs)
  note io = Cons.prems
  have "writes pending (\<lambda>p. case q of None \<Rightarrow> Some p | Some n \<Rightarrow> do { p \<leftarrow> WriteUint32 io (of_nat i) p; NfqQueue_Marshalling io n p })
      (case q of None \<Rightarrow> [] | Some n \<Rightarrow> [V32 (of_nat i), V16 n])"
    by (cases q) (simp_all add: writes_return NfqQueue_Marshalling_def parcel_writes [OF io] parcel_prims [OF io])
  from writes_bind [OF this Cons.IH [OF io, of "i + 1"]] show ?case by simp
qed (simp add: writes_return)

lemma queues_reads:
  assumes io: "parcel_spec io pending"
  shows "length pre + length qs = NFQ_MAX_QUEUES \<Longrightarrow>
    reads pending (queues_read_loop io (length (filter (\<lambda>q. q \<noteq> None) qs)) (pre @ replicate (length qs) None))
      (queues_enc qs (length pre)) (pre @ qs)"
proof (induction qs arbitrary: pre)
  case Nil
  then show ?case by (simp add: reads_return)
next
  case (Cons q qs)
  then have ih: "reads pending (queues_read_loop io (length (filter (\<lambda>q. q \<noteq> None) qs)) (pre @ q # replicate (length qs) None))
      (queues_enc qs (length pre + 1)) (pre @ q # qs)"
    using Cons.IH [of "pre @ [q]"] by simp
  show ?case
  proof (cases q)
    case None
    then show ?thesis using ih by simp
  next
    case (Some n)
    have u: "unat (of_nat (length pre) :: u32) = length pre" "length pre < NFQ_MAX_QUEUES"
      using Cons.prems by (simp_all add: NFQ_MAX_QUEUES_def unat_of_nat)
    have "reads pending (\<lambda>p. do { (q, p) \<leftarrow> NfqQueue_Unmarshalling io p;
        queues_read_loop io (length (filter (\<lambda>q. q \<noteq> None) qs))
          ((pre @ None # replicate (length qs) None)[unat (of_nat (length pre) :: u32) := Some q]) p })
        (V16 n # queues_enc qs (length pre + 1)) (pre @ Some n # qs)"
      unfolding NfqQueue_Unmarshalling_def by (rule parcel_reads [OF io]) (use ih Some u in simp)
    note r = this
    have "reads pending (queues_read_loop io (Suc (length (filter (\<lambda>q. q \<noteq> None) qs))) (pre @ None # replicate (length qs) None))
        (V32 (of_nat (length pre)) # V16 n # queues_enc qs (length pre + 1)) (pre @ Some n # qs)"
      unfolding queues_read_loop.simps by (rule parcel_reads [OF io], rule reads_guard, use u in simp, rule r)
    with Some show ?thesis by (simp del: queues_read_loop.simps)
  qed
qed

definition nfq_enc :: "NfqCtx \<Rightarrow> pval list" where
  "nfq_enc c = V32 (nfq_seq c) # V32 (of_nat (length (filter (\<lambda>q. q \<noteq> None) (nfq_queues c)))) # queues_enc (nfq_queues c) 0 @ []"

interpretation nfqc: codec NfqCtx_Marshalling NfqCtx_Unmarshalling nfq_enc "\<lambda>c. length (nfq_queues c) = NFQ_MAX_QUEUES"
  "\<lambda>c. c\<lparr> nfq_fd := 0 \<rparr>"
proof
  fix io :: "'p parcel_ops" and pending and c :: NfqCtx
  assume io: "parcel_spec io pending" and len: "length (nfq_queues c) = NFQ_MAX_QUEUES"
  show "writes pending (NfqCtx_Marshalling io c) (nfq_enc c)"
    unfolding NfqCtx_Marshalling_def nfq_enc_def append_Nil2 by (rule parcel_writes [OF io] queues_writes [OF io])+
  let ?n = "length (filter (\<lambda>q. q \<noteq> None) (nfq_queues c))"
  have "?n \<le> NFQ_MAX_QUEUES" using len by (metis length_filter_le)
  then have n: "unat (of_nat ?n :: u32) = ?n" by (simp add: NFQ_MAX_QUEUES_def unat_of_nat)
  have r: "reads pending (queues_read_loop io (unat (of_nat ?n :: u32)) (replicate NFQ_MAX_QUEUES None)) (queues_enc (nfq_queues c) 0) (nfq_queues c)"
    using queues_reads [OF io, of "[]" "nfq_queues c"] len n by simp
  show "reads pending (NfqCtx_Unmarshalling io) (nfq_enc c) (c\<lparr> nfq_fd := 0 \<rparr>)"
    unfolding NfqCtx_Unmarshalling_def nfq_enc_def
    by (rule parcel_reads [OF io] reads_bind [OF r] reads_return)+ simp
qed

subsection \<open>What the readers accept\<close>

definition ip_accepted :: "NetFirewallIpParam \<Rightarrow> bool" where
  "ip_accepted x \<longleftrightarrow> ip_norm x = x \<and> ip_good x"

lemma ip6_read_keeps:
  "ip6_read_loop io is x p = Some (y, p') \<Longrightarrow> length (ip6_startIp y) = length (ip6_startIp x) \<and>
     length (ip6_endIp y) = length (ip6_endIp x) \<and> ip_family y = ip_family x \<and> ip_type y = ip_type x \<and> ip_mask y = ip_mask x \<and>
     ip4_startIp y = ip4_startIp x \<and> ip4_endIp y = ip4_endIp x \<and> (ip_type x \<noteq> MULTIPLE_IP \<longrightarrow> ip6_endIp y = ip6_endIp x)"
proof (induction "is" arbitrary: x p)
  case (Cons i "is")
  then show ?case by (fastforce simp: bind_eq_Some_conv split: if_splits)
qed simp

lemma IpParam_accepted: "IpParam_Unmarshalling io p = Some (x, p') \<Longrightarrow> ip_accepted x"
proof -
  assume run: "IpParam_Unmarshalling io p = Some (x, p')"
  then obtain f t m q where q: "(if f = FAMILY_IPV4 then do {
       (s, p) \<leftarrow> ReadUint32 io q;
       if t = MULTIPLE_IP then do {
         (e, p) \<leftarrow> ReadUint32 io p;
         Some (new_ip_param\<lparr> ip_family := f, ip_type := t, ip_mask := m, ip4_startIp := s, ip4_endIp := e \<rparr>, p) }
       else Some (new_ip_param\<lparr> ip_family := f, ip_type := t, ip_mask := m, ip4_startIp := s \<rparr>, p) }
     else ip6_read_loop io [0..<IPV6_ARRAY_SIZE] (new_ip_param\<lparr> ip_family := f, ip_type := t, ip_mask := m \<rparr>) q) = Some (x, p')"
    by (auto simp: IpParam_Unmarshalling_def bind_eq_Some_conv)
  show ?thesis
  proof (cases "f = FAMILY_IPV4")
    case True
    with q show ?thesis
      by (auto simp: bind_eq_Some_conv ip_accepted_def ip_norm_def ip_good_def new_ip_param_def Let_def split: if_splits)
  next
    case False
    with q ip6_read_keeps [of io "[0..<IPV6_ARRAY_SIZE]" _ q x p'] show ?thesis
      by (auto simp: ip_accepted_def ip_norm_def ip_good_def new_ip_param_def Let_def)
  qed
qed

definition short_lists :: "NetFirewallIpRule \<Rightarrow> bool" where
  "short_lists r \<longleftrightarrow> length (localIps r) \<le> FIREWALL_MAX_LIST_SIZE \<and> length (remoteIps r) \<le> FIREWALL_MAX_LIST_SIZE \<and>
     length (localPorts r) \<le> FIREWALL_MAX_LIST_SIZE \<and> length (remotePorts r) \<le> FIREWALL_MAX_LIST_SIZE"

lemma listed_short: "length xs \<le> FIREWALL_MAX_LIST_SIZE \<Longrightarrow> listed xs = xs"
  by (simp add: listed_def list_size_small FIREWALL_MAX_LIST_SIZE_def)

lemma UnmarshallingList_accepted:
  assumes "\<And>p x p'. unmarsh io p = Some (x, p') \<Longrightarrow> P x" and run: "UnmarshallingList unmarsh io p = Some (xs, p')"
  shows "list_all P xs" "length xs \<le> FIREWALL_MAX_LIST_SIZE"
  using run unmarshal_n_all [where P = P and unmarsh = unmarsh and io = io] assms(1)
  by (auto simp: UnmarshallingList_def bind_eq_Some_conv dest: unmarshal_n_length)

lemma ip_list_accepted:
  assumes "UnmarshallingList IpParam_Unmarshalling io p = Some (xs, p')"
  shows "list_all ip_accepted xs"
  by (rule UnmarshallingList_accepted(1) [OF _ assms]) (rule IpParam_accepted)

lemma list_accepted_short:
  assumes "UnmarshallingList unmarsh io p = Some (xs, p')"
  shows "length xs \<le> FIREWALL_MAX_LIST_SIZE"
  by (rule UnmarshallingList_accepted(2) [where P = "\<lambda>_. True", OF _ assms]) simp

lemma ip_norm_semantics [simp]: "item_in4 (ip_norm x) = item_in4 x" "item_norm (ip_norm x) = item_norm x"
  by (auto simp: fun_eq_iff item_in4_def item_norm_def ip_norm_def Let_def new_ip_param_def SINGLE_IP_def MULTIPLE_IP_def)


lemma action_cast_valid: "action_cast a \<noteq> None \<Longrightarrow> the (action_cast a) \<noteq> RULE_INVALID"
  by (auto simp: action_cast_def split: if_splits)

lemma sint_ok [simp]: "int32_ok (sint (w :: s32))"
  using sint_greater_eq [of w] sint_less [of w] by (simp add: int32_ok_def)

lemma IpRule_accepted:
  assumes "IpRule_Unmarshalling io p = Some (r, p')"
  shows "ip_rule_good r \<and> ip_rule_norm r = r \<and> short_lists r"
proof -
  from assms obtain u w q a act dr and proto :: s32 and lips rips lports rports iface where
    base: "UnmarshallingBase io p = Some ((u, w), q)" and a: "action_cast a = Some act"
    and l: "\<exists>p q. UnmarshallingList IpParam_Unmarshalling io p = Some (lips, q)"
      "\<exists>p q. UnmarshallingList IpParam_Unmarshalling io p = Some (rips, q)"
      "\<exists>p q. UnmarshallingList PortParam_Unmarshalling io p = Some (lports, q)"
      "\<exists>p q. UnmarshallingList PortParam_Unmarshalling io p = Some (rports, q)"
    and r: "r = \<lparr> userId = u, appUid = w, ruleDirection = dr, ruleAction = act,
       protocol = unat proto, localIps = lips, remoteIps = rips, localPorts = lports, remotePorts = rports, rule_interface = iface \<rparr>"
    unfolding IpRule_Unmarshalling_def by (auto simp: bind_eq_Some_conv split: if_splits) blast
  have act: "act \<noteq> RULE_INVALID" using action_cast_valid [of a] a by simp
  have b: "int32_ok u" "int32_ok w" using base by (auto simp: UnmarshallingBase_def bind_eq_Some_conv)
  have ip: "list_all ip_accepted lips" "list_all ip_accepted rips"
    using l(1,2) by (auto dest: ip_list_accepted)
  have len: "length lips \<le> FIREWALL_MAX_LIST_SIZE" "length rips \<le> FIREWALL_MAX_LIST_SIZE"
    "length lports \<le> FIREWALL_MAX_LIST_SIZE" "length rports \<le> FIREWALL_MAX_LIST_SIZE"
    using l by (auto dest: list_accepted_short)
  have proto: "unat proto < 2 ^ 32" using unsigned_less [where ?'a = nat and w = proto] by simp
  have "map ip_norm lips = lips" "map ip_norm rips = rips" using ip by (auto simp: list_all_iff ip_accepted_def intro: map_idI)
  moreover have "list_all ip_good lips" "list_all ip_good rips" using ip by (auto simp: list_all_iff ip_accepted_def)
  ultimately show ?thesis
    using b len proto act
    by (simp add: r ip_rule_good_def ip_rule_norm_def short_lists_def listed_short)
qed

lemma queues_read_length: "queues_read_loop io n qs p = Some (qs', p') \<Longrightarrow> length qs' = length qs"
proof (induction n arbitrary: qs p)
  case (Suc n)
  then show ?case by (auto simp: bind_eq_Some_conv split: if_splits)
qed simp

subsection \<open>Properties\<close>



text \<open>C9: What the reader accepts is well formed for every parcel, whoever wrote it: the action is allow or deny, the
  identities are 32-bit numbers, every address has its 16 bytes, no list is longer than the limit, and the rule can be
  passed on without loss.\<close>

theorem accepted_rule_well_formed:
  assumes "IpRule_Unmarshalling io p = Some (r, p')"
  shows "ip_rule_good r \<and> ip_rule_norm r = r \<and> short_lists r"
  by (rule IpRule_accepted [OF assms])

theorem accepted_rule_well_formed_witness:
  "\<exists>r p'. IpRule_Unmarshalling list_parcel (ip_rule_enc sample_rule) = Some (r, p') \<and> ip_rule_good r"
proof -
  have "IpRule_Unmarshalling list_parcel (ip_rule_enc sample_rule) \<noteq> None" by code_simp
  then obtain r p' where "IpRule_Unmarshalling list_parcel (ip_rule_enc sample_rule) = Some (r, p')" by auto
  with accepted_rule_well_formed [OF this] show ?thesis by blast
qed



text \<open>A rule of the external interface comes back as it was sent, up to the members of the address union that its
  family does not use and up to the limit on lists.\<close>

theorem external_rule_roundtrip:
  assumes "parcel_spec io pending" "rule_good r" "pending p = []" "Rule_Marshalling io r p = Some p'"
  shows "\<exists>p''. Rule_Unmarshalling io p' = Some (fw_rule_norm r, p'') \<and> pending p'' = []"
  by (rule rulec.roundtrip [OF assms])

theorem external_rule_roundtrip_witness:
  "let r = \<lparr> fr_ruleId = 1, fr_ruleName = ''block'', fr_ruleDescription = [], fr_ruleDirection = RULE_OUT, fr_ruleAction = RULE_DENY,
      fr_ruleType = RULE_DOMAIN, fr_isEnabled = True, fr_appUid = 0, fr_localIps = [], fr_remoteIps = [], fr_protocol = 0,
      fr_localPorts = [], fr_remotePorts = [], fr_domains = [\<lparr> isWildcard = True, domain = ''*.example.com'' \<rparr>],
      fr_dns = \<lparr> primaryDns = [], standbyDns = [] \<rparr>, fr_userId = 100, fr_interface = [] \<rparr>
   in \<exists>p''. Rule_Unmarshalling list_parcel (the (Rule_Marshalling list_parcel r [])) = Some (fw_rule_norm r, p'')"
proof -
  let ?r = "\<lparr> fr_ruleId = 1, fr_ruleName = ''block'', fr_ruleDescription = [], fr_ruleDirection = RULE_OUT, fr_ruleAction = RULE_DENY,
      fr_ruleType = RULE_DOMAIN, fr_isEnabled = True, fr_appUid = 0, fr_localIps = [], fr_remoteIps = [], fr_protocol = 0,
      fr_localPorts = [], fr_remotePorts = [], fr_domains = [\<lparr> isWildcard = True, domain = ''*.example.com'' \<rparr>],
      fr_dns = \<lparr> primaryDns = [], standbyDns = [] \<rparr>, fr_userId = 100, fr_interface = [] \<rparr>"
  have ok: "rule_good ?r" by code_simp
  have "Rule_Marshalling list_parcel ?r [] \<noteq> None" by code_simp
  then obtain p' where p': "Rule_Marshalling list_parcel ?r [] = Some p'" by blast
  from external_rule_roundtrip [OF list_parcel_spec ok _ p'] show ?thesis by (auto simp: Let_def p')
qed

text \<open>The queue table of packet filtering comes back with every queue at its index, and whatever the parcel holds,
  the table that is read has its 64 entries: an index outside it is refused.\<close>

theorem queue_table_roundtrip:
  assumes "parcel_spec io pending" "length (nfq_queues c) = NFQ_MAX_QUEUES" "pending p = []" "NfqCtx_Marshalling io c p = Some p'"
  shows "(\<exists>p''. NfqCtx_Unmarshalling io p' = Some (c\<lparr> nfq_fd := 0 \<rparr>, p'') \<and> pending p'' = []) \<and>
    (\<forall>io' q c' q'. NfqCtx_Unmarshalling io' q = Some (c', q') \<longrightarrow> length (nfq_queues c') = NFQ_MAX_QUEUES)"
  using nfqc.roundtrip [OF assms] by (auto simp: NfqCtx_Unmarshalling_def bind_eq_Some_conv dest: queues_read_length)

theorem queue_table_roundtrip_witness:
  "let c = \<lparr> nfq_fd = 3, nfq_seq = 9, nfq_queues = (replicate 64 None)[5 := Some 17] \<rparr>
   in \<exists>p''. NfqCtx_Unmarshalling list_parcel (the (NfqCtx_Marshalling list_parcel c [])) = Some (c\<lparr> nfq_fd := 0 \<rparr>, p'')"
proof -
  let ?c = "\<lparr> nfq_fd = 3, nfq_seq = 9, nfq_queues = (replicate 64 None)[5 := Some 17] \<rparr>"
  have "NfqCtx_Marshalling list_parcel ?c [] \<noteq> None" by code_simp
  then obtain p' where p': "NfqCtx_Marshalling list_parcel ?c [] = Some p'" by blast
  from queue_table_roundtrip [OF list_parcel_spec _ _ p'] show ?thesis by (auto simp: Let_def p' NFQ_MAX_QUEUES_def)
qed

end
