(* ===== verification/Ut_Std.thy ===== *)
theory Ut_Std
  imports Prelude
begin

text \<open>
  What the services use of the C++ standard library and of \<^verbatim>\<open>utils/common_utils\<close>: the ordered map \<^verbatim>\<open>std::map\<close> as a list
  of pairs in key order, decimal numbers (\<^verbatim>\<open>std::to_string\<close>, \<^verbatim>\<open>std::from_chars\<close>) and \<^verbatim>\<open>CommonUtils::StrToInt\<close> and
  \<^verbatim>\<open>CommonUtils::StrToUint\<close> from \<^verbatim>\<open>netmanager_base_common_utils.cpp\<close>. The lemmas give the map laws that the clients
  use (the locale \<^verbatim>\<open>ordered_map\<close>) and the round trip of unsigned numbers through their text.
\<close>

subsection \<open>Ordered maps\<close>

fun map_put :: "'k :: linorder \<Rightarrow> 'v \<Rightarrow> ('k \<times> 'v) list \<Rightarrow> ('k \<times> 'v) list" where
  "map_put k v [] = [(k, v)]"
| "map_put k v ((k', v') # m) =
     (if k < k' then (k, v) # (k', v') # m else if k = k' then (k, v) # m else (k', v') # map_put k v m)"

definition map_erase :: "'k \<Rightarrow> ('k \<times> 'v) list \<Rightarrow> ('k \<times> 'v) list" where
  "map_erase k m = filter (\<lambda>(k', _). k' \<noteq> k) m"

definition map_wf :: "('k :: linorder \<times> 'v) list \<Rightarrow> bool" where
  "map_wf m \<longleftrightarrow> sorted_wrt (<) (map fst m)"

locale ordered_map =
  fixes look :: "'m \<Rightarrow> 'k \<Rightarrow> 'v option" and put :: "'k \<Rightarrow> 'v \<Rightarrow> 'm \<Rightarrow> 'm" and erase :: "'k \<Rightarrow> 'm \<Rightarrow> 'm"
    and wf :: "'m \<Rightarrow> bool"
  assumes look_put: "look (put k v m) k' = (if k' = k then Some v else look m k')"
    and look_erase: "look (erase k m) k' = (if k' = k then None else look m k')"
    and wf_put: "wf m \<Longrightarrow> wf (put k v m)"
    and wf_erase: "wf m \<Longrightarrow> wf (erase k m)"
begin

lemma put_twice: "look (put k v (put k w m)) = look (put k v m)"
  by (rule ext) (simp add: look_put)

lemma erase_put: "look (erase k (put k v m)) = look (erase k m)"
  by (rule ext) (simp add: look_put look_erase)

lemma dom_put: "{x. look (put k v m) x \<noteq> None} = insert k {x. look m x \<noteq> None}"
  by (auto simp: look_put)

lemma dom_erase: "{x. look (erase k m) x \<noteq> None} = {x. look m x \<noteq> None} - {k}"
  by (auto simp: look_erase)

end

lemma fst_map_put: "fst ` set (map_put k v m) = insert k (fst ` set m)"
  by (induction k v m rule: map_put.induct) auto

lemma map_wf_Cons: "map_wf ((k, v) # m) \<longleftrightarrow> (\<forall>x\<in>fst ` set m. k < x) \<and> map_wf m"
  by (simp add: map_wf_def)

lemma map_wf_Nil [simp]: "map_wf []"
  by (simp add: map_wf_def)

lemma map_wf_put [wf_intros]: "map_wf m \<Longrightarrow> map_wf (map_put k v m)"
  by (induction k v m rule: map_put.induct) (auto simp: map_wf_Cons fst_map_put)

lemma map_wf_erase [wf_intros]: "map_wf m \<Longrightarrow> map_wf (map_erase k m)"
  by (induction m) (auto simp: map_wf_Cons map_erase_def)

lemma map_of_put [simp]: "map_of (map_put k v m) k' = (if k' = k then Some v else map_of m k')"
  by (induction k v m rule: map_put.induct) auto

lemma map_of_erase [simp]: "map_of (map_erase k m) k' = (if k' = k then None else map_of m k')"
  by (induction m) (auto simp: map_erase_def)

lemma map_wf_distinct: "map_wf m \<Longrightarrow> distinct (map fst m)"
  unfolding map_wf_def by (metis strict_sorted_iff)

interpretation std_map: ordered_map map_of map_put map_erase map_wf
  by unfold_locales (simp_all add: map_wf_put map_wf_erase)

subsection \<open>Decimal numbers\<close>

definition digit :: "int \<Rightarrow> char" where
  "digit d = char_of (nat (48 + d))"

definition digit_value :: "char \<Rightarrow> int" where
  "digit_value c = int (of_char c) - 48"

definition is_digit :: "char \<Rightarrow> bool" where
  "is_digit c \<longleftrightarrow> 0 \<le> digit_value c \<and> digit_value c \<le> 9"

function decimal :: "int \<Rightarrow> string" where
  "decimal n = (if n < 10 then [digit n] else decimal (n div 10) @ [digit (n mod 10)])"
  by pat_completeness auto
termination by (relation "measure nat") auto

declare decimal.simps [simp del]

definition dec_value :: "string \<Rightarrow> int" where
  "dec_value s = foldl (\<lambda>a c. 10 * a + digit_value c) 0 s"

definition to_string_u32 :: "u32 \<Rightarrow> string" where
  "to_string_u32 x = decimal (uint x)"

definition to_string_int :: "int \<Rightarrow> string" where
  "to_string_int x = (if x < 0 then CHR ''-'' # decimal (- x) else decimal x)"

text \<open>\<^verbatim>\<open>std::from_chars\<close>: the value of the longest prefix of digits (after a minus sign for signed types) and the rest; \<^verbatim>\<open>None\<close> for
  no digit or a value outside of the range.\<close>

definition from_chars_digits :: "string \<Rightarrow> (int \<times> string) option" where
  "from_chars_digits s = (let ds = takeWhile is_digit s in
     if ds = [] then None else Some (dec_value ds, dropWhile is_digit s))"

definition from_chars_u32 :: "string \<Rightarrow> (u32 \<times> string) option" where
  "from_chars_u32 s = (case from_chars_digits s of None \<Rightarrow> None
     | Some (v, rest) \<Rightarrow> if v < 2 ^ 32 then Some (word_of_int v, rest) else None)"

definition from_chars_int32 :: "string \<Rightarrow> (int \<times> string) option" where
  "from_chars_int32 s =
     (if s \<noteq> [] \<and> hd s = CHR ''-'' then
        (case from_chars_digits (tl s) of None \<Rightarrow> None
         | Some (v, rest) \<Rightarrow> if v \<le> 2 ^ 31 then Some (- v, rest) else None)
      else
        (case from_chars_digits s of None \<Rightarrow> None
         | Some (v, rest) \<Rightarrow> if v < 2 ^ 31 then Some (v, rest) else None))"

definition StrToUint :: "string \<Rightarrow> u32 \<Rightarrow> u32" where
  "StrToUint value defaultErr =
     (if value = [] then defaultErr
      else case from_chars_u32 value of None \<Rightarrow> defaultErr
        | Some (result, ptr) \<Rightarrow> if ptr \<noteq> [] then defaultErr else result)"

definition StrToInt :: "string \<Rightarrow> int \<Rightarrow> int" where
  "StrToInt value defaultErr =
     (if value = [] then defaultErr
      else case from_chars_int32 value of None \<Rightarrow> defaultErr
        | Some (result, ptr) \<Rightarrow> if ptr \<noteq> [] then defaultErr else result)"

lemma digit_value_digit [simp]:
  assumes "0 \<le> d" "d < 10"
  shows "digit_value (digit d) = d"
  using assms by (simp add: digit_value_def digit_def of_char_of nat_add_distrib)

lemma is_digit_digit [simp]: "0 \<le> d \<Longrightarrow> d < 10 \<Longrightarrow> is_digit (digit d)"
  by (simp add: is_digit_def)

lemma dec_value_snoc [simp]: "dec_value (s @ [c]) = 10 * dec_value s + digit_value c"
  by (simp add: dec_value_def)

lemma decimal_not_Nil [simp]: "decimal n \<noteq> []"
  by (subst decimal.simps) simp

lemma decimal_digits: "0 \<le> n \<Longrightarrow> \<forall>c\<in>set (decimal n). is_digit c"
proof (induction n rule: decimal.induct)
  case (1 n)
  then show ?case by (subst decimal.simps) auto
qed

lemma dec_value_decimal [simp]: "0 \<le> n \<Longrightarrow> dec_value (decimal n) = n"
proof (induction n rule: decimal.induct)
  case (1 n)
  show ?case
  proof (cases "n < 10")
    case True
    then show ?thesis using 1 by (subst decimal.simps) (simp add: dec_value_def)
  next
    case False
    then show ?thesis using 1 by (subst decimal.simps) simp
  qed
qed

lemma from_chars_decimal: "0 \<le> n \<Longrightarrow> from_chars_digits (decimal n) = Some (n, [])"
  using decimal_digits [of n] by (simp add: from_chars_digits_def takeWhile_eq_all_conv [THEN iffD2] Let_def)

lemma StrToUint_to_string [simp]: "StrToUint (to_string_u32 x) d = x"
  using unsigned_less [where ?'a = int and w = x]
  by (simp add: StrToUint_def from_chars_u32_def to_string_u32_def from_chars_decimal)

lemma to_string_u32_inject [simp]: "to_string_u32 x = to_string_u32 y \<longleftrightarrow> x = y"
  by (metis StrToUint_to_string)

lemma decimal_no_minus: "0 \<le> n \<Longrightarrow> hd (decimal n) \<noteq> CHR ''-''"
proof
  assume n: "0 \<le> n" and "hd (decimal n) = CHR ''-''"
  then have "is_digit (CHR ''-'')" using decimal_digits [OF n] hd_in_set [OF decimal_not_Nil, of n] by metis
  then show False by (simp add: is_digit_def digit_value_def)
qed

lemma StrToInt_to_string:
  assumes "- (2 ^ 31) \<le> x" "x < 2 ^ 31"
  shows "StrToInt (to_string_int x) d = x"
  using assms decimal_no_minus [of x]
  by (simp add: StrToInt_def to_string_int_def from_chars_int32_def from_chars_decimal)

subsection \<open>Numbers in the notation of C\<close>

text \<open>\<^verbatim>\<open>strtoll\<close> and \<^verbatim>\<open>strtoul\<close> with base 0: white space, a sign, and the longest run of digits in the base that the prefix
  names; \<^verbatim>\<open>None\<close> when there is no digit. The range is tested by the callers.\<close>

definition digit_of :: "char \<Rightarrow> int option" where
  "digit_of c = (let v = int (of_char c) in
     if 48 \<le> v \<and> v \<le> 57 then Some (v - 48) else if 97 \<le> v \<and> v \<le> 122 then Some (v - 87)
     else if 65 \<le> v \<and> v \<le> 90 then Some (v - 55) else None)"

definition in_base :: "int \<Rightarrow> char \<Rightarrow> bool" where
  "in_base b c \<longleftrightarrow> (case digit_of c of None \<Rightarrow> False | Some d \<Rightarrow> d < b)"

definition base_value :: "int \<Rightarrow> string \<Rightarrow> int" where
  "base_value b s = foldl (\<lambda>a c. b * a + the (digit_of c)) 0 s"

definition strto_digits :: "string \<Rightarrow> int option" where
  "strto_digits s =
     (if 3 \<le> length s \<and> s ! 0 = CHR ''0'' \<and> (s ! 1 = CHR ''x'' \<or> s ! 1 = CHR ''X'') \<and> in_base 16 (s ! 2)
      then Some (base_value 16 (takeWhile (in_base 16) (drop 2 s)))
      else let b = (if s \<noteq> [] \<and> hd s = CHR ''0'' then 8 else 10); ds = takeWhile (in_base b) s
           in if ds = [] then None else Some (base_value b ds))"

definition is_space :: "char \<Rightarrow> bool" where
  "is_space c \<longleftrightarrow> (let v = of_char c :: nat in v = 32 \<or> (9 \<le> v \<and> v \<le> 13))"

definition strto :: "string \<Rightarrow> int option" where
  "strto s = (let t = dropWhile is_space s in
     if t \<noteq> [] \<and> hd t = CHR ''-'' then map_option uminus (strto_digits (tl t))
     else if t \<noteq> [] \<and> hd t = CHR ''+'' then strto_digits (tl t)
     else strto_digits t)"

definition StrToLong :: "string \<Rightarrow> int \<Rightarrow> int" where
  "StrToLong value defaultErr =
     (case strto value of None \<Rightarrow> defaultErr | Some v \<Rightarrow> if v < - (2 ^ 63) \<or> 2 ^ 63 \<le> v then defaultErr else v)"

definition StrToBool :: "string \<Rightarrow> bool \<Rightarrow> bool" where
  "StrToBool value defaultErr =
     (case strto value of None \<Rightarrow> defaultErr
      | Some v \<Rightarrow> if v \<le> - (2 ^ 64) \<or> 2 ^ 64 \<le> v \<or> 2 ^ 32 \<le> v mod 2 ^ 64 then defaultErr else v \<noteq> 0)"

lemma in_base_10: "in_base 10 c = is_digit c"
  by (auto simp: in_base_def digit_of_def is_digit_def digit_value_def Let_def)

lemma base_value_10: "\<forall>c\<in>set s. is_digit c \<Longrightarrow> base_value 10 s = dec_value s"
proof (induction s rule: rev_induct)
  case (snoc c s)
  then have "the (digit_of c) = digit_value c" by (auto simp: digit_of_def is_digit_def digit_value_def Let_def)
  then show ?case using snoc by (simp add: base_value_def)
qed (simp add: base_value_def dec_value_def)

lemma hd_decimal: "0 < n \<Longrightarrow> hd (decimal n) \<noteq> CHR ''0''"
proof (induction n rule: decimal.induct)
  case (1 n)
  show ?case
  proof (cases "n < 10")
    case True
    have "digit n \<noteq> CHR ''0''"
    proof
      assume "digit n = CHR ''0''"
      then have "digit_value (digit n) = 0" by (simp add: digit_value_def)
      with True 1 show False by simp
    qed
    then show ?thesis using True by (subst decimal.simps) simp
  next
    case False
    then show ?thesis using 1 by (subst decimal.simps) simp
  qed
qed

lemma strto_digits_decimal:
  assumes "0 \<le> n"
  shows "strto_digits (decimal n) = Some n"
proof (cases "n = 0")
  case True
  have "digit 0 = CHR ''0''" by code_simp
  then have "decimal 0 = ''0''" by (subst decimal.simps) simp
  with True show ?thesis by (simp add: strto_digits_def in_base_def digit_of_def base_value_def Let_def)
next
  case False
  with assms have h: "hd (decimal n) \<noteq> CHR ''0''" using hd_decimal by simp
  then have h0: "decimal n ! 0 \<noteq> CHR ''0''" by (simp add: hd_conv_nth)
  have tw: "takeWhile (in_base 10) (decimal n) = decimal n" "base_value 10 (decimal n) = n"
    using decimal_digits [OF assms] assms by (simp_all add: takeWhile_eq_all_conv in_base_10 base_value_10)
  then show ?thesis using h h0 by (simp add: strto_digits_def tw Let_def)
qed

lemma decimal_first:
  assumes "0 \<le> n"
  shows "dropWhile is_space (decimal n) = decimal n" "hd (decimal n) \<noteq> CHR ''+''"
proof -
  have d: "is_digit (hd (decimal n))" using decimal_digits [OF assms] hd_in_set [OF decimal_not_Nil, of n] by blast
  then show "hd (decimal n) \<noteq> CHR ''+''" by (auto simp: is_digit_def digit_value_def)
  from d have "\<not> is_space (hd (decimal n))" by (auto simp: is_space_def is_digit_def digit_value_def Let_def)
  then show "dropWhile is_space (decimal n) = decimal n" by (cases "decimal n") simp_all
qed

lemma strto_to_string: "strto (to_string_int x) = Some x"
proof (cases "x < 0")
  case True
  then show ?thesis by (simp add: strto_def to_string_int_def is_space_def strto_digits_decimal)
next
  case False
  then show ?thesis using decimal_first [of x] decimal_no_minus [of x]
    by (simp add: strto_def to_string_int_def strto_digits_decimal Let_def)
qed

lemma StrToLong_to_string: "- (2 ^ 63) \<le> x \<Longrightarrow> x < 2 ^ 63 \<Longrightarrow> StrToLong (to_string_int x) d = x"
  by (simp add: StrToLong_def strto_to_string)

lemma StrToBool_digits: "StrToBool ''1'' d" "\<not> StrToBool ''0'' d"
  by (simp_all add: StrToBool_def strto_def strto_digits_def is_space_def in_base_def digit_of_def base_value_def Let_def)

end
