(* ===== verification/Po_Base.thy ===== *)
theory Po_Base
  imports Ut_Std
begin

text \<open>
  What the parts of the policy manager share: quota policies (\<^verbatim>\<open>net_quota_policy.h\<close>), the policy store
  \<^verbatim>\<open>NetPolicyFile\<close> with the in-memory object \<^verbatim>\<open>netPolicy\<close>, the registered callbacks (\<^verbatim>\<open>NetPolicyCallback\<close>), the events the
  parts send to each other (\<^verbatim>\<open>PolicyEvent\<close>) and the calls to the native daemon (\<^verbatim>\<open>NetsysPolicyWrapper\<close>). The record
  \<^verbatim>\<open>policy_base\<close> is the state of these singletons; the records of the parts extend it. Calls that leave the service (to the
  daemon, to callbacks, broadcasts) are recorded in \<^verbatim>\<open>calls\<close> in the order in which they are made, and the objects sent to the
  writer of the policy file in \<^verbatim>\<open>file_writes\<close>; JSON text and the file itself are not modelled. The lemmas say that callbacks
  stay distinct and within their limit.
\<close>

subsection \<open>Quota policies\<close>

definition DATA_USAGE_UNKNOWN :: int where "DATA_USAGE_UNKNOWN = - 1"
definition DATA_USAGE_UNLIMITED :: int where "DATA_USAGE_UNLIMITED = 2 ^ 63 - 1"
definition REMIND_NEVER :: int where "REMIND_NEVER = - 1"
definition BEARER_DEFAULT :: int where "BEARER_DEFAULT = 6"
definition LIMIT_ACTION_NONE :: int where "LIMIT_ACTION_NONE = - 1"
definition LIMIT_ACTION_ACCESS_DISABLED :: int where "LIMIT_ACTION_ACCESS_DISABLED = 0"
definition LIMIT_ACTION_ALERT_ONLY :: int where "LIMIT_ACTION_ALERT_ONLY = 1"

record NetLogotype =
  netType :: int
  simId :: string
  ident :: string

record QuotaPolicy =
  periodStartTime :: int
  periodDuration :: string
  title :: string
  summary :: string
  warningBytes :: int
  limitBytes :: int
  lastWarningRemind :: int
  lastLimitRemind :: int
  metered :: bool
  source :: int
  limitAction :: int
  usedBytes :: int
  usedTimeDuration :: int
  possessor :: string

record NetQuotaPolicy =
  networkmatchrule :: NetLogotype
  quotapolicy :: QuotaPolicy

definition new_quota_policy :: NetQuotaPolicy where
  "new_quota_policy =
     \<lparr> networkmatchrule = \<lparr> netType = BEARER_DEFAULT, simId = '''', ident = '''' \<rparr>,
       quotapolicy = \<lparr> periodStartTime = - 1, periodDuration = ''M1'', title = '''', summary = '''',
         warningBytes = DATA_USAGE_UNKNOWN, limitBytes = DATA_USAGE_UNKNOWN, lastWarningRemind = REMIND_NEVER,
         lastLimitRemind = REMIND_NEVER, metered = False, source = - 1, limitAction = LIMIT_ACTION_NONE,
         usedBytes = - 1, usedTimeDuration = - 1, possessor = '''' \<rparr> \<rparr>"

subsection \<open>State shared by the parts\<close>

record UidPolicy =
  up_uid :: string
  up_policy :: string

record NetPolicyQuota =
  q_netType :: string
  q_simId :: string
  q_periodStartTime :: string
  q_periodDuration :: string
  q_warningBytes :: string
  q_limitBytes :: string
  q_lastLimitSnooze :: string
  q_metered :: string
  q_ident :: string

record NetFirewallRuleList =
  file_deniedList :: "u32 set"
  file_allowedList :: "u32 set"

record NetPolicy =
  hosVersion :: string
  uidPolicies :: "UidPolicy list"
  backgroundPolicyStatus :: string
  netQuotaPolicies :: "NetPolicyQuota list"
  netFirewallRules :: "(u32 \<times> NetFirewallRuleList) list"

datatype core = Traffic | Firewall | Rule

record PolicyEvent =
  eventId :: int
  sender :: "core option"
  ev_deviceIdleMode :: bool
  ev_deviceIdleList :: "u32 set"
  ev_powerSaveMode :: bool
  ev_powerSaveList :: "u32 set"
  ev_deletedUid :: u32
  ev_uid :: u32

definition new_event :: PolicyEvent where
  "new_event = \<lparr> eventId = 0, sender = None, ev_deviceIdleMode = False, ev_deviceIdleList = {}, ev_powerSaveMode = False,
     ev_powerSaveList = {}, ev_deletedUid = 0, ev_uid = 0 \<rparr>"

definition MSG_DEVICE_IDLE_LIST_UPDATED :: int where "MSG_DEVICE_IDLE_LIST_UPDATED = 1"
definition MSG_DEVICE_IDLE_MODE_CHANGED :: int where "MSG_DEVICE_IDLE_MODE_CHANGED = 2"
definition MSG_POWER_SAVE_MODE_CHANGED :: int where "MSG_POWER_SAVE_MODE_CHANGED = 3"
definition MSG_UID_REMOVED :: int where "MSG_UID_REMOVED = 4"
definition MSG_POWER_SAVE_LIST_UPDATED :: int where "MSG_POWER_SAVE_LIST_UPDATED = 5"
definition MSG_UID_STATE_FOREGROUND :: int where "MSG_UID_STATE_FOREGROUND = 6"
definition MSG_UID_STATE_BACKGROUND :: int where "MSG_UID_STATE_BACKGROUND = 7"

lemmas msg_defs = MSG_DEVICE_IDLE_LIST_UPDATED_def MSG_DEVICE_IDLE_MODE_CHANGED_def MSG_POWER_SAVE_MODE_CHANGED_def
  MSG_UID_REMOVED_def MSG_POWER_SAVE_LIST_UPDATED_def MSG_UID_STATE_FOREGROUND_def MSG_UID_STATE_BACKGROUND_def

datatype policy_call =
    NetUidPolicyChange nat u32 u32
  | NetUidRuleChange nat u32 u32
  | NetBackgroundPolicyChange nat bool
  | NetQuotaPolicyChange nat "NetQuotaPolicy list"
  | NetMeteredIfacesChange nat "string list"
  | BandwidthEnableDataSaver bool
  | BandwidthSetIfaceQuota string int
  | BandwidthRemoveIfaceQuota string
  | BandwidthAddDeniedList u32
  | BandwidthRemoveDeniedList u32
  | BandwidthAddAllowedList u32
  | BandwidthRemoveAllowedList u32
  | FirewallSetUidsAllowedListChain u32 "u32 list"
  | FirewallSetUidsDeniedListChain u32 "u32 list"
  | FirewallSetUidRule u32 "u32 list" u32
  | FirewallEnableChain u32 bool
  | ClearFirewallAllRules
  | FirewallPolicyBroadcast string u32 bool "u32 list" "u32 list"
  | QuotaBroadcast string int

record policy_base =
  netPolicy :: NetPolicy
  file_writes :: "NetPolicy list"
  callbacks :: "nat list"
  events :: "PolicyEvent list"
  calls :: "policy_call list"

definition emit :: "policy_call list \<Rightarrow> 'a policy_base_scheme \<Rightarrow> 'a policy_base_scheme" where
  "emit cs s = s \<lparr> calls := calls s @ cs \<rparr>"

definition SendEvent :: "core option \<Rightarrow> int \<Rightarrow> PolicyEvent \<Rightarrow> 'a policy_base_scheme \<Rightarrow> 'a policy_base_scheme" where
  "SendEvent from msg e s = s \<lparr> events := events s @ [e \<lparr> eventId := msg, sender := from \<rparr>] \<rparr>"

subsection \<open>Callbacks\<close>

text \<open>A callback is the identity of its remote object; null callbacks are \<^verbatim>\<open>None\<close>.\<close>

definition LIMIT_CALLBACK_NUM :: nat where "LIMIT_CALLBACK_NUM = 200"
definition NETMANAGER_SUCCESS :: int where "NETMANAGER_SUCCESS = 0"
definition NETMANAGER_ERR_PARAMETER_ERROR :: int where "NETMANAGER_ERR_PARAMETER_ERROR = 401"
definition NETMANAGER_ERR_LOCAL_PTR_NULL :: int where "NETMANAGER_ERR_LOCAL_PTR_NULL = 2100105"
definition NETMANAGER_ERR_STATUS_EXIST :: int where "NETMANAGER_ERR_STATUS_EXIST = 2100209"
definition NETMANAGER_ERR_WRITE_DATA_FAIL :: int where "NETMANAGER_ERR_WRITE_DATA_FAIL = 2100203"
definition POLICY_ERR_INVALID_POLICY :: int where "POLICY_ERR_INVALID_POLICY = 2104003"
definition POLICY_ERR_INVALID_QUOTA_POLICY :: int where "POLICY_ERR_INVALID_QUOTA_POLICY = 2104004"

definition RegisterNetPolicyCallback :: "nat option \<Rightarrow> 'a policy_base_scheme \<Rightarrow> int \<times> 'a policy_base_scheme" where
  "RegisterNetPolicyCallback callback s =
     (case callback of None \<Rightarrow> (NETMANAGER_ERR_PARAMETER_ERROR, s)
      | Some cb \<Rightarrow>
        if length (callbacks s) \<ge> LIMIT_CALLBACK_NUM then (NETMANAGER_ERR_PARAMETER_ERROR, s)
        else if cb \<in> set (callbacks s) then (NETMANAGER_ERR_PARAMETER_ERROR, s)
        else (NETMANAGER_SUCCESS, s \<lparr> callbacks := callbacks s @ [cb] \<rparr>))"

definition UnregisterNetPolicyCallback :: "nat option \<Rightarrow> 'a policy_base_scheme \<Rightarrow> int \<times> 'a policy_base_scheme" where
  "UnregisterNetPolicyCallback callback s =
     (case callback of None \<Rightarrow> (NETMANAGER_ERR_PARAMETER_ERROR, s)
      | Some cb \<Rightarrow> (NETMANAGER_SUCCESS, s \<lparr> callbacks := filter (\<lambda>c. c \<noteq> cb) (callbacks s) \<rparr>))"

definition NotifyNetUidPolicyChange :: "u32 \<Rightarrow> u32 \<Rightarrow> 'a policy_base_scheme \<Rightarrow> 'a policy_base_scheme" where
  "NotifyNetUidPolicyChange uid policy s = emit (map (\<lambda>cb. NetUidPolicyChange cb uid policy) (callbacks s)) s"

definition NotifyNetUidRuleChange :: "u32 \<Rightarrow> u32 \<Rightarrow> 'a policy_base_scheme \<Rightarrow> 'a policy_base_scheme" where
  "NotifyNetUidRuleChange uid rule s = emit (map (\<lambda>cb. NetUidRuleChange cb uid rule) (callbacks s)) s"

definition NotifyNetBackgroundPolicyChange :: "bool \<Rightarrow> 'a policy_base_scheme \<Rightarrow> 'a policy_base_scheme" where
  "NotifyNetBackgroundPolicyChange isAllowed s = emit (map (\<lambda>cb. NetBackgroundPolicyChange cb isAllowed) (callbacks s)) s"

definition NotifyNetQuotaPolicyChange :: "NetQuotaPolicy list \<Rightarrow> 'a policy_base_scheme \<Rightarrow> 'a policy_base_scheme" where
  "NotifyNetQuotaPolicyChange quotaPolicies s =
     (if quotaPolicies = [] then s else emit (map (\<lambda>cb. NetQuotaPolicyChange cb quotaPolicies) (callbacks s)) s)"

definition NotifyNetMeteredIfacesChange :: "string list \<Rightarrow> 'a policy_base_scheme \<Rightarrow> 'a policy_base_scheme" where
  "NotifyNetMeteredIfacesChange ifaces s = emit (map (\<lambda>cb. NetMeteredIfacesChange cb ifaces) (callbacks s)) s"

lemma callbacks_distinct:
  assumes "distinct (callbacks s)" "length (callbacks s) \<le> LIMIT_CALLBACK_NUM"
  shows "distinct (callbacks (snd (RegisterNetPolicyCallback cb s)))"
    "length (callbacks (snd (RegisterNetPolicyCallback cb s))) \<le> LIMIT_CALLBACK_NUM"
    "distinct (callbacks (snd (UnregisterNetPolicyCallback cb s)))"
    "length (callbacks (snd (UnregisterNetPolicyCallback cb s))) \<le> LIMIT_CALLBACK_NUM"
  using assms le_trans [OF length_filter_le]
  by (auto simp: RegisterNetPolicyCallback_def UnregisterNetPolicyCallback_def split: option.splits)

lemma unregistered_not_called:
  "cb \<notin> set (callbacks (snd (UnregisterNetPolicyCallback (Some cb) s)))"
  by (simp add: UnregisterNetPolicyCallback_def)

end
