(* ===== verification/Po_File.thy ===== *)
theory Po_File
  imports Po_Base
begin

text \<open>
  \<^verbatim>\<open>NetPolicyFile\<close> (\<^verbatim>\<open>net_policy_file.cpp\<close>): the operations on the in-memory policy object that is written to the policy
  file after every change. \<^verbatim>\<open>stored\<close> reads the object as a map from user ids to policies; the lemmas say how each operation changes
  this map, the background status, the quota policies and the trust lists of the chains.
\<close>

datatype NetUidPolicyOpType = OP_DO_NOTHING | OP_ADD | OP_DELETE | OP_UPDATE

definition HOS_VERSION :: string where "HOS_VERSION = ''1.0''"
definition BACKGROUND_POLICY_ALLOW :: string where "BACKGROUND_POLICY_ALLOW = ''allow''"
definition BACKGROUND_POLICY_REJECT :: string where "BACKGROUND_POLICY_REJECT = ''reject''"
definition NET_POLICY_NONE :: u32 where "NET_POLICY_NONE = 0"

text \<open>\<^verbatim>\<open>Obj2Json\<close> fills in the defaults of \<^verbatim>\<open>AddBackgroundPolicy\<close> and of the version before it prints the object.\<close>

definition file_defaults :: "NetPolicy \<Rightarrow> NetPolicy" where
  "file_defaults np = np \<lparr> hosVersion := (if hosVersion np = [] then HOS_VERSION else hosVersion np),
     backgroundPolicyStatus := (if backgroundPolicyStatus np = [] then BACKGROUND_POLICY_ALLOW else backgroundPolicyStatus np) \<rparr>"

definition WriteFile :: "'a policy_base_scheme \<Rightarrow> bool \<times> 'a policy_base_scheme" where
  "WriteFile s = (let np = file_defaults (netPolicy s) in
     (True, s \<lparr> netPolicy := np, file_writes := file_writes s @ [np] \<rparr>))"

subsection \<open>Policies of user ids\<close>

definition ArbitrationWritePolicyToFile :: "u32 \<Rightarrow> u32 \<Rightarrow> NetPolicy \<Rightarrow> NetUidPolicyOpType" where
  "ArbitrationWritePolicyToFile uid policy np =
     (let haveUidAndPolicy = (\<exists>e\<in>set (uidPolicies np). uid = StrToUint (up_uid e) 0);
          oldPolicy = (if haveUidAndPolicy then uid else NET_POLICY_NONE)
      in if haveUidAndPolicy then
           if oldPolicy \<noteq> policy \<and> policy = NET_POLICY_NONE then OP_DELETE
           else if oldPolicy \<noteq> policy \<and> policy \<noteq> NET_POLICY_NONE then OP_UPDATE
           else OP_DO_NOTHING
         else if policy = NET_POLICY_NONE then OP_DO_NOTHING
         else OP_ADD)"

fun update_uid :: "string \<Rightarrow> string \<Rightarrow> UidPolicy list \<Rightarrow> UidPolicy list" where
  "update_uid u p [] = []"
| "update_uid u p (e # es) = (if up_uid e = u then e \<lparr> up_policy := p \<rparr> # es else e # update_uid u p es)"

fun erase_uid :: "string \<Rightarrow> UidPolicy list \<Rightarrow> UidPolicy list" where
  "erase_uid u [] = []"
| "erase_uid u (e # es) = (if up_uid e = u then es else e # erase_uid u es)"

definition WritePolicyByUid_op :: "NetUidPolicyOpType \<Rightarrow> u32 \<Rightarrow> u32 \<Rightarrow> 'a policy_base_scheme \<Rightarrow> 'a policy_base_scheme" where
  "WritePolicyByUid_op op uid policy s =
     (let np = netPolicy s;
          es = (case op of
              OP_UPDATE \<Rightarrow> update_uid (to_string_u32 uid) (to_string_u32 policy) (uidPolicies np)
            | OP_DELETE \<Rightarrow> erase_uid (to_string_u32 uid) (uidPolicies np)
            | OP_ADD \<Rightarrow> uidPolicies np @ [\<lparr> up_uid = to_string_u32 uid, up_policy = to_string_u32 policy \<rparr>]
            | OP_DO_NOTHING \<Rightarrow> uidPolicies np)
      in snd (WriteFile (s \<lparr> netPolicy := np \<lparr> uidPolicies := es \<rparr> \<rparr>)))"

definition WritePolicyByUid :: "u32 \<Rightarrow> u32 \<Rightarrow> 'a policy_base_scheme \<Rightarrow> 'a policy_base_scheme" where
  "WritePolicyByUid uid policy s =
     WritePolicyByUid_op (ArbitrationWritePolicyToFile uid policy (netPolicy s)) uid policy s"

definition RemoveInexistentUid :: "u32 \<Rightarrow> 'a policy_base_scheme \<Rightarrow> 'a policy_base_scheme" where
  "RemoveInexistentUid uid s = WritePolicyByUid_op OP_DELETE uid 0 s"

definition WriteBackgroundPolicy :: "bool \<Rightarrow> 'a policy_base_scheme \<Rightarrow> 'a policy_base_scheme" where
  "WriteBackgroundPolicy allow s = snd (WriteFile (s \<lparr> netPolicy := (netPolicy s)
     \<lparr> backgroundPolicyStatus := if allow then BACKGROUND_POLICY_ALLOW else BACKGROUND_POLICY_REJECT \<rparr> \<rparr>))"

definition ReadBackgroundPolicy :: "'a policy_base_scheme \<Rightarrow> bool" where
  "ReadBackgroundPolicy s \<longleftrightarrow> backgroundPolicyStatus (netPolicy s) = BACKGROUND_POLICY_ALLOW"

subsection \<open>Trust lists of the chains\<close>

definition chain_lists :: "u32 \<Rightarrow> NetPolicy \<Rightarrow> NetFirewallRuleList" where
  "chain_lists chain np = (case map_of (netFirewallRules np) chain of
     None \<Rightarrow> \<lparr> file_deniedList = {}, file_allowedList = {} \<rparr> | Some l \<Rightarrow> l)"

definition ReadFirewallRules ::
  "u32 \<Rightarrow> u32 set \<Rightarrow> u32 set \<Rightarrow> 'a policy_base_scheme \<Rightarrow> (u32 set \<times> u32 set) \<times> 'a policy_base_scheme" where
  "ReadFirewallRules chainType allowed denied s =
     (let np = netPolicy s; l = chain_lists chainType np in
      ((allowed \<union> file_allowedList l, denied \<union> file_deniedList l),
       s \<lparr> netPolicy := np \<lparr> netFirewallRules := map_put chainType l (netFirewallRules np) \<rparr> \<rparr>))"

definition WriteFirewallRules :: "u32 \<Rightarrow> u32 set \<Rightarrow> u32 set \<Rightarrow> 'a policy_base_scheme \<Rightarrow> 'a policy_base_scheme" where
  "WriteFirewallRules chainType allowed denied s = snd (WriteFile (s \<lparr> netPolicy := (netPolicy s)
     \<lparr> netFirewallRules := map_put chainType \<lparr> file_deniedList = denied, file_allowedList = allowed \<rparr>
         (netFirewallRules (netPolicy s)) \<rparr> \<rparr>))"

definition file_ResetPolicies :: "'a policy_base_scheme \<Rightarrow> 'a policy_base_scheme" where
  "file_ResetPolicies s = snd (WriteFile (s \<lparr> netPolicy := (netPolicy s)
     \<lparr> uidPolicies := [], backgroundPolicyStatus := BACKGROUND_POLICY_ALLOW, netQuotaPolicies := [], netFirewallRules := [] \<rparr> \<rparr>))"

subsection \<open>Quota policies\<close>

definition to_string_bool :: "bool \<Rightarrow> string" where
  "to_string_bool b = (if b then ''1'' else ''0'')"

definition same_quota :: "NetQuotaPolicy \<Rightarrow> NetPolicyQuota \<Rightarrow> bool" where
  "same_quota q e \<longleftrightarrow> simId (networkmatchrule q) = q_simId e \<and> q_netType e = to_string_int (netType (networkmatchrule q))"

definition quota_entry :: "NetQuotaPolicy \<Rightarrow> NetPolicyQuota" where
  "quota_entry q =
     \<lparr> q_netType = to_string_int (netType (networkmatchrule q)), q_simId = simId (networkmatchrule q),
       q_periodStartTime = to_string_int (periodStartTime (quotapolicy q)), q_periodDuration = periodDuration (quotapolicy q),
       q_warningBytes = to_string_int (warningBytes (quotapolicy q)), q_limitBytes = to_string_int (limitBytes (quotapolicy q)),
       q_lastLimitSnooze = to_string_int (lastLimitRemind (quotapolicy q)), q_metered = to_string_bool (metered (quotapolicy q)),
       q_ident = ident (networkmatchrule q) \<rparr>"

fun UpdateQuotaPolicyExist :: "NetQuotaPolicy \<Rightarrow> NetPolicyQuota list \<Rightarrow> NetPolicyQuota list option" where
  "UpdateQuotaPolicyExist q [] = None"
| "UpdateQuotaPolicyExist q (e # es) =
     (if same_quota q e then Some (quota_entry q # es) else map_option ((#) e) (UpdateQuotaPolicyExist q es))"

fun write_quotas :: "NetQuotaPolicy list \<Rightarrow> NetPolicyQuota list \<Rightarrow> NetPolicyQuota list" where
  "write_quotas [] es = es"
| "write_quotas (q # qs) es =
     write_quotas qs (case UpdateQuotaPolicyExist q es of Some es' \<Rightarrow> es' | None \<Rightarrow> es @ [quota_entry q])"

definition file_WriteQuotaPolicies :: "NetQuotaPolicy list \<Rightarrow> 'a policy_base_scheme \<Rightarrow> bool \<times> 'a policy_base_scheme" where
  "file_WriteQuotaPolicies qs s =
     WriteFile (s \<lparr> netPolicy := (netPolicy s) \<lparr> netQuotaPolicies := write_quotas qs [] \<rparr> \<rparr>)"

subsection \<open>The stored policies\<close>

definition stored :: "NetPolicy \<Rightarrow> u32 \<Rightarrow> string option" where
  "stored np uid = map_option up_policy (find (\<lambda>e. up_uid e = to_string_u32 uid) (uidPolicies np))"

definition file_ok :: "NetPolicy \<Rightarrow> bool" where
  "file_ok np \<longleftrightarrow> distinct (map up_uid (uidPolicies np)) \<and> (\<forall>e\<in>set (uidPolicies np). \<exists>u. up_uid e = to_string_u32 u)"

lemma find_update_uid: "find (\<lambda>e. up_uid e = v) (update_uid u p es) =
    (if v = u then map_option (\<lambda>e. e \<lparr> up_policy := p \<rparr>) (find (\<lambda>e. up_uid e = u) es) else find (\<lambda>e. up_uid e = v) es)"
  by (induction es) auto

lemma uids_update_uid [simp]: "map up_uid (update_uid u p es) = map up_uid es"
  by (induction es) auto

lemma uid_set_update_uid [simp]: "up_uid ` set (update_uid u p es) = up_uid ` set es"
  by (metis image_set uids_update_uid)

lemma uids_erase_uid: "distinct (map up_uid es) \<Longrightarrow> up_uid ` set (erase_uid u es) = up_uid ` set es - {u}"
proof (induction es)
  case (Cons e es)
  then show ?case by (cases "up_uid e = u") auto
qed simp

lemma distinct_erase_uid: "distinct (map up_uid es) \<Longrightarrow> distinct (map up_uid (erase_uid u es))"
  by (induction es) (auto simp: uids_erase_uid simp flip: image_set)

lemma find_None_uid: "find (\<lambda>e. up_uid e = v) es = None \<longleftrightarrow> v \<notin> up_uid ` set es"
  by (auto simp: find_None_iff)

lemma find_erase_uid: "distinct (map up_uid es) \<Longrightarrow>
    find (\<lambda>e. up_uid e = v) (erase_uid u es) = (if v = u then None else find (\<lambda>e. up_uid e = v) es)"
  by (induction es) (auto simp: find_None_uid)

lemma file_ok_uids: "file_ok np \<longleftrightarrow> distinct (map up_uid (uidPolicies np)) \<and> up_uid ` set (uidPolicies np) \<subseteq> range to_string_u32"
  by (auto simp: file_ok_def image_iff)

lemma stored_None_iff: "stored np u = None \<longleftrightarrow> to_string_u32 u \<notin> up_uid ` set (uidPolicies np)"
  by (simp add: stored_def find_None_uid)

lemma have_uid_iff:
  assumes ok: "file_ok np"
  shows "(\<exists>e\<in>set (uidPolicies np). uid = StrToUint (up_uid e) 0) \<longleftrightarrow> stored np uid \<noteq> None"
proof
  assume "\<exists>e\<in>set (uidPolicies np). uid = StrToUint (up_uid e) 0"
  then obtain e where e: "e \<in> set (uidPolicies np)" "uid = StrToUint (up_uid e) 0" by blast
  with ok obtain u where "up_uid e = to_string_u32 u" unfolding file_ok_def by blast
  with e have "to_string_u32 uid \<in> up_uid ` set (uidPolicies np)" by (metis StrToUint_to_string imageI)
  then show "stored np uid \<noteq> None" by (simp add: stored_None_iff)
next
  assume "stored np uid \<noteq> None"
  then obtain e where "e \<in> set (uidPolicies np)" "to_string_u32 uid = up_uid e" by (auto simp: stored_None_iff)
  then show "\<exists>e\<in>set (uidPolicies np). uid = StrToUint (up_uid e) 0" by (metis StrToUint_to_string)
qed

lemma file_defaults_keeps [simp]:
  "uidPolicies (file_defaults np) = uidPolicies np" "netFirewallRules (file_defaults np) = netFirewallRules np"
  "netQuotaPolicies (file_defaults np) = netQuotaPolicies np" "stored (file_defaults np) = stored np"
  "file_ok (file_defaults np) = file_ok np"
  by (simp_all add: file_defaults_def stored_def fun_eq_iff file_ok_def)

lemma WriteFile_sel [simp]:
  "netPolicy (snd (WriteFile s)) = file_defaults (netPolicy s)" "calls (snd (WriteFile s)) = calls s"
  "events (snd (WriteFile s)) = events s" "callbacks (snd (WriteFile s)) = callbacks s"
  "policy_base.more (snd (WriteFile s)) = policy_base.more s" "fst (WriteFile s)"
  by (simp_all add: WriteFile_def Let_def)

lemma WritePolicyByUid_op_sel [simp]:
  "calls (WritePolicyByUid_op op uid p s) = calls s" "events (WritePolicyByUid_op op uid p s) = events s"
  "callbacks (WritePolicyByUid_op op uid p s) = callbacks s"
  "policy_base.more (WritePolicyByUid_op op uid p s) = policy_base.more s"
  "netFirewallRules (netPolicy (WritePolicyByUid_op op uid p s)) = netFirewallRules (netPolicy s)"
  by (simp_all add: WritePolicyByUid_op_def Let_def)

lemma stored_update: "stored (np \<lparr> uidPolicies := update_uid (to_string_u32 u) p es \<rparr>) v =
    (if v = u \<and> stored (np \<lparr> uidPolicies := es \<rparr>) u \<noteq> None then Some p else stored (np \<lparr> uidPolicies := es \<rparr>) v)"
  by (auto simp: stored_def find_update_uid)

lemma stored_erase: "distinct (map up_uid es) \<Longrightarrow> stored (np \<lparr> uidPolicies := erase_uid (to_string_u32 u) es \<rparr>) v =
    (if v = u then None else stored (np \<lparr> uidPolicies := es \<rparr>) v)"
  by (simp add: stored_def find_erase_uid)

lemma stored_add: "stored (np \<lparr> uidPolicies := es @ [\<lparr> up_uid = to_string_u32 u, up_policy = p \<rparr>] \<rparr>) v =
    (case stored (np \<lparr> uidPolicies := es \<rparr>) v of None \<Rightarrow> if v = u then Some p else None | Some q \<Rightarrow> Some q)"
  by (induction es) (auto simp: stored_def)

text \<open>The operation that is chosen stores exactly the new policy, unless the user id equals the policy.\<close>

lemma WritePolicyByUid_stored:
  assumes ok: "file_ok (netPolicy s)" and uid: "uid \<noteq> policy"
  shows "stored (netPolicy (WritePolicyByUid uid policy s)) =
    (stored (netPolicy s)) (uid := if policy = 0 then None else Some (to_string_u32 policy))"
proof (rule ext)
  fix v
  have d: "distinct (map up_uid (uidPolicies (netPolicy s)))" using ok by (simp add: file_ok_def)
  have same: "(netPolicy s) \<lparr> uidPolicies := uidPolicies (netPolicy s) \<rparr> = netPolicy s" by simp
  show "stored (netPolicy (WritePolicyByUid uid policy s)) v =
      ((stored (netPolicy s)) (uid := if policy = 0 then None else Some (to_string_u32 policy))) v"
    using uid stored_update [of uid "to_string_u32 policy" "uidPolicies (netPolicy s)" "netPolicy s" v]
      stored_erase [OF d, of uid "netPolicy s" v] stored_add [of "uidPolicies (netPolicy s)" uid "to_string_u32 policy" "netPolicy s" v]
    by (auto simp: WritePolicyByUid_def WritePolicyByUid_op_def ArbitrationWritePolicyToFile_def have_uid_iff [OF ok]
        Let_def NET_POLICY_NONE_def split: option.splits)
qed

lemma file_ok_write [wf_intros]:
  assumes "file_ok (netPolicy s)"
  shows "file_ok (netPolicy (WritePolicyByUid uid policy s))"
proof -
  have "file_ok (netPolicy (WritePolicyByUid_op op uid policy s))"
    if "op = OP_ADD \<Longrightarrow> stored (netPolicy s) uid = None" for op
    using assms that
    by (cases op) (auto simp: WritePolicyByUid_op_def Let_def file_ok_uids stored_None_iff distinct_erase_uid
        uids_erase_uid)
  moreover have "ArbitrationWritePolicyToFile uid policy (netPolicy s) = OP_ADD \<Longrightarrow> stored (netPolicy s) uid = None"
    unfolding ArbitrationWritePolicyToFile_def have_uid_iff [OF assms] by (simp add: Let_def split: if_splits)
  ultimately show ?thesis by (simp add: WritePolicyByUid_def)
qed

lemma file_ok_remove [wf_intros]: "file_ok (netPolicy s) \<Longrightarrow> file_ok (netPolicy (RemoveInexistentUid uid s))"
  by (auto simp: RemoveInexistentUid_def WritePolicyByUid_op_def file_ok_uids distinct_erase_uid uids_erase_uid Let_def)

lemma RemoveInexistentUid_stored: "file_ok (netPolicy s) \<Longrightarrow>
    stored (netPolicy (RemoveInexistentUid uid s)) = (stored (netPolicy s)) (uid := None)"
  using stored_erase [of "uidPolicies (netPolicy s)" uid "netPolicy s"]
  by (auto simp: RemoveInexistentUid_def WritePolicyByUid_op_def Let_def file_ok_def fun_eq_iff)

end
