(* ===== verification/Po_Rule.thy ===== *)
theory Po_Rule
  imports Po_File
begin

text \<open>
  \<^verbatim>\<open>NetPolicyRule\<close> (\<^verbatim>\<open>net_policy_rule.cpp\<close>): the network rule of every user id, computed from its policy and from the state of the
  device (idle mode, power save mode, background policy, foreground applications) by the table \<^verbatim>\<open>POLICY_TRANS_MAP\<close>. The record
  \<^verbatim>\<open>NetPolicyRule\<close> holds the fields of the class; operations return the state and, where the code has one, a result.

  \<^verbatim>\<open>decide\<close> is the table read as a decision, and \<^verbatim>\<open>trans_decides\<close> shows that the bit operations implement it. \<^verbatim>\<open>all_fresh\<close> says that
  every stored rule is the decision for the current state; \<^verbatim>\<open>bandwidth\<close> reads the lists of the native daemon off the calls made so
  far and \<^verbatim>\<open>rule_ok\<close> relates them to the stored control values.
\<close>

subsection \<open>State\<close>

record UidPolicyRule =
  ur_policy :: u32
  ur_rule :: u32
  ur_netsys :: u32

definition new_uid_rule :: "u32 \<Rightarrow> UidPolicyRule" where
  "new_uid_rule p = \<lparr> ur_policy = p, ur_rule = push_bit 7 1, ur_netsys = 7 \<rparr>"

record NetPolicyRule = policy_base +
  uidPolicyRules :: "(u32 \<times> UidPolicyRule) list"
  backgroundAllow :: bool
  deviceIdleMode :: bool
  powerSaveMode :: bool
  deviceIdleAllowedList :: "u32 set"
  powerSaveAllowedList :: "u32 set"
  foregroundUidList :: "u32 set"

definition NET_POLICY_ALLOW_METERED_BACKGROUND :: u32 where "NET_POLICY_ALLOW_METERED_BACKGROUND = 1"
definition NET_POLICY_REJECT_METERED_BACKGROUND :: u32 where "NET_POLICY_REJECT_METERED_BACKGROUND = 2"
definition NET_RULE_NONE :: u32 where "NET_RULE_NONE = 0"
definition NET_RULE_ALLOW_METERED_FOREGROUND :: u32 where "NET_RULE_ALLOW_METERED_FOREGROUND = 1"
definition NET_RULE_ALLOW_METERED :: u32 where "NET_RULE_ALLOW_METERED = 2"
definition NET_RULE_REJECT_METERED :: u32 where "NET_RULE_REJECT_METERED = 4"
definition NET_RULE_ALLOW_ALL :: u32 where "NET_RULE_ALLOW_ALL = 32"
definition NET_RULE_REJECT_ALL :: u32 where "NET_RULE_REJECT_ALL = 64"
definition POLICY_TRANS_CTRL_NONE :: u32 where "POLICY_TRANS_CTRL_NONE = 0"
definition POLICY_TRANS_CTRL_REMOVE_ALL :: u32 where "POLICY_TRANS_CTRL_REMOVE_ALL = 1"
definition POLICY_TRANS_CTRL_ADD_DENIEDLIST :: u32 where "POLICY_TRANS_CTRL_ADD_DENIEDLIST = 2"
definition POLICY_TRANS_CTRL_ADD_ALLOWEDLIST :: u32 where "POLICY_TRANS_CTRL_ADD_ALLOWEDLIST = 4"
definition CHAIN_OHFW_ALLOWED_LIST_BOX :: u32 where "CHAIN_OHFW_ALLOWED_LIST_BOX = 19"
definition RULE_ALLOW :: u32 where "RULE_ALLOW = 1"
definition RULE_DENY :: u32 where "RULE_DENY = 2"
definition NET_BACKGROUND_POLICY_ENABLE :: u32 where "NET_BACKGROUND_POLICY_ENABLE = 1"
definition NET_BACKGROUND_POLICY_DISABLE :: u32 where "NET_BACKGROUND_POLICY_DISABLE = 2"
definition NET_BACKGROUND_POLICY_TRUSTLIST :: u32 where "NET_BACKGROUND_POLICY_TRUSTLIST = 3"

lemmas rule_consts = NET_POLICY_NONE_def NET_POLICY_ALLOW_METERED_BACKGROUND_def NET_POLICY_REJECT_METERED_BACKGROUND_def
  NET_RULE_NONE_def NET_RULE_ALLOW_METERED_FOREGROUND_def NET_RULE_ALLOW_METERED_def NET_RULE_REJECT_METERED_def
  NET_RULE_ALLOW_ALL_def NET_RULE_REJECT_ALL_def POLICY_TRANS_CTRL_NONE_def POLICY_TRANS_CTRL_REMOVE_ALL_def
  POLICY_TRANS_CTRL_ADD_DENIEDLIST_def POLICY_TRANS_CTRL_ADD_ALLOWEDLIST_def

subsection \<open>From the state to a condition\<close>

definition POLICY_TRANS_CONDITION_MASK :: u32 where "POLICY_TRANS_CONDITION_MASK = 0b11111111110000000000"
definition POLICY_TRANS_RULE_MASK :: u32 where "POLICY_TRANS_RULE_MASK = 0b00000000001111111000"
definition POLICY_TRANS_NET_CTRL_MASK :: u32 where "POLICY_TRANS_NET_CTRL_MASK = 0b00000000000000000111"

definition POLICY_TRANS_MAP :: "u32 list" where
  "POLICY_TRANS_MAP =
    [0b00011000000100000000, 0b10000000000000100010, 0b00010000001000000000, 0b00000010100000010100,
     0b00000011000000001100, 0b00000010010000001100, 0b01000000001000000000, 0b00000100100000010100,
     0b00000100010000100010, 0b00000000010000000001, 0b00000001000000100010, 0b00000000000000000001]"

definition IsValidNetPolicy :: "u32 \<Rightarrow> bool" where
  "IsValidNetPolicy policy \<longleftrightarrow> policy = NET_POLICY_NONE \<or> policy = NET_POLICY_ALLOW_METERED_BACKGROUND
     \<or> policy = NET_POLICY_REJECT_METERED_BACKGROUND"

definition IsIdleMode :: "'a NetPolicyRule_scheme \<Rightarrow> bool" where "IsIdleMode s = deviceIdleMode s"
definition InIdleAllowedList :: "u32 \<Rightarrow> 'a NetPolicyRule_scheme \<Rightarrow> bool" where
  "InIdleAllowedList uid s \<longleftrightarrow> uid \<in> deviceIdleAllowedList s"
definition IsLimitByAdmin :: "'a NetPolicyRule_scheme \<Rightarrow> bool" where "IsLimitByAdmin s = False"
definition IsForeground :: "u32 \<Rightarrow> 'a NetPolicyRule_scheme \<Rightarrow> bool" where
  "IsForeground uid s \<longleftrightarrow> uid \<in> foregroundUidList s"
definition IsPowerSave :: "'a NetPolicyRule_scheme \<Rightarrow> bool" where "IsPowerSave s = powerSaveMode s"
definition InPowerSaveAllowedList :: "u32 \<Rightarrow> 'a NetPolicyRule_scheme \<Rightarrow> bool" where
  "InPowerSaveAllowedList uid s \<longleftrightarrow> uid \<in> powerSaveAllowedList s"
definition IsLimitedBackground :: "'a NetPolicyRule_scheme \<Rightarrow> bool" where
  "IsLimitedBackground s \<longleftrightarrow> \<not> backgroundAllow s"

lemmas mode_defs = IsIdleMode_def InIdleAllowedList_def IsLimitByAdmin_def IsForeground_def IsPowerSave_def
  InPowerSaveAllowedList_def IsLimitedBackground_def

definition ChangePolicyToPolicyTransitionCondition :: "u32 \<Rightarrow> u32" where
  "ChangePolicyToPolicyTransitionCondition policy = (if policy = NET_POLICY_NONE then 1 else push_bit 1 policy)"

definition add_flag :: "bool \<Rightarrow> u32 \<Rightarrow> u32 \<Rightarrow> u32" where
  "add_flag b flag c = (if b then c OR flag else c)"

definition BuildTransCondition :: "u32 \<Rightarrow> u32 \<Rightarrow> 'a NetPolicyRule_scheme \<Rightarrow> u32" where
  "BuildTransCondition uid policy s =
     (let c = ChangePolicyToPolicyTransitionCondition policy;
          c = add_flag (IsIdleMode s) (push_bit 6 1) c;
          c = add_flag (InIdleAllowedList uid s) (push_bit 5 1) c;
          c = add_flag (IsLimitByAdmin s) (push_bit 9 1) c;
          c = add_flag (IsPowerSave s) (push_bit 8 1) c;
          c = add_flag (InPowerSaveAllowedList uid s) (push_bit 7 1) c;
          c = add_flag (IsLimitedBackground s) (push_bit 4 1) c
      in add_flag (IsForeground uid s) (push_bit 3 1) c)"

definition MoveToConditionBit :: "u32 \<Rightarrow> u32" where "MoveToConditionBit value = drop_bit 10 value"
definition MoveToRuleBit :: "u32 \<Rightarrow> u32" where "MoveToRuleBit value = drop_bit 3 value"

fun match_trans :: "u32 \<Rightarrow> u32 list \<Rightarrow> u32" where
  "match_trans policyCondition [] = last POLICY_TRANS_MAP"
| "match_trans policyCondition (i # is) =
     (let condition = MoveToConditionBit (i AND POLICY_TRANS_CONDITION_MASK) in
      if policyCondition AND condition = condition then i else match_trans policyCondition is)"

definition GetMatchTransCondition :: "u32 \<Rightarrow> u32" where
  "GetMatchTransCondition policyCondition = match_trans policyCondition POLICY_TRANS_MAP"

subsection \<open>From a condition to the rule and the daemon\<close>

definition PowerSaveUpdataAllowedList :: "u32 \<Rightarrow> u32 \<Rightarrow> 'a policy_base_scheme \<Rightarrow> 'a policy_base_scheme" where
  "PowerSaveUpdataAllowedList uid rule s = emit [FirewallSetUidRule CHAIN_OHFW_ALLOWED_LIST_BOX [uid] rule] s"

definition ProcessCtrlNone :: "u32 \<Rightarrow> 'a NetPolicyRule_scheme \<Rightarrow> 'a NetPolicyRule_scheme" where
  "ProcessCtrlNone uid s = (if IsPowerSave s then PowerSaveUpdataAllowedList uid RULE_DENY s else s)"

definition ProcessCtrlAddAllowedList :: "u32 \<Rightarrow> 'a NetPolicyRule_scheme \<Rightarrow> 'a NetPolicyRule_scheme" where
  "ProcessCtrlAddAllowedList uid s =
     (let s = emit [BandwidthRemoveDeniedList uid, BandwidthAddAllowedList uid] s in
      if IsPowerSave s then PowerSaveUpdataAllowedList uid RULE_ALLOW s else s)"

definition NetsysCtrl :: "u32 \<Rightarrow> u32 \<Rightarrow> 'a NetPolicyRule_scheme \<Rightarrow> 'a NetPolicyRule_scheme" where
  "NetsysCtrl uid netsysCtrl s =
     (if netsysCtrl = POLICY_TRANS_CTRL_NONE then ProcessCtrlNone uid s
      else if netsysCtrl = POLICY_TRANS_CTRL_REMOVE_ALL then
        emit [BandwidthRemoveAllowedList uid, BandwidthRemoveDeniedList uid] s
      else if netsysCtrl = POLICY_TRANS_CTRL_ADD_DENIEDLIST then
        emit [BandwidthAddDeniedList uid, BandwidthRemoveAllowedList uid] s
      else if netsysCtrl = POLICY_TRANS_CTRL_ADD_ALLOWEDLIST then ProcessCtrlAddAllowedList uid s
      else s)"

definition TransConditionToRuleAndNetsys ::
  "u32 \<Rightarrow> UidPolicyRule \<Rightarrow> 'a NetPolicyRule_scheme \<Rightarrow> UidPolicyRule \<times> 'a NetPolicyRule_scheme" where
  "TransConditionToRuleAndNetsys uid pr s =
     (let policyCondition = BuildTransCondition uid (ur_policy pr) s;
          conditionValue = GetMatchTransCondition policyCondition;
          rule = MoveToRuleBit (conditionValue AND POLICY_TRANS_RULE_MASK);
          netsys = conditionValue AND POLICY_TRANS_NET_CTRL_MASK;
          (pr, s) = (if ur_netsys pr \<noteq> netsys then (pr \<lparr> ur_netsys := netsys \<rparr>, NetsysCtrl uid netsys s) else (pr, s));
          s = WritePolicyByUid uid (ur_policy pr) s
      in if ur_rule pr = rule then (pr, s) else (pr \<lparr> ur_rule := rule \<rparr>, NotifyNetUidRuleChange uid rule s))"

text \<open>The loop over \<^verbatim>\<open>uidPolicyRules_\<close> in key order, updating the entries in place.\<close>

fun trans_entries ::
  "(u32 \<times> UidPolicyRule) list \<Rightarrow> 'a NetPolicyRule_scheme \<Rightarrow> (u32 \<times> UidPolicyRule) list \<times> 'a NetPolicyRule_scheme" where
  "trans_entries [] s = ([], s)"
| "trans_entries ((uid, pr) # es) s =
     (let (pr', s') = TransConditionToRuleAndNetsys uid pr s; (es', s'') = trans_entries es s' in ((uid, pr') # es', s''))"

definition TransPolicyToRule_all :: "'a NetPolicyRule_scheme \<Rightarrow> 'a NetPolicyRule_scheme" where
  "TransPolicyToRule_all s = (let (es, s') = trans_entries (uidPolicyRules s) s in s' \<lparr> uidPolicyRules := es \<rparr>)"

definition retrans :: "u32 \<Rightarrow> UidPolicyRule \<Rightarrow> 'a NetPolicyRule_scheme \<Rightarrow> 'a NetPolicyRule_scheme" where
  "retrans uid pr s = (let (pr', s') = TransConditionToRuleAndNetsys uid pr s in
     s' \<lparr> uidPolicyRules := map_put uid pr' (uidPolicyRules s') \<rparr>)"

definition TransPolicyToRule_uid :: "u32 \<Rightarrow> 'a NetPolicyRule_scheme \<Rightarrow> 'a NetPolicyRule_scheme" where
  "TransPolicyToRule_uid uid s = (case map_of (uidPolicyRules s) uid of None \<Rightarrow> s | Some pr \<Rightarrow> retrans uid pr s)"

definition TransPolicyToRule :: "u32 \<Rightarrow> u32 \<Rightarrow> 'a NetPolicyRule_scheme \<Rightarrow> int \<times> 'a NetPolicyRule_scheme" where
  "TransPolicyToRule uid policy s =
     (if \<not> IsValidNetPolicy policy then (POLICY_ERR_INVALID_POLICY, s)
      else let (pr, s) = (case map_of (uidPolicyRules s) uid of
               None \<Rightarrow> (new_uid_rule policy,
                 NotifyNetUidPolicyChange uid policy (s \<lparr> uidPolicyRules := map_put uid (new_uid_rule policy) (uidPolicyRules s) \<rparr>))
             | Some pr \<Rightarrow> if ur_policy pr \<noteq> policy
                 then (pr \<lparr> ur_policy := policy \<rparr>, NotifyNetUidPolicyChange uid policy
                   (s \<lparr> uidPolicyRules := map_put uid (pr \<lparr> ur_policy := policy \<rparr>) (uidPolicyRules s) \<rparr>))
                 else (pr, s))
           in (NETMANAGER_SUCCESS, retrans uid pr s))"

subsection \<open>Queries\<close>

definition GetPolicyByUid :: "u32 \<Rightarrow> 'a NetPolicyRule_scheme \<Rightarrow> u32" where
  "GetPolicyByUid uid s = (case map_of (uidPolicyRules s) uid of None \<Rightarrow> NET_POLICY_NONE | Some pr \<Rightarrow> ur_policy pr)"

definition GetUidsByPolicy :: "u32 \<Rightarrow> 'a NetPolicyRule_scheme \<Rightarrow> int \<times> u32 list" where
  "GetUidsByPolicy policy s =
     (if \<not> IsValidNetPolicy policy then (POLICY_ERR_INVALID_POLICY, [])
      else (NETMANAGER_SUCCESS, map fst (filter (\<lambda>(_, pr). ur_policy pr = policy) (uidPolicyRules s))))"

definition IsUidNetAllowed :: "u32 \<Rightarrow> bool \<Rightarrow> 'a NetPolicyRule_scheme \<Rightarrow> bool" where
  "IsUidNetAllowed uid is_metered s =
     (let rule = (case map_of (uidPolicyRules s) uid of None \<Rightarrow> NET_RULE_NONE | Some pr \<Rightarrow> ur_rule pr) in
      if rule = NET_RULE_REJECT_ALL then False
      else if \<not> is_metered then True
      else if rule = NET_RULE_REJECT_METERED then False
      else if rule = NET_RULE_ALLOW_METERED then True
      else if rule = NET_RULE_ALLOW_METERED_FOREGROUND then True
      else if \<not> backgroundAllow s then False
      else True)"

definition GetBackgroundPolicyByUid :: "u32 \<Rightarrow> 'a NetPolicyRule_scheme \<Rightarrow> u32" where
  "GetBackgroundPolicyByUid uid s =
     (let policy = GetPolicyByUid uid s in
      if policy AND NET_POLICY_REJECT_METERED_BACKGROUND \<noteq> 0 then NET_BACKGROUND_POLICY_DISABLE
      else if backgroundAllow s then NET_BACKGROUND_POLICY_ENABLE
      else if policy AND NET_POLICY_ALLOW_METERED_BACKGROUND \<noteq> 0 then NET_BACKGROUND_POLICY_TRUSTLIST
      else NET_BACKGROUND_POLICY_DISABLE)"

definition GetBackgroundPolicy :: "'a NetPolicyRule_scheme \<Rightarrow> bool" where
  "GetBackgroundPolicy s = backgroundAllow s"

subsection \<open>Operations\<close>

definition SetBackgroundPolicy :: "bool \<Rightarrow> 'a NetPolicyRule_scheme \<Rightarrow> int \<times> 'a NetPolicyRule_scheme" where
  "SetBackgroundPolicy allow s =
     (if backgroundAllow s \<noteq> allow then
        (let s = NotifyNetBackgroundPolicyChange allow s;
             s = TransPolicyToRule_all (s \<lparr> backgroundAllow := allow \<rparr>);
             s = WriteBackgroundPolicy allow s
         in (NETMANAGER_SUCCESS, emit [BandwidthEnableDataSaver (\<not> allow)] s))
      else (NETMANAGER_ERR_PARAMETER_ERROR, s))"

fun reset_uids :: "u32 list \<Rightarrow> 'a NetPolicyRule_scheme \<Rightarrow> 'a NetPolicyRule_scheme" where
  "reset_uids [] s = s"
| "reset_uids (uid # uids) s = reset_uids uids (snd (TransPolicyToRule uid NET_POLICY_NONE s))"

definition rule_ResetPolicies :: "'a NetPolicyRule_scheme \<Rightarrow> int \<times> 'a NetPolicyRule_scheme" where
  "rule_ResetPolicies s = SetBackgroundPolicy True (reset_uids (map fst (uidPolicyRules s)) s)"

definition rule_DeleteUid :: "u32 \<Rightarrow> 'a NetPolicyRule_scheme \<Rightarrow> 'a NetPolicyRule_scheme" where
  "rule_DeleteUid uid s =
     (let s = s \<lparr> uidPolicyRules := map_erase uid (uidPolicyRules s) \<rparr>;
          s = RemoveInexistentUid uid s
      in emit [BandwidthRemoveDeniedList uid, BandwidthRemoveAllowedList uid] s)"

definition UpdateForegroundUidList :: "u32 \<Rightarrow> bool \<Rightarrow> 'a NetPolicyRule_scheme \<Rightarrow> 'a NetPolicyRule_scheme" where
  "UpdateForegroundUidList uid isForeground s = s \<lparr> foregroundUidList :=
     (if isForeground then insert uid (foregroundUidList s) else foregroundUidList s - {uid}) \<rparr>"

definition rule_HandleEvent :: "PolicyEvent \<Rightarrow> 'a NetPolicyRule_scheme \<Rightarrow> 'a NetPolicyRule_scheme" where
  "rule_HandleEvent e s =
     (if eventId e = MSG_DEVICE_IDLE_LIST_UPDATED then s \<lparr> deviceIdleAllowedList := ev_deviceIdleList e \<rparr>
      else if eventId e = MSG_DEVICE_IDLE_MODE_CHANGED then
        TransPolicyToRule_all (s \<lparr> deviceIdleMode := ev_deviceIdleMode e \<rparr>)
      else if eventId e = MSG_POWER_SAVE_MODE_CHANGED then
        TransPolicyToRule_all (s \<lparr> powerSaveMode := ev_powerSaveMode e \<rparr>)
      else if eventId e = MSG_POWER_SAVE_LIST_UPDATED then s \<lparr> powerSaveAllowedList := ev_powerSaveList e \<rparr>
      else if eventId e = MSG_UID_REMOVED then rule_DeleteUid (ev_deletedUid e) s
      else if eventId e = MSG_UID_STATE_FOREGROUND then
        TransPolicyToRule_uid (ev_uid e) (UpdateForegroundUidList (ev_uid e) True s)
      else if eventId e = MSG_UID_STATE_BACKGROUND then
        TransPolicyToRule_uid (ev_uid e) (UpdateForegroundUidList (ev_uid e) False s)
      else s)"

fun init_uids :: "UidPolicy list \<Rightarrow> 'a NetPolicyRule_scheme \<Rightarrow> 'a NetPolicyRule_scheme" where
  "init_uids [] s = s"
| "init_uids (i # is) s =
     init_uids is (snd (TransPolicyToRule (StrToUint (up_uid i) 0) (StrToUint (up_policy i) 0) s))"

text \<open>The loop of \<^verbatim>\<open>Init\<close> runs over a reference to the stored list, which \<^verbatim>\<open>WritePolicyByUid\<close> rewrites in place with the same
  uids and does not shorten for the policies that are stored; the model runs over the list as it was read.\<close>

definition rule_Init :: "'a NetPolicyRule_scheme \<Rightarrow> 'a NetPolicyRule_scheme" where
  "rule_Init s = init_uids (uidPolicies (netPolicy s)) (s \<lparr> backgroundAllow := ReadBackgroundPolicy s \<rparr>)"

subsection \<open>The table as a decision\<close>

definition flags_cond :: "bool \<Rightarrow> bool \<Rightarrow> bool \<Rightarrow> bool \<Rightarrow> bool \<Rightarrow> bool \<Rightarrow> u32 \<Rightarrow> u32" where
  "flags_cond idle idleL save saveL bg fg policy =
     add_flag fg (push_bit 3 1) (add_flag (\<not> bg) (push_bit 4 1) (add_flag saveL (push_bit 7 1) (add_flag save (push_bit 8 1)
       (add_flag False (push_bit 9 1) (add_flag idleL (push_bit 5 1) (add_flag idle (push_bit 6 1)
         (ChangePolicyToPolicyTransitionCondition policy)))))))"

definition flags_decide :: "bool \<Rightarrow> bool \<Rightarrow> bool \<Rightarrow> bool \<Rightarrow> bool \<Rightarrow> u32 \<Rightarrow> u32 \<times> u32" where
  "flags_decide idle idleL save bg fg policy =
     (if idle then (if idleL then NET_RULE_ALLOW_ALL else NET_RULE_REJECT_ALL, POLICY_TRANS_CTRL_NONE)
      else if fg then
        (if policy = NET_POLICY_ALLOW_METERED_BACKGROUND then NET_RULE_ALLOW_METERED else NET_RULE_ALLOW_METERED_FOREGROUND,
         POLICY_TRANS_CTRL_ADD_ALLOWEDLIST)
      else if save then (NET_RULE_REJECT_ALL, POLICY_TRANS_CTRL_NONE)
      else if policy = NET_POLICY_REJECT_METERED_BACKGROUND then (NET_RULE_REJECT_METERED, POLICY_TRANS_CTRL_ADD_DENIEDLIST)
      else if bg then (NET_RULE_NONE, POLICY_TRANS_CTRL_REMOVE_ALL)
      else if policy = NET_POLICY_ALLOW_METERED_BACKGROUND then (NET_RULE_ALLOW_METERED, POLICY_TRANS_CTRL_ADD_ALLOWEDLIST)
      else (NET_RULE_REJECT_METERED, POLICY_TRANS_CTRL_ADD_DENIEDLIST))"

definition decide :: "u32 \<Rightarrow> u32 \<Rightarrow> 'a NetPolicyRule_scheme \<Rightarrow> u32 \<times> u32" where
  "decide uid policy s = flags_decide (deviceIdleMode s) (uid \<in> deviceIdleAllowedList s) (powerSaveMode s)
     (backgroundAllow s) (uid \<in> foregroundUidList s) policy"

definition rule_part :: "u32 \<Rightarrow> u32 \<times> u32" where
  "rule_part c = (MoveToRuleBit (GetMatchTransCondition c AND POLICY_TRANS_RULE_MASK),
     GetMatchTransCondition c AND POLICY_TRANS_NET_CTRL_MASK)"

lemma GetMatchTransCondition_eq: "GetMatchTransCondition c = (if c AND 96 = 96 then 98560 else
      (if c AND 512 = 512 then 524322 else
      (if c AND 64 = 64 then 66048 else
      (if c AND 10 = 10 then 10260 else
      (if c AND 12 = 12 then 12300 else
      (if c AND 9 = 9 then 9228 else
      (if c AND 256 = 256 then 262656 else
      (if c AND 18 = 18 then 18452 else
      (if c AND 17 = 17 then 17442 else
      (if c AND 1 = 1 then 1025 else
      (if c AND 4 = 4 then 4130 else 1)))))))))))"
  by (simp add: GetMatchTransCondition_def POLICY_TRANS_MAP_def POLICY_TRANS_CONDITION_MASK_def MoveToConditionBit_def)

lemma table_decides:
  assumes "policy = 0 \<or> policy = 1 \<or> policy = 2"
  shows "rule_part (flags_cond idle idleL save saveL bg fg policy) = flags_decide idle idleL save bg fg policy"
  using assms
  by (elim disjE; cases idle; cases idleL; cases save; cases saveL; cases bg; cases fg)
    (simp_all add: rule_part_def GetMatchTransCondition_eq flags_cond_def flags_decide_def add_flag_def
      ChangePolicyToPolicyTransitionCondition_def MoveToRuleBit_def POLICY_TRANS_RULE_MASK_def POLICY_TRANS_NET_CTRL_MASK_def rule_consts)

lemma trans_decides:
  assumes "IsValidNetPolicy policy"
  shows "rule_part (BuildTransCondition uid policy s) = decide uid policy s"
proof -
  have "rule_part (flags_cond i il p pl b f policy) = flags_decide i il p b f policy" for i il p pl b f
    using assms by (intro table_decides) (simp add: IsValidNetPolicy_def rule_consts)
  moreover have "BuildTransCondition uid policy s = flags_cond (deviceIdleMode s) (uid \<in> deviceIdleAllowedList s)
      (powerSaveMode s) (uid \<in> powerSaveAllowedList s) (backgroundAllow s) (uid \<in> foregroundUidList s) policy"
    by (simp add: BuildTransCondition_def flags_cond_def mode_defs Let_def)
  ultimately show ?thesis by (simp add: decide_def)
qed

subsection \<open>What one computation changes\<close>

text \<open>The lists of the daemon for one user id, as the calls made so far leave them: is it denied, is it allowed.\<close>

fun bw_call :: "u32 \<Rightarrow> policy_call \<Rightarrow> bool \<times> bool \<Rightarrow> bool \<times> bool" where
  "bw_call uid (BandwidthAddDeniedList u) (d, a) = (d \<or> u = uid, a)"
| "bw_call uid (BandwidthRemoveDeniedList u) (d, a) = (d \<and> u \<noteq> uid, a)"
| "bw_call uid (BandwidthAddAllowedList u) (d, a) = (d, a \<or> u = uid)"
| "bw_call uid (BandwidthRemoveAllowedList u) (d, a) = (d, a \<and> u \<noteq> uid)"
| "bw_call uid _ da = da"

definition bandwidth :: "policy_call list \<Rightarrow> u32 \<Rightarrow> bool \<times> bool" where
  "bandwidth cs uid = fold (bw_call uid) cs (False, False)"

definition placed :: "u32 \<Rightarrow> bool \<times> bool \<Rightarrow> bool" where
  "placed n da \<longleftrightarrow> (n = POLICY_TRANS_CTRL_REMOVE_ALL \<longrightarrow> da = (False, False))
     \<and> (n = POLICY_TRANS_CTRL_ADD_DENIEDLIST \<longrightarrow> da = (True, False))
     \<and> (n = POLICY_TRANS_CTRL_ADD_ALLOWEDLIST \<longrightarrow> da = (False, True)) \<and> da \<noteq> (True, True)"

lemma bandwidth_append: "bandwidth (cs @ ds) uid = fold (bw_call uid) ds (bandwidth cs uid)"
  by (simp add: bandwidth_def)

lemma fold_bw_other: "\<forall>c\<in>set ds. \<forall>da. bw_call uid c da = da \<Longrightarrow> fold (bw_call uid) ds da = da"
  by (induction ds arbitrary: da) auto

lemma bandwidth_emit_notify [simp]:
  "bandwidth (calls (NotifyNetUidRuleChange u r s)) uid = bandwidth (calls s) uid"
  "bandwidth (calls (NotifyNetUidPolicyChange u p s)) uid = bandwidth (calls s) uid"
  "bandwidth (calls (NotifyNetBackgroundPolicyChange b s)) uid = bandwidth (calls s) uid"
  by (simp_all add: NotifyNetUidRuleChange_def NotifyNetUidPolicyChange_def NotifyNetBackgroundPolicyChange_def emit_def
      bandwidth_append fold_bw_other)

lemma rule_fields_kept [simp]:
  "uidPolicyRules (emit cs r) = uidPolicyRules r" "backgroundAllow (emit cs r) = backgroundAllow r"
  "deviceIdleMode (emit cs r) = deviceIdleMode r" "powerSaveMode (emit cs r) = powerSaveMode r"
  "deviceIdleAllowedList (emit cs r) = deviceIdleAllowedList r" "powerSaveAllowedList (emit cs r) = powerSaveAllowedList r"
  "foregroundUidList (emit cs r) = foregroundUidList r"
  "uidPolicyRules (WritePolicyByUid_op op u p r) = uidPolicyRules r" "backgroundAllow (WritePolicyByUid_op op u p r) = backgroundAllow r"
  "deviceIdleMode (WritePolicyByUid_op op u p r) = deviceIdleMode r" "powerSaveMode (WritePolicyByUid_op op u p r) = powerSaveMode r"
  "deviceIdleAllowedList (WritePolicyByUid_op op u p r) = deviceIdleAllowedList r"
  "powerSaveAllowedList (WritePolicyByUid_op op u p r) = powerSaveAllowedList r"
  "foregroundUidList (WritePolicyByUid_op op u p r) = foregroundUidList r"
  by (simp_all add: emit_def WritePolicyByUid_op_def WriteFile_def Let_def)

definition same_modes :: "'a NetPolicyRule_scheme \<Rightarrow> 'a NetPolicyRule_scheme \<Rightarrow> bool" where
  "same_modes s t \<longleftrightarrow> deviceIdleMode t = deviceIdleMode s \<and> deviceIdleAllowedList t = deviceIdleAllowedList s
     \<and> powerSaveMode t = powerSaveMode s \<and> powerSaveAllowedList t = powerSaveAllowedList s
     \<and> backgroundAllow t = backgroundAllow s \<and> foregroundUidList t = foregroundUidList s"

lemma same_modes_refl [simp]: "same_modes s s"
  by (simp add: same_modes_def)

lemma same_modes_trans: "same_modes s t \<Longrightarrow> same_modes t u \<Longrightarrow> same_modes s u"
  by (simp add: same_modes_def)

lemma decide_same: "same_modes s t \<Longrightarrow> decide uid p t = decide uid p s"
  by (simp add: same_modes_def decide_def)

lemmas ctrl_defs = NetsysCtrl_def ProcessCtrlNone_def ProcessCtrlAddAllowedList_def PowerSaveUpdataAllowedList_def Let_def

lemma NetsysCtrl_kept [simp]: "uidPolicyRules (NetsysCtrl u n s) = uidPolicyRules s" "same_modes s (NetsysCtrl u n s)"
  "netPolicy (NetsysCtrl u n s) = netPolicy s" "events (NetsysCtrl u n s) = events s"
  by (simp_all add: ctrl_defs same_modes_def emit_def)

lemma NetsysCtrl_bandwidth: "u \<noteq> uid \<Longrightarrow> bandwidth (calls (NetsysCtrl u n s)) uid = bandwidth (calls s) uid"
  by (cases "bandwidth (calls s) uid") (simp add: ctrl_defs emit_def bandwidth_append mode_defs)

lemma NetsysCtrl_placed: "bandwidth (calls s) u \<noteq> (True, True) \<Longrightarrow> placed n (bandwidth (calls (NetsysCtrl u n s)) u)"
  by (cases "bandwidth (calls s) u") (simp add: ctrl_defs emit_def bandwidth_append mode_defs placed_def rule_consts)

lemma trans_result:
  assumes "IsValidNetPolicy (ur_policy pr)"
  shows "fst (TransConditionToRuleAndNetsys uid pr s) =
    pr \<lparr> ur_rule := fst (decide uid (ur_policy pr) s), ur_netsys := snd (decide uid (ur_policy pr) s) \<rparr>"
  using trans_decides [OF assms, of uid s, symmetric]
  by (simp add: TransConditionToRuleAndNetsys_def rule_part_def Let_def)

lemma trans_kept:
  fixes uid pr s
  defines "t \<equiv> snd (TransConditionToRuleAndNetsys uid pr s)"
  shows "uidPolicyRules t = uidPolicyRules s" "same_modes s t" "events t = events s"
    "u \<noteq> uid \<Longrightarrow> bandwidth (calls t) u = bandwidth (calls s) u"
    "netPolicy t = netPolicy (WritePolicyByUid uid (ur_policy pr) s)"
  unfolding t_def TransConditionToRuleAndNetsys_def Let_def
  by (auto simp: WritePolicyByUid_def NotifyNetUidRuleChange_def emit_def same_modes_def NetsysCtrl_bandwidth
      bandwidth_append fold_bw_other WritePolicyByUid_op_def WriteFile_def Let_def
      NetsysCtrl_kept [unfolded same_modes_def] split: NetUidPolicyOpType.splits)

lemma trans_placed:
  assumes "IsValidNetPolicy (ur_policy pr)" "placed (ur_netsys pr) (bandwidth (calls s) uid)"
  shows "placed (snd (decide uid (ur_policy pr) s)) (bandwidth (calls (snd (TransConditionToRuleAndNetsys uid pr s))) uid)"
proof -
  define n where "n = snd (decide uid (ur_policy pr) s)"
  define s1 where "s1 = (if ur_netsys pr \<noteq> n then NetsysCtrl uid n s else s)"
  have "bandwidth (calls s1) uid = bandwidth (calls (snd (TransConditionToRuleAndNetsys uid pr s))) uid"
    using trans_decides [OF assms(1), of uid s]
    by (auto simp: TransConditionToRuleAndNetsys_def rule_part_def Let_def s1_def n_def WritePolicyByUid_def prod_eq_iff)
  moreover have "placed n (bandwidth (calls s1) uid)"
    using assms(2) NetsysCtrl_placed [of s uid n] by (auto simp: s1_def placed_def)
  ultimately show ?thesis by (simp add: n_def)
qed

subsection \<open>Invariant\<close>

definition updated :: "u32 \<Rightarrow> 'a NetPolicyRule_scheme \<Rightarrow> UidPolicyRule \<Rightarrow> UidPolicyRule" where
  "updated uid s pr = pr \<lparr> ur_rule := fst (decide uid (ur_policy pr) s), ur_netsys := snd (decide uid (ur_policy pr) s) \<rparr>"

definition fresh :: "'a NetPolicyRule_scheme \<Rightarrow> u32 \<Rightarrow> UidPolicyRule \<Rightarrow> bool" where
  "fresh s uid pr \<longleftrightarrow> (ur_rule pr, ur_netsys pr) = decide uid (ur_policy pr) s"

definition all_fresh :: "'a NetPolicyRule_scheme \<Rightarrow> bool" where
  "all_fresh s \<longleftrightarrow> (\<forall>uid pr. map_of (uidPolicyRules s) uid = Some pr \<longrightarrow> fresh s uid pr)"

definition listed :: "UidPolicyRule option \<Rightarrow> bool \<times> bool \<Rightarrow> bool" where
  "listed opr da = (case opr of None \<Rightarrow> da = (False, False) | Some pr \<Rightarrow> IsValidNetPolicy (ur_policy pr) \<and> placed (ur_netsys pr) da)"

definition rule_ok :: "'a NetPolicyRule_scheme \<Rightarrow> bool" where
  "rule_ok s \<longleftrightarrow> map_wf (uidPolicyRules s) \<and> (\<forall>uid. listed (map_of (uidPolicyRules s) uid) (bandwidth (calls s) uid))"

lemma updated_sel [simp]: "ur_policy (updated uid s pr) = ur_policy pr"
  "ur_rule (updated uid s pr) = fst (decide uid (ur_policy pr) s)" "ur_netsys (updated uid s pr) = snd (decide uid (ur_policy pr) s)"
  by (simp_all add: updated_def)

lemma fresh_updated [simp]: "fresh s uid (updated uid s pr)"
  by (simp add: fresh_def)

lemma fresh_same: "same_modes s t \<Longrightarrow> fresh t uid pr = fresh s uid pr"
  by (simp add: fresh_def decide_same)

lemma updated_same: "same_modes s t \<Longrightarrow> updated uid t pr = updated uid s pr"
  by (simp add: updated_def decide_same)

lemma trans_updated: "IsValidNetPolicy (ur_policy pr) \<Longrightarrow> fst (TransConditionToRuleAndNetsys uid pr s) = updated uid s pr"
  by (simp add: trans_result updated_def)

lemma trans_listed: "listed (Some pr) (bandwidth (calls s) uid) \<Longrightarrow>
    listed (Some (updated uid s pr)) (bandwidth (calls (snd (TransConditionToRuleAndNetsys uid pr s))) uid)"
  using trans_placed [of pr s uid] by (simp add: listed_def)

lemma trans_entries_Cons: "trans_entries (e # es) s =
    (let r = TransConditionToRuleAndNetsys (fst e) (snd e) s in
     ((fst e, fst r) # fst (trans_entries es (snd r)), snd (trans_entries es (snd r))))"
  by (cases e) (simp add: split_beta Let_def)

lemma trans_entries_keys [simp]: "map fst (fst (trans_entries es s)) = map fst es"
  by (induction es arbitrary: s) (simp_all add: trans_entries_Cons Let_def)

lemma trans_entries_kept:
  "uidPolicyRules (snd (trans_entries es s)) = uidPolicyRules s" "events (snd (trans_entries es s)) = events s"
  "u \<notin> fst ` set es \<Longrightarrow> bandwidth (calls (snd (trans_entries es s))) u = bandwidth (calls s) u"
  by (induction es arbitrary: s) (simp_all add: trans_entries_Cons Let_def trans_kept)

lemma trans_entries_modes: "same_modes s (snd (trans_entries es s))"
proof (induction es arbitrary: s)
  case (Cons e es)
  show ?case unfolding trans_entries_Cons Let_def snd_conv by (rule same_modes_trans [OF trans_kept(2) Cons.IH])
qed simp

lemma trans_entries_listed:
  assumes "distinct (map fst es)" "\<And>uid pr. (uid, pr) \<in> set es \<Longrightarrow> listed (Some pr) (bandwidth (calls s) uid)"
  shows "map_of (fst (trans_entries es s)) uid = map_option (updated uid s) (map_of es uid)
    \<and> (uid \<in> fst ` set es \<longrightarrow> listed (map_of (fst (trans_entries es s)) uid) (bandwidth (calls (snd (trans_entries es s))) uid))"
  using assms
proof (induction es arbitrary: s)
  case (Cons e es)
  obtain v pr where e: "e = (v, pr)" by (cases e)
  define t where "t = snd (TransConditionToRuleAndNetsys v pr s)"
  have pr: "listed (Some pr) (bandwidth (calls s) v)" using Cons.prems(2) [of v pr] e by simp
  have v: "v \<notin> fst ` set es" using Cons.prems(1) e by simp
  have t: "same_modes s t" "\<And>u. u \<noteq> v \<Longrightarrow> bandwidth (calls t) u = bandwidth (calls s) u"
    by (simp_all add: t_def trans_kept)
  have "listed (Some pr') (bandwidth (calls t) u)" if "(u, pr') \<in> set es" for u pr'
    using Cons.prems(2) [of u pr'] that v t(2) [of u] by (force simp: image_iff)
  note IH = Cons.IH [of t, OF _ this]
  have hd: "fst (TransConditionToRuleAndNetsys v pr s) = updated v s pr" using pr by (simp add: trans_updated listed_def)
  show ?case
  proof (cases "uid = v")
    case True
    then show ?thesis using trans_listed [OF pr] v hd trans_entries_kept(3) [of v es t]
      by (simp add: e trans_entries_Cons Let_def t_def)
  next
    case False
    then show ?thesis using IH Cons.prems(1) e updated_same [OF t(1), of uid]
      by (auto simp: trans_entries_Cons Let_def simp flip: t_def)
  qed
qed simp

text \<open>One lemma per operation: it keeps the invariant, and it leaves the rules that it computes fresh.\<close>

lemma rule_okD:
  assumes "rule_ok s"
  shows "distinct (map fst (uidPolicyRules s))"
    "\<And>uid pr. (uid, pr) \<in> set (uidPolicyRules s) \<Longrightarrow> listed (Some pr) (bandwidth (calls s) uid)"
    "\<And>uid pr. map_of (uidPolicyRules s) uid = Some pr \<Longrightarrow> listed (Some pr) (bandwidth (calls s) uid)"
proof -
  show d: "distinct (map fst (uidPolicyRules s))" using assms by (simp add: rule_ok_def map_wf_distinct)
  show *: "listed (Some pr) (bandwidth (calls s) uid)" if "map_of (uidPolicyRules s) uid = Some pr" for uid pr
    using assms that unfolding rule_ok_def by metis
  show "listed (Some pr) (bandwidth (calls s) uid)" if "(uid, pr) \<in> set (uidPolicyRules s)" for uid pr
    using * map_of_is_SomeI [OF d that] by blast
qed

lemma TransPolicyToRule_all_ok:
  assumes ok: "rule_ok s"
  shows "rule_ok (TransPolicyToRule_all s)" "all_fresh (TransPolicyToRule_all s)"
    "map_of (uidPolicyRules (TransPolicyToRule_all s)) uid = map_option (updated uid s) (map_of (uidPolicyRules s) uid)"
    "same_modes s (TransPolicyToRule_all s)" "events (TransPolicyToRule_all s) = events s"
proof -
  let ?t = "TransPolicyToRule_all s"
  have sel: "uidPolicyRules ?t = fst (trans_entries (uidPolicyRules s) s)" "calls ?t = calls (snd (trans_entries (uidPolicyRules s) s))"
    "same_modes (snd (trans_entries (uidPolicyRules s) s)) ?t" "events ?t = events (snd (trans_entries (uidPolicyRules s) s))"
    by (simp_all add: TransPolicyToRule_all_def split_beta same_modes_def)
  show modes: "same_modes s ?t" using same_modes_trans [OF trans_entries_modes sel(3)] .
  show "events ?t = events s" by (simp add: sel trans_entries_kept)
  have each: "map_of (uidPolicyRules ?t) u = map_option (updated u s) (map_of (uidPolicyRules s) u)"
    "u \<in> fst ` set (uidPolicyRules s) \<longrightarrow> listed (map_of (uidPolicyRules ?t) u) (bandwidth (calls ?t) u)" for u
    using trans_entries_listed [OF rule_okD(1, 2) [OF ok], of u] unfolding sel by blast+
  show "map_of (uidPolicyRules ?t) uid = map_option (updated uid s) (map_of (uidPolicyRules s) uid)" by (rule each)
  show "all_fresh ?t" unfolding all_fresh_def by (auto simp: each fresh_same [OF modes])
  have "listed (map_of (uidPolicyRules ?t) u) (bandwidth (calls ?t) u)" for u
  proof (cases "u \<in> fst ` set (uidPolicyRules s)")
    case True
    then show ?thesis using each(2) by blast
  next
    case False
    then have "map_of (uidPolicyRules s) u = None" by (simp add: map_of_eq_None_iff)
    then show ?thesis using ok trans_entries_kept(3) [OF False] unfolding rule_ok_def each(1) sel(2)
      by (metis option.map_disc_iff)
  qed
  moreover have "map_wf (uidPolicyRules ?t)" using ok by (simp add: rule_ok_def map_wf_def sel)
  ultimately show "rule_ok ?t" by (simp add: rule_ok_def)
qed

lemma retrans_ok:
  assumes wf: "map_wf (uidPolicyRules s)" and pr: "listed (Some pr) (bandwidth (calls s) uid)"
    and others: "\<And>u. u \<noteq> uid \<Longrightarrow> listed (map_of (uidPolicyRules s) u) (bandwidth (calls s) u)"
  shows "rule_ok (retrans uid pr s)" "same_modes s (retrans uid pr s)" "events (retrans uid pr s) = events s"
    "map_of (uidPolicyRules (retrans uid pr s)) u = (if u = uid then Some (updated uid s pr) else map_of (uidPolicyRules s) u)"
    "netPolicy (retrans uid pr s) = netPolicy (WritePolicyByUid uid (ur_policy pr) s)"
proof -
  let ?r = "TransConditionToRuleAndNetsys uid pr s"
  have upd: "fst ?r = updated uid s pr" using pr by (simp add: trans_updated listed_def)
  have sel: "retrans uid pr s = (snd ?r) \<lparr> uidPolicyRules := map_put uid (updated uid s pr) (uidPolicyRules s) \<rparr>"
    by (simp add: retrans_def split_beta Let_def upd trans_kept)
  show m: "map_of (uidPolicyRules (retrans uid pr s)) u = (if u = uid then Some (updated uid s pr) else map_of (uidPolicyRules s) u)" for u
    by (simp add: sel)
  show "same_modes s (retrans uid pr s)" using trans_kept(2) [of s uid pr] by (simp add: sel same_modes_def)
  show "events (retrans uid pr s) = events s" by (simp add: sel trans_kept)
  show "netPolicy (retrans uid pr s) = netPolicy (WritePolicyByUid uid (ur_policy pr) s)" by (simp add: sel trans_kept)
  show "rule_ok (retrans uid pr s)"
    using wf trans_listed [OF pr] others unfolding rule_ok_def by (simp add: m) (simp add: sel trans_kept map_wf_put)
qed

lemma rule_okI_updates:
  assumes "rule_ok s" "uidPolicyRules t = uidPolicyRules s" "\<And>u. bandwidth (calls t) u = bandwidth (calls s) u"
  shows "rule_ok t"
  using assms by (simp add: rule_ok_def)

lemma all_fresh_same: "all_fresh s \<Longrightarrow> uidPolicyRules t = uidPolicyRules s \<Longrightarrow> same_modes s t \<Longrightarrow> all_fresh t"
  by (simp add: all_fresh_def fresh_same)

lemma TransPolicyToRule_uid_ok:
  assumes ok: "rule_ok s"
  shows "rule_ok (TransPolicyToRule_uid uid s)" "same_modes s (TransPolicyToRule_uid uid s)"
    "events (TransPolicyToRule_uid uid s) = events s"
    "map_of (uidPolicyRules (TransPolicyToRule_uid uid s)) u =
      (if u = uid then map_option (updated uid s) (map_of (uidPolicyRules s) uid) else map_of (uidPolicyRules s) u)"
proof -
  note r = retrans_ok [of s _ uid, OF _ rule_okD(3) [OF ok]]
  have wf: "map_wf (uidPolicyRules s)" and others: "\<And>u. listed (map_of (uidPolicyRules s) u) (bandwidth (calls s) u)"
    using ok by (simp_all add: rule_ok_def)
  show "rule_ok (TransPolicyToRule_uid uid s)" "same_modes s (TransPolicyToRule_uid uid s)"
    "events (TransPolicyToRule_uid uid s) = events s"
    "map_of (uidPolicyRules (TransPolicyToRule_uid uid s)) u =
      (if u = uid then map_option (updated uid s) (map_of (uidPolicyRules s) uid) else map_of (uidPolicyRules s) u)"
    unfolding TransPolicyToRule_uid_def using ok r wf others by (simp_all split: option.splits)
qed

text \<open>Setting a valid policy recomputes an entry with that policy in a state that differs in this entry only.\<close>

lemma TransPolicyToRule_entry:
  assumes ok: "rule_ok s" and valid: "IsValidNetPolicy policy"
  obtains pr s1 where "snd (TransPolicyToRule uid policy s) = retrans uid pr s1" "ur_policy pr = policy"
    "listed (Some pr) (bandwidth (calls s1) uid)" "map_wf (uidPolicyRules s1)" "same_modes s s1" "events s1 = events s"
    "netPolicy s1 = netPolicy s" "\<And>v. bandwidth (calls s1) v = bandwidth (calls s) v"
    "\<And>v. v \<noteq> uid \<Longrightarrow> map_of (uidPolicyRules s1) v = map_of (uidPolicyRules s) v"
proof -
  define pr where "pr = (case map_of (uidPolicyRules s) uid of None \<Rightarrow> new_uid_rule policy
    | Some pr \<Rightarrow> if ur_policy pr \<noteq> policy then pr \<lparr> ur_policy := policy \<rparr> else pr)"
  define s1 where "s1 = (case map_of (uidPolicyRules s) uid of
      None \<Rightarrow> NotifyNetUidPolicyChange uid policy (s \<lparr> uidPolicyRules := map_put uid pr (uidPolicyRules s) \<rparr>)
    | Some q \<Rightarrow> if ur_policy q \<noteq> policy
        then NotifyNetUidPolicyChange uid policy (s \<lparr> uidPolicyRules := map_put uid pr (uidPolicyRules s) \<rparr>) else s)"
  have sel: "map_wf (uidPolicyRules s1)" "same_modes s s1" "events s1 = events s" "netPolicy s1 = netPolicy s"
    "\<And>v. v \<noteq> uid \<Longrightarrow> map_of (uidPolicyRules s1) v = map_of (uidPolicyRules s) v"
    using ok unfolding s1_def rule_ok_def
    by (simp_all add: NotifyNetUidPolicyChange_def emit_def same_modes_def map_wf_put split: option.splits)
  have bw: "\<And>v. bandwidth (calls s1) v = bandwidth (calls s) v" unfolding s1_def by (simp split: option.splits)
  have "listed (map_of (uidPolicyRules s) uid) (bandwidth (calls s) uid)" using ok by (simp add: rule_ok_def)
  then have "listed (Some pr) (bandwidth (calls s1) uid)" unfolding bw using valid
    by (auto simp: listed_def pr_def new_uid_rule_def placed_def rule_consts split: option.splits)
  moreover have "snd (TransPolicyToRule uid policy s) = retrans uid pr s1"
    unfolding TransPolicyToRule_def s1_def pr_def using valid by (simp split: option.splits)
  moreover have "ur_policy pr = policy" by (simp add: pr_def new_uid_rule_def split: option.splits)
  ultimately show thesis using that sel bw by blast
qed

lemma TransPolicyToRule_invalid [simp]: "\<not> IsValidNetPolicy policy \<Longrightarrow> TransPolicyToRule uid policy s = (POLICY_ERR_INVALID_POLICY, s)"
  by (simp add: TransPolicyToRule_def)

lemma TransPolicyToRule_valid:
  fixes uid policy s
  defines "t \<equiv> snd (TransPolicyToRule uid policy s)"
  assumes ok: "rule_ok s" and valid: "IsValidNetPolicy policy"
  shows "rule_ok t" "same_modes s t" "events t = events s"
    "u \<noteq> uid \<Longrightarrow> map_of (uidPolicyRules t) u = map_of (uidPolicyRules s) u"
    "\<exists>pr. map_of (uidPolicyRules t) uid = Some (updated uid s pr) \<and> ur_policy pr = policy"
    "netPolicy t = netPolicy (WritePolicyByUid uid policy s)"
proof -
  obtain pr s1 where s1: "t = retrans uid pr s1" "ur_policy pr = policy" "listed (Some pr) (bandwidth (calls s1) uid)"
    "map_wf (uidPolicyRules s1)" "same_modes s s1" "events s1 = events s" "netPolicy s1 = netPolicy s"
    "\<And>v. bandwidth (calls s1) v = bandwidth (calls s) v"
    "\<And>v. v \<noteq> uid \<Longrightarrow> map_of (uidPolicyRules s1) v = map_of (uidPolicyRules s) v"
    unfolding t_def by (rule TransPolicyToRule_entry [OF ok valid, of uid]) blast
  have "listed (map_of (uidPolicyRules s1) v) (bandwidth (calls s1) v)" if "v \<noteq> uid" for v
    using ok s1(8, 9) that by (simp add: rule_ok_def)
  note r = retrans_ok [OF s1(4) s1(3) this, folded s1(1)]
  show "rule_ok t" "same_modes s t" "events t = events s" using r s1(5, 6) same_modes_trans by auto
  show "u \<noteq> uid \<Longrightarrow> map_of (uidPolicyRules t) u = map_of (uidPolicyRules s) u" using r(4) [of u] s1(9) [of u] by simp
  show "\<exists>pr. map_of (uidPolicyRules t) uid = Some (updated uid s pr) \<and> ur_policy pr = policy"
    using r(4) [of uid] s1(2) updated_same [OF s1(5), of uid pr] by auto
  show "netPolicy t = netPolicy (WritePolicyByUid uid policy s)"
    using r(5) s1(2, 7) by (simp add: WritePolicyByUid_def WritePolicyByUid_op_def WriteFile_def Let_def)
qed

end
