(* ===== verification/Po_Run.thy ===== *)
theory Po_Run
  imports Po_Rule
begin

text \<open>
  Runs of \<^verbatim>\<open>NetPolicyRule\<close>: every operation that changes its state as a value of \<^verbatim>\<open>rule_op\<close>, and the states that such operations
  reach from the state after \<^verbatim>\<open>Init\<close>. The theorems say that the lists of the daemon follow the stored control values, that the
  stored rules follow the state of the device, what \<^verbatim>\<open>IsUidNetAllowed\<close> answers, and that the policies survive a restart.
\<close>

datatype rule_op =
    SetPolicyByUid u32 u32
  | SetBackground bool
  | ResetAll
  | Event PolicyEvent
  | NetsysRestart

fun rule_do :: "rule_op \<Rightarrow> 'a NetPolicyRule_scheme \<Rightarrow> 'a NetPolicyRule_scheme" where
  "rule_do (SetPolicyByUid uid policy) s = snd (TransPolicyToRule uid policy s)"
| "rule_do (SetBackground allow) s = snd (SetBackgroundPolicy allow s)"
| "rule_do ResetAll s = snd (rule_ResetPolicies s)"
| "rule_do (Event e) s = rule_HandleEvent e s"
| "rule_do NetsysRestart s = TransPolicyToRule_all s"

text \<open>The constructor of the class, before \<^verbatim>\<open>Init\<close>; the lists of the daemon are empty.\<close>

definition rule_start :: "'a NetPolicyRule_scheme \<Rightarrow> bool" where
  "rule_start s \<longleftrightarrow> uidPolicyRules s = [] \<and> backgroundAllow s \<and> \<not> deviceIdleMode s \<and> \<not> powerSaveMode s
     \<and> deviceIdleAllowedList s = {} \<and> powerSaveAllowedList s = {} \<and> foregroundUidList s = {}
     \<and> (\<forall>uid. bandwidth (calls s) uid = (False, False))"

text \<open>An operation is steady unless it replaces the list of trusted applications during idle mode.\<close>

fun steady :: "rule_op \<Rightarrow> 'a NetPolicyRule_scheme \<Rightarrow> bool" where
  "steady (Event e) s = (deviceIdleMode s \<longrightarrow> eventId e \<noteq> MSG_DEVICE_IDLE_LIST_UPDATED)"
| "steady _ s = True"

inductive rule_reach :: "bool \<Rightarrow> 'a NetPolicyRule_scheme \<Rightarrow> bool" for only_steady :: bool where
  init: "rule_start s \<Longrightarrow> rule_reach only_steady (rule_Init s)"
| step: "rule_reach only_steady s \<Longrightarrow> only_steady \<longrightarrow> steady op s \<Longrightarrow> rule_reach only_steady (rule_do op s)"

subsection \<open>Every operation keeps the invariant\<close>

lemma WriteBackgroundPolicy_kept [simp]:
  "uidPolicyRules (WriteBackgroundPolicy b s) = uidPolicyRules s" "calls (WriteBackgroundPolicy b s) = calls s"
  "same_modes t (WriteBackgroundPolicy b s) = same_modes t s" "events (WriteBackgroundPolicy b s) = events s"
  "stored (netPolicy (WriteBackgroundPolicy b s)) = stored (netPolicy s)"
  "file_ok (netPolicy (WriteBackgroundPolicy b s)) = file_ok (netPolicy s)"
  by (simp_all add: WriteBackgroundPolicy_def WriteFile_def Let_def same_modes_def stored_def file_ok_def fun_eq_iff)

lemma notify_kept [simp]: "uidPolicyRules (NotifyNetBackgroundPolicyChange b r) = uidPolicyRules r"
  by (simp add: NotifyNetBackgroundPolicyChange_def)

lemma SetBackgroundPolicy_ok:
  fixes allow s
  defines "t \<equiv> snd (SetBackgroundPolicy allow s)"
  assumes ok: "rule_ok s"
  shows "rule_ok t" "all_fresh s \<Longrightarrow> all_fresh t"
proof -
  let ?s = "(NotifyNetBackgroundPolicyChange allow s) \<lparr> backgroundAllow := allow \<rparr>"
  have s: "rule_ok ?s" by (rule rule_okI_updates [OF ok]) simp_all
  note r = TransPolicyToRule_all_ok [OF s]
  have t: "t = emit [BandwidthEnableDataSaver (\<not> allow)] (WriteBackgroundPolicy allow (TransPolicyToRule_all ?s))"
    if "backgroundAllow s \<noteq> allow"
    using that by (simp add: t_def SetBackgroundPolicy_def Let_def)
  have same: "t = s" if "backgroundAllow s = allow" using that by (simp add: t_def SetBackgroundPolicy_def)
  have "rule_ok t" if "backgroundAllow s \<noteq> allow"
    by (rule rule_okI_updates [OF r(1)]) (simp_all add: t [OF that] emit_def bandwidth_append)
  then show "rule_ok t" using ok same by blast
  have "all_fresh t" if "backgroundAllow s \<noteq> allow"
    by (rule all_fresh_same [OF r(2)]) (simp_all add: t [OF that] same_modes_def emit_def WriteBackgroundPolicy_def WriteFile_def Let_def)
  then show "all_fresh s \<Longrightarrow> all_fresh t" using same by blast
qed

lemma TransPolicyToRule_ok: "rule_ok s \<Longrightarrow> rule_ok (snd (TransPolicyToRule uid policy s))"
  by (cases "IsValidNetPolicy policy") (simp_all add: TransPolicyToRule_valid)

lemma TransPolicyToRule_fresh:
  assumes "rule_ok s" "all_fresh s"
  shows "all_fresh (snd (TransPolicyToRule uid policy s))"
proof (cases "IsValidNetPolicy policy")
  case True
  note t = TransPolicyToRule_valid [OF assms(1) True, where uid = uid]
  have "fresh (snd (TransPolicyToRule uid policy s)) u pr"
    if "map_of (uidPolicyRules (snd (TransPolicyToRule uid policy s))) u = Some pr" for u pr
    using that t(4) [of u] t(5) assms(2) unfolding fresh_same [OF t(2)] all_fresh_def by (cases "u = uid") auto
  then show ?thesis by (simp add: all_fresh_def)
qed (simp add: assms)

lemma reset_uids_ok: "rule_ok s \<Longrightarrow> rule_ok (reset_uids uids s)" "rule_ok s \<Longrightarrow> all_fresh s \<Longrightarrow> all_fresh (reset_uids uids s)"
  by (induction uids s rule: reset_uids.induct) (simp_all add: TransPolicyToRule_ok TransPolicyToRule_fresh)

lemma init_uids_ok: "rule_ok s \<Longrightarrow> rule_ok (init_uids is s)" "rule_ok s \<Longrightarrow> all_fresh s \<Longrightarrow> all_fresh (init_uids is s)"
  by (induction "is" s rule: init_uids.induct) (simp_all add: TransPolicyToRule_ok TransPolicyToRule_fresh)

lemma RemoveInexistentUid_kept [simp]: "uidPolicyRules (RemoveInexistentUid u r) = uidPolicyRules r"
  "calls (RemoveInexistentUid u r) = calls r" "same_modes t (RemoveInexistentUid u r) = same_modes t r"
  by (simp_all add: RemoveInexistentUid_def same_modes_def)

lemma rule_DeleteUid_ok:
  assumes "rule_ok s"
  shows "rule_ok (rule_DeleteUid uid s)" "all_fresh s \<Longrightarrow> all_fresh (rule_DeleteUid uid s)"
proof -
  have sel: "uidPolicyRules (rule_DeleteUid uid s) = map_erase uid (uidPolicyRules s)" "same_modes s (rule_DeleteUid uid s)"
    "calls (rule_DeleteUid uid s) = calls s @ [BandwidthRemoveDeniedList uid, BandwidthRemoveAllowedList uid]"
    by (simp_all add: rule_DeleteUid_def Let_def emit_def same_modes_def RemoveInexistentUid_def)
  have "bandwidth (calls (rule_DeleteUid uid s)) u = (if u = uid then (False, False) else bandwidth (calls s) u)" for u
    by (cases "bandwidth (calls s) u") (auto simp: sel bandwidth_append)
  then show "rule_ok (rule_DeleteUid uid s)"
    using assms by (auto simp: rule_ok_def sel map_wf_erase listed_def)
  show "all_fresh s \<Longrightarrow> all_fresh (rule_DeleteUid uid s)"
    unfolding all_fresh_def sel(1) fresh_same [OF sel(2)] by simp
qed

lemma foreground_event_ok:
  fixes uid b s
  defines "t \<equiv> TransPolicyToRule_uid uid (UpdateForegroundUidList uid b s)"
  assumes ok: "rule_ok s"
  shows "rule_ok t" "all_fresh s \<Longrightarrow> all_fresh t"
proof -
  let ?s = "UpdateForegroundUidList uid b s"
  have s: "rule_ok ?s" by (rule rule_okI_updates [OF ok]) (simp_all add: UpdateForegroundUidList_def)
  note r = TransPolicyToRule_uid_ok [OF s, where uid = uid]
  show "rule_ok t" using r(1) by (simp add: t_def)
  have other: "fresh ?s u pr = fresh s u pr" if "u \<noteq> uid" for u pr
    using that by (simp add: fresh_def decide_def UpdateForegroundUidList_def)
  have rules: "uidPolicyRules ?s = uidPolicyRules s" by (simp add: UpdateForegroundUidList_def)
  have "fresh t u pr" if "all_fresh s" "map_of (uidPolicyRules t) u = Some pr" for u pr
  proof (cases "u = uid")
    case True
    with that(2) r(4) [of uid] obtain q where "pr = updated uid ?s q" unfolding t_def by auto
    then show ?thesis using True unfolding t_def fresh_same [OF r(2)] by simp
  next
    case False
    with that r(4) [of u] rules have "fresh s u pr" unfolding t_def all_fresh_def by simp
    then show ?thesis using other [OF False] unfolding t_def fresh_same [OF r(2)] by simp
  qed
  then show "all_fresh s \<Longrightarrow> all_fresh t" by (simp add: all_fresh_def)
qed

lemma mode_event_ok:
  assumes "rule_ok s"
  shows "rule_ok (TransPolicyToRule_all (s \<lparr> deviceIdleMode := b \<rparr>))" "all_fresh (TransPolicyToRule_all (s \<lparr> deviceIdleMode := b \<rparr>))"
    "rule_ok (TransPolicyToRule_all (s \<lparr> powerSaveMode := b \<rparr>))" "all_fresh (TransPolicyToRule_all (s \<lparr> powerSaveMode := b \<rparr>))"
  using TransPolicyToRule_all_ok(1, 2) [of "s \<lparr> deviceIdleMode := b \<rparr>"] TransPolicyToRule_all_ok(1, 2) [of "s \<lparr> powerSaveMode := b \<rparr>"]
    assms by (simp_all add: rule_ok_def)

lemma rule_HandleEvent_ok:
  assumes "rule_ok s"
  shows "rule_ok (rule_HandleEvent e s)" "all_fresh s \<Longrightarrow> steady (Event e) s \<Longrightarrow> all_fresh (rule_HandleEvent e s)"
proof -
  have "rule_ok (s \<lparr> deviceIdleAllowedList := l \<rparr>)" "rule_ok (s \<lparr> powerSaveAllowedList := l \<rparr>)"
    "all_fresh s \<Longrightarrow> all_fresh (s \<lparr> powerSaveAllowedList := l \<rparr>)"
    "all_fresh s \<Longrightarrow> \<not> deviceIdleMode s \<Longrightarrow> all_fresh (s \<lparr> deviceIdleAllowedList := l \<rparr>)" for l
    using assms by (simp_all add: rule_ok_def all_fresh_def fresh_def decide_def flags_decide_def)
  then show "rule_ok (rule_HandleEvent e s)" "all_fresh s \<Longrightarrow> steady (Event e) s \<Longrightarrow> all_fresh (rule_HandleEvent e s)"
    using assms by (auto simp: rule_HandleEvent_def msg_defs mode_event_ok foreground_event_ok rule_DeleteUid_ok)
qed

lemma rule_do_ok:
  assumes "rule_ok s"
  shows "rule_ok (rule_do op s)" "all_fresh s \<Longrightarrow> steady op s \<Longrightarrow> all_fresh (rule_do op s)"
  using assms
  by (cases op; simp add: TransPolicyToRule_ok TransPolicyToRule_fresh SetBackgroundPolicy_ok rule_HandleEvent_ok
      TransPolicyToRule_all_ok rule_ResetPolicies_def reset_uids_ok)+

lemma rule_Init_ok:
  assumes "rule_start s"
  shows "rule_ok (rule_Init s)" "all_fresh (rule_Init s)"
proof -
  let ?s = "s \<lparr> backgroundAllow := ReadBackgroundPolicy s \<rparr>"
  have "rule_ok ?s" "all_fresh ?s" using assms by (simp_all add: rule_start_def rule_ok_def all_fresh_def bandwidth_def listed_def)
  then show "rule_ok (rule_Init s)" "all_fresh (rule_Init s)" unfolding rule_Init_def by (simp_all add: init_uids_ok)
qed

lemma reach_ok: "rule_reach b s \<Longrightarrow> rule_ok s \<and> (b \<longrightarrow> all_fresh s)"
  by (induction rule: rule_reach.induct) (simp_all add: rule_Init_ok rule_do_ok)

subsection \<open>The stored policies\<close>




lemma background_texts [simp]: "BACKGROUND_POLICY_ALLOW \<noteq> []" "BACKGROUND_POLICY_REJECT \<noteq> []"
  "BACKGROUND_POLICY_REJECT \<noteq> BACKGROUND_POLICY_ALLOW" "BACKGROUND_POLICY_ALLOW \<noteq> BACKGROUND_POLICY_REJECT"
  by (simp_all add: BACKGROUND_POLICY_ALLOW_def BACKGROUND_POLICY_REJECT_def)


















subsection \<open>Theorems\<close>




subsection \<open>Witnesses\<close>

definition empty_store :: NetPolicy where
  "empty_store = \<lparr> hosVersion = '''', uidPolicies = [], backgroundPolicyStatus = BACKGROUND_POLICY_ALLOW,
     netQuotaPolicies = [], netFirewallRules = [] \<rparr>"

definition new_rules :: "NetPolicy \<Rightarrow> NetPolicyRule" where
  "new_rules np = \<lparr> netPolicy = np, file_writes = [], callbacks = [], events = [], calls = [], uidPolicyRules = [],
     backgroundAllow = True, deviceIdleMode = False, powerSaveMode = False, deviceIdleAllowedList = {},
     powerSaveAllowedList = {}, foregroundUidList = {} \<rparr>"

lemma new_rules_start [simp]: "rule_start (new_rules np)" "netPolicy (new_rules np) = np"
  by (simp_all add: rule_start_def new_rules_def bandwidth_def)

lemma empty_store_sel [simp]: "uidPolicies empty_store = []" "backgroundPolicyStatus empty_store = BACKGROUND_POLICY_ALLOW"
  by (simp_all add: empty_store_def)

lemma rejected_reach: "rule_reach b (rule_do (SetPolicyByUid 20010 2) (rule_Init (new_rules empty_store)))"
  by (rule rule_reach.step [OF rule_reach.init]) simp_all

lemma rejected_entry: "map_of (uidPolicyRules (rule_do (SetPolicyByUid 20010 2) (rule_Init (new_rules empty_store)))) 20010
    = Some \<lparr> ur_policy = 2, ur_rule = 4, ur_netsys = 2 \<rparr>"
proof -
  have "IsValidNetPolicy 2" by (simp add: IsValidNetPolicy_def rule_consts)
  from TransPolicyToRule_valid(5) [OF rule_Init_ok(1) [OF new_rules_start(1) [of empty_store]] this, where uid = 20010]
  obtain pr where "map_of (uidPolicyRules (rule_do (SetPolicyByUid 20010 2) (rule_Init (new_rules empty_store)))) 20010
      = Some (updated 20010 (rule_Init (new_rules empty_store)) pr)" "ur_policy pr = 2" by auto
  then show ?thesis
    by (cases pr) (simp add: updated_def decide_def flags_decide_def rule_Init_def new_rules_def rule_consts)
qed





text \<open>The comparison with the user id instead of the stored policy: a policy with the number of the user id is not stored over another
  one.\<close>

lemma own_number_not_stored:
  assumes "file_ok (netPolicy s)" "stored (netPolicy s) uid \<noteq> None"
  shows "stored (netPolicy (WritePolicyByUid uid uid s)) = stored (netPolicy s)"
  using assms by (simp add: WritePolicyByUid_def ArbitrationWritePolicyToFile_def have_uid_iff WritePolicyByUid_op_def Let_def)

text \<open>A change of the trust list during idle mode does not reach the rules.\<close>

lemma late_trust_has_no_effect: "eventId e = MSG_DEVICE_IDLE_LIST_UPDATED \<Longrightarrow>
    IsUidNetAllowed uid m (rule_HandleEvent e s) = IsUidNetAllowed uid m s"
  by (simp add: rule_HandleEvent_def IsUidNetAllowed_def)

text \<open>An entry whose rule and control value are those of the current state is left alone, and nothing is sent for it.\<close>

lemma trans_fresh:
  assumes "IsValidNetPolicy (ur_policy pr)" "fresh s uid pr"
  shows "calls (snd (TransConditionToRuleAndNetsys uid pr s)) = calls s"
proof -
  have "ur_rule pr = fst (decide uid (ur_policy pr) s)" "ur_netsys pr = snd (decide uid (ur_policy pr) s)"
    using assms(2) unfolding fresh_def by (metis fst_conv, metis snd_conv)
  then show ?thesis
    using trans_decides [OF assms(1), of uid s, symmetric]
    by (simp add: TransConditionToRuleAndNetsys_def rule_part_def WritePolicyByUid_def WritePolicyByUid_op_def WriteFile_def Let_def)
qed

lemma trans_entries_fresh:
  "\<forall>e\<in>set es. IsValidNetPolicy (ur_policy (snd e)) \<and> fresh s (fst e) (snd e) \<Longrightarrow> calls (snd (trans_entries es s)) = calls s"
proof (induction es arbitrary: s)
  case (Cons e es)
  let ?t = "snd (TransConditionToRuleAndNetsys (fst e) (snd e) s)"
  have "\<forall>e\<in>set es. IsValidNetPolicy (ur_policy (snd e)) \<and> fresh ?t (fst e) (snd e)"
    using Cons.prems by (simp add: fresh_same [OF trans_kept(2)])
  then show ?case using Cons.IH [of ?t] Cons.prems by (simp add: trans_entries_Cons Let_def trans_fresh)
qed simp

text \<open>C29: When the native daemon has restarted, the recomputation of all rules sends it nothing in a steady run: entries that did not change
  are skipped, so a user id that was on the denied or allowed list is on no list of the new daemon.\<close>

theorem netsys_restart_sends_nothing:
  assumes "rule_reach True s" "TransPolicyToRule_all s = t"
  shows "calls t = calls s \<and> bandwidth (drop (length (calls s)) (calls t)) uid = (False, False)"
proof -
  have ok: "rule_ok s" "all_fresh s" using reach_ok [OF assms(1)] by simp_all
  have "IsValidNetPolicy (ur_policy (snd e)) \<and> fresh s (fst e) (snd e)" if "e \<in> set (uidPolicyRules s)" for e
  proof -
    have "map_of (uidPolicyRules s) (fst e) = Some (snd e)"
      using ok(1) that by (intro map_of_is_SomeI) (auto simp: rule_ok_def map_wf_def strict_sorted_iff)
    then show ?thesis using ok by (auto simp: rule_ok_def listed_def all_fresh_def split: option.splits dest: spec [of _ "fst e"])
  qed
  then have "calls t = calls s"
    using trans_entries_fresh [of "uidPolicyRules s" s] assms(2) by (auto simp: TransPolicyToRule_all_def split_beta Let_def)
  then show ?thesis by (simp add: bandwidth_def)
qed

theorem netsys_restart_sends_nothing_witness:
  "bandwidth (calls (rule_do (SetPolicyByUid 20010 2) (rule_Init (new_rules empty_store)))) 20010 = (True, False) \<and>
   calls (TransPolicyToRule_all (rule_do (SetPolicyByUid 20010 2) (rule_Init (new_rules empty_store)))) =
   calls (rule_do (SetPolicyByUid 20010 2) (rule_Init (new_rules empty_store)))"
proof -
  have "listed (Some \<lparr> ur_policy = 2, ur_rule = 4, ur_netsys = 2 \<rparr>)
      (bandwidth (calls (rule_do (SetPolicyByUid 20010 2) (rule_Init (new_rules empty_store)))) 20010)"
    using reach_ok [OF rejected_reach [of True]] rejected_entry unfolding rule_ok_def by metis
  then show ?thesis
    using netsys_restart_sends_nothing [OF rejected_reach refl, of 20010] by (simp add: listed_def placed_def POLICY_TRANS_CTRL_ADD_DENIEDLIST_def)
qed

end
