(* ===== verification/Po_Firewall.thy ===== *)
theory Po_Firewall
  imports Po_Run
begin

text \<open>
  The trust and deny lists of the policy manager: \<^verbatim>\<open>FirewallRule\<close> (\<^verbatim>\<open>firewall_rule.cpp\<close>), one object per chain with the lists it keeps
  for the daemon, and \<^verbatim>\<open>NetPolicyFirewall\<close> (\<^verbatim>\<open>net_policy_firewall.cpp\<close>), which owns three of them and the sets that are stored
  in the policy file. \<^verbatim>\<open>fw_ok\<close> is the invariant that the list of a chain holds exactly the stored set, without duplicates and within
  the size limit; every operation keeps it.
\<close>

definition FIREWALL_CHAIN_DEVICE_IDLE :: u32 where "FIREWALL_CHAIN_DEVICE_IDLE = 16"
definition FIREWALL_CHAIN_POWER_SAVE :: u32 where "FIREWALL_CHAIN_POWER_SAVE = 17"
definition FIREWALL_CHAIN_IDLE_DENY :: u32 where "FIREWALL_CHAIN_IDLE_DENY = 18"
definition FIREWALL_RULE_ALLOW :: u32 where "FIREWALL_RULE_ALLOW = 1"
definition FIREWALL_RULE_DENY :: u32 where "FIREWALL_RULE_DENY = 2"
definition MAX_LIST_SIZE :: nat where "MAX_LIST_SIZE = 1000"

lemmas chain_consts = FIREWALL_CHAIN_DEVICE_IDLE_def FIREWALL_CHAIN_POWER_SAVE_def FIREWALL_CHAIN_IDLE_DENY_def
  FIREWALL_RULE_ALLOW_def FIREWALL_RULE_DENY_def

subsection \<open>One chain\<close>

record FirewallRule =
  chainType :: u32
  allowedList :: "u32 list"
  deniedList :: "u32 list"

definition CreateFirewallRule :: "u32 \<Rightarrow> FirewallRule option" where
  "CreateFirewallRule chain =
     (if chain = FIREWALL_CHAIN_DEVICE_IDLE \<or> chain = FIREWALL_CHAIN_POWER_SAVE \<or> chain = FIREWALL_CHAIN_IDLE_DENY
      then Some \<lparr> chainType = chain, allowedList = [], deniedList = [] \<rparr> else None)"

definition SetAllowed_uid :: "u32 \<Rightarrow> u32 \<Rightarrow> FirewallRule \<Rightarrow> FirewallRule" where
  "SetAllowed_uid uid rule r =
     (if rule = FIREWALL_RULE_ALLOW then
        (if uid \<in> set (allowedList r) then r else r \<lparr> allowedList := allowedList r @ [uid] \<rparr>)
      else r \<lparr> allowedList := remove1 uid (allowedList r) \<rparr>)"

definition SetAllowed_uids :: "u32 list \<Rightarrow> u32 \<Rightarrow> FirewallRule \<Rightarrow> 'a policy_base_scheme \<Rightarrow> FirewallRule \<times> 'a policy_base_scheme" where
  "SetAllowed_uids uids rule r s =
     (fold (\<lambda>uid. SetAllowed_uid uid rule) uids r, emit [FirewallSetUidRule (chainType r) uids rule] s)"

definition SetAllowed_chain :: "FirewallRule \<Rightarrow> 'a policy_base_scheme \<Rightarrow> 'a policy_base_scheme" where
  "SetAllowed_chain r s = emit [FirewallSetUidsAllowedListChain (chainType r) (allowedList r)] s"

definition SetAllowed_set :: "u32 set \<Rightarrow> FirewallRule \<Rightarrow> 'a policy_base_scheme \<Rightarrow> FirewallRule \<times> 'a policy_base_scheme" where
  "SetAllowed_set uids r s =
     (let r = fold (\<lambda>uid. SetAllowed_uid uid FIREWALL_RULE_ALLOW) (sorted_list_of_set uids) r in (r, SetAllowed_chain r s))"

definition ClearAllowedList :: "FirewallRule \<Rightarrow> 'a policy_base_scheme \<Rightarrow> FirewallRule \<times> 'a policy_base_scheme" where
  "ClearAllowedList r s = (let r = r \<lparr> allowedList := [] \<rparr> in (r, SetAllowed_chain r s))"

definition SetDenied_chain :: "FirewallRule \<Rightarrow> 'a policy_base_scheme \<Rightarrow> 'a policy_base_scheme" where
  "SetDenied_chain r s = emit [FirewallSetUidsDeniedListChain (chainType r) (deniedList r)] s"

definition deny_step :: "u32 \<Rightarrow> u32 \<Rightarrow> FirewallRule \<Rightarrow> FirewallRule" where
  "deny_step rule uid r =
     (if rule = FIREWALL_RULE_DENY \<and> uid \<notin> set (deniedList r) then r \<lparr> deniedList := deniedList r @ [uid] \<rparr>
      else r \<lparr> deniedList := removeAll uid (deniedList r) \<rparr>)"

definition SetDenied_uids :: "u32 list \<Rightarrow> u32 \<Rightarrow> FirewallRule \<Rightarrow> 'a policy_base_scheme \<Rightarrow> FirewallRule \<times> 'a policy_base_scheme" where
  "SetDenied_uids uids rule r s = (let r = fold (deny_step rule) uids r in (r, SetDenied_chain r s))"

definition SetDenied_uid :: "u32 \<Rightarrow> u32 \<Rightarrow> FirewallRule \<Rightarrow> 'a policy_base_scheme \<Rightarrow> FirewallRule \<times> 'a policy_base_scheme" where
  "SetDenied_uid uid rule r s =
     ((if rule = FIREWALL_RULE_DENY then
         (if uid \<in> set (deniedList r) then r else r \<lparr> deniedList := deniedList r @ [uid] \<rparr>)
       else r \<lparr> deniedList := removeAll uid (deniedList r) \<rparr>),
      emit [FirewallSetUidRule (chainType r) [uid] rule] s)"

definition ClearDeniedList :: "FirewallRule \<Rightarrow> 'a policy_base_scheme \<Rightarrow> FirewallRule \<times> 'a policy_base_scheme" where
  "ClearDeniedList r s = (let r = r \<lparr> deniedList := [] \<rparr> in (r, SetDenied_chain r s))"

definition EnableFirewall :: "bool \<Rightarrow> FirewallRule \<Rightarrow> 'a policy_base_scheme \<Rightarrow> 'a policy_base_scheme" where
  "EnableFirewall enable r s = emit [FirewallEnableChain (chainType r) enable] s"

definition SetUidFirewallRule :: "u32 \<Rightarrow> bool \<Rightarrow> FirewallRule \<Rightarrow> 'a policy_base_scheme \<Rightarrow> 'a policy_base_scheme" where
  "SetUidFirewallRule uid isAllowed r s =
     emit [FirewallSetUidRule (chainType r) [uid] (if isAllowed then FIREWALL_RULE_ALLOW else FIREWALL_RULE_DENY)] s"

definition RemoveFromAllowedList :: "u32 \<Rightarrow> FirewallRule \<Rightarrow> FirewallRule" where
  "RemoveFromAllowedList uid r = r \<lparr> allowedList := remove1 uid (allowedList r) \<rparr>"

definition RemoveFromDeniedList :: "u32 \<Rightarrow> FirewallRule \<Rightarrow> 'a policy_base_scheme \<Rightarrow> FirewallRule \<times> 'a policy_base_scheme" where
  "RemoveFromDeniedList uid r s =
     (let r = r \<lparr> deniedList := remove1 uid (deniedList r) \<rparr> in (r, SetDenied_chain r s))"

subsection \<open>State\<close>

record NetPolicyFirewall = NetPolicyRule +
  deviceIdleFirewallRule :: "FirewallRule option"
  powerSaveFirewallRule :: "FirewallRule option"
  idleDenyFirewallRule :: "FirewallRule option"
  f_deviceIdleMode :: bool
  f_powerSaveMode :: bool
  f_idleDenyMode :: bool
  f_deviceIdleAllowedList :: "u32 set"
  f_deviceIdleDeniedList :: "u32 set"
  f_powerSaveAllowedList :: "u32 set"
  f_powerSaveDeniedList :: "u32 set"

definition fw_Init :: "'a NetPolicyFirewall_scheme \<Rightarrow> 'a NetPolicyFirewall_scheme" where
  "fw_Init s =
     (let s = s \<lparr> deviceIdleFirewallRule := CreateFirewallRule FIREWALL_CHAIN_DEVICE_IDLE,
                powerSaveFirewallRule := CreateFirewallRule FIREWALL_CHAIN_POWER_SAVE,
                idleDenyFirewallRule := CreateFirewallRule FIREWALL_CHAIN_IDLE_DENY \<rparr>
      in case deviceIdleFirewallRule s of None \<Rightarrow> s | Some di \<Rightarrow>
         (case powerSaveFirewallRule s of None \<Rightarrow> s | Some ps \<Rightarrow>
            (let ((a, d), s) = ReadFirewallRules FIREWALL_CHAIN_DEVICE_IDLE (f_deviceIdleAllowedList s) (f_deviceIdleDeniedList s) s;
                 s = s \<lparr> f_deviceIdleAllowedList := a, f_deviceIdleDeniedList := d \<rparr>;
                 ((a, d), s) = ReadFirewallRules FIREWALL_CHAIN_POWER_SAVE (f_powerSaveAllowedList s) (f_powerSaveDeniedList s) s;
                 s = s \<lparr> f_powerSaveAllowedList := a, f_powerSaveDeniedList := d \<rparr>;
                 (di, s) = SetAllowed_set (f_deviceIdleAllowedList s) di s;
                 (ps, s) = SetAllowed_set (f_powerSaveAllowedList s) ps s
             in s \<lparr> deviceIdleFirewallRule := Some di, powerSaveFirewallRule := Some ps \<rparr>)))"

definition ReportFirewallPolicyChange :: "string \<Rightarrow> u32 \<Rightarrow> bool \<Rightarrow> FirewallRule option \<Rightarrow> 'a policy_base_scheme \<Rightarrow> 'a policy_base_scheme" where
  "ReportFirewallPolicyChange callingFnc chain enable rule s =
     (case rule of None \<Rightarrow> s
      | Some r \<Rightarrow> emit [FirewallPolicyBroadcast callingFnc chain enable (allowedList r) (deniedList r)] s)"

definition UpdateFirewallPolicyList :: "u32 \<Rightarrow> u32 list \<Rightarrow> bool \<Rightarrow> 'a NetPolicyFirewall_scheme \<Rightarrow> 'a NetPolicyFirewall_scheme" where
  "UpdateFirewallPolicyList chain uids isAllowed s =
     (let upd = (\<lambda>l. if isAllowed then l \<union> set uids else l - set uids) in
      if chain = FIREWALL_CHAIN_DEVICE_IDLE then s \<lparr> f_deviceIdleAllowedList := upd (f_deviceIdleAllowedList s) \<rparr>
      else if chain = FIREWALL_CHAIN_POWER_SAVE then s \<lparr> f_powerSaveAllowedList := upd (f_powerSaveAllowedList s) \<rparr>
      else s)"

subsection \<open>Operations\<close>

definition SetDeviceIdleTrustlist :: "u32 list \<Rightarrow> bool \<Rightarrow> 'a NetPolicyFirewall_scheme \<Rightarrow> int \<times> 'a NetPolicyFirewall_scheme" where
  "SetDeviceIdleTrustlist uids isAllowed s =
     (if length uids > MAX_LIST_SIZE then (NETMANAGER_ERR_PARAMETER_ERROR, s)
      else case deviceIdleFirewallRule s of None \<Rightarrow> (NETMANAGER_ERR_LOCAL_PTR_NULL, s)
      | Some r \<Rightarrow>
        if isAllowed \<and> card (f_deviceIdleAllowedList s) + length uids > MAX_LIST_SIZE then (NETMANAGER_ERR_PARAMETER_ERROR, s)
        else let s = UpdateFirewallPolicyList FIREWALL_CHAIN_DEVICE_IDLE uids isAllowed s;
                 s = WriteFirewallRules FIREWALL_CHAIN_DEVICE_IDLE (f_deviceIdleAllowedList s) (f_deviceIdleDeniedList s) s;
                 (r, s) = SetAllowed_uids uids (if isAllowed then FIREWALL_RULE_ALLOW else FIREWALL_RULE_DENY) r s;
                 s = s \<lparr> deviceIdleFirewallRule := Some r \<rparr>;
                 s = ReportFirewallPolicyChange ''SetDeviceIdleTrustlist'' FIREWALL_CHAIN_DEVICE_IDLE (f_deviceIdleMode s) (Some r) s
             in (NETMANAGER_SUCCESS, SendEvent (Some Firewall) MSG_DEVICE_IDLE_LIST_UPDATED
                  (new_event \<lparr> ev_deviceIdleList := f_deviceIdleAllowedList s \<rparr>) s))"

definition SetPowerSaveTrustlist :: "u32 list \<Rightarrow> bool \<Rightarrow> 'a NetPolicyFirewall_scheme \<Rightarrow> int \<times> 'a NetPolicyFirewall_scheme" where
  "SetPowerSaveTrustlist uids isAllowed s =
     (if length uids > MAX_LIST_SIZE then (NETMANAGER_ERR_PARAMETER_ERROR, s)
      else case powerSaveFirewallRule s of None \<Rightarrow> (NETMANAGER_ERR_LOCAL_PTR_NULL, s)
      | Some r \<Rightarrow>
        if isAllowed \<and> card (f_powerSaveAllowedList s) + length uids > MAX_LIST_SIZE then (NETMANAGER_ERR_PARAMETER_ERROR, s)
        else let s = UpdateFirewallPolicyList FIREWALL_CHAIN_POWER_SAVE uids isAllowed s;
                 s = WriteFirewallRules FIREWALL_CHAIN_POWER_SAVE (f_powerSaveAllowedList s) (f_powerSaveDeniedList s) s;
                 (r, s) = SetAllowed_uids uids (if isAllowed then FIREWALL_RULE_ALLOW else FIREWALL_RULE_DENY) r s;
                 s = s \<lparr> powerSaveFirewallRule := Some r \<rparr>;
                 s = ReportFirewallPolicyChange ''SetPowerSaveTrustlist'' FIREWALL_CHAIN_POWER_SAVE (f_powerSaveMode s) (Some r) s
             in (NETMANAGER_SUCCESS, SendEvent (Some Firewall) MSG_POWER_SAVE_LIST_UPDATED
                  (new_event \<lparr> ev_powerSaveList := f_powerSaveAllowedList s \<rparr>) s))"

definition GetDeviceIdleTrustlist :: "'a NetPolicyFirewall_scheme \<Rightarrow> int + u32 list" where
  "GetDeviceIdleTrustlist s = (case deviceIdleFirewallRule s of None \<Rightarrow> Inl NETMANAGER_ERR_LOCAL_PTR_NULL | Some r \<Rightarrow> Inr (allowedList r))"

definition GetPowerSaveTrustlist :: "'a NetPolicyFirewall_scheme \<Rightarrow> int + u32 list" where
  "GetPowerSaveTrustlist s = (case powerSaveFirewallRule s of None \<Rightarrow> Inl NETMANAGER_ERR_LOCAL_PTR_NULL | Some r \<Rightarrow> Inr (allowedList r))"

definition UpdateDeviceIdlePolicy :: "bool \<Rightarrow> 'a NetPolicyFirewall_scheme \<Rightarrow> int \<times> 'a NetPolicyFirewall_scheme" where
  "UpdateDeviceIdlePolicy enable s =
     (if f_deviceIdleMode s = enable then (NETMANAGER_ERR_STATUS_EXIST, s)
      else case deviceIdleFirewallRule s of None \<Rightarrow> (NETMANAGER_ERR_LOCAL_PTR_NULL, s)
      | Some r \<Rightarrow>
        let s = (if enable then SetAllowed_chain r s else s);
            s = EnableFirewall enable r s;
            s = s \<lparr> f_deviceIdleMode := enable \<rparr>;
            s = ReportFirewallPolicyChange ''UpdateDeviceIdlePolicy'' FIREWALL_CHAIN_DEVICE_IDLE enable (Some r) s
        in (NETMANAGER_SUCCESS, SendEvent (Some Firewall) MSG_DEVICE_IDLE_MODE_CHANGED (new_event \<lparr> ev_deviceIdleMode := enable \<rparr>) s))"

definition UpdatePowerSavePolicy :: "bool \<Rightarrow> 'a NetPolicyFirewall_scheme \<Rightarrow> int \<times> 'a NetPolicyFirewall_scheme" where
  "UpdatePowerSavePolicy enable s =
     (if f_powerSaveMode s = enable then (NETMANAGER_ERR_STATUS_EXIST, s)
      else case powerSaveFirewallRule s of None \<Rightarrow> (NETMANAGER_ERR_LOCAL_PTR_NULL, s)
      | Some r \<Rightarrow>
        let s = (if enable then SetAllowed_chain r s else emit [ClearFirewallAllRules] s);
            s = EnableFirewall enable r s;
            s = s \<lparr> f_powerSaveMode := enable \<rparr>;
            s = ReportFirewallPolicyChange ''UpdatePowerSavePolicy'' FIREWALL_CHAIN_POWER_SAVE enable (Some r) s
        in (NETMANAGER_SUCCESS, SendEvent (Some Firewall) MSG_POWER_SAVE_MODE_CHANGED (new_event \<lparr> ev_powerSaveMode := enable \<rparr>) s))"

definition UpdateIdleDenyPolicy :: "bool \<Rightarrow> 'a NetPolicyFirewall_scheme \<Rightarrow> int \<times> 'a NetPolicyFirewall_scheme" where
  "UpdateIdleDenyPolicy enable s =
     (if f_idleDenyMode s = enable then (NETMANAGER_ERR_STATUS_EXIST, s)
      else case idleDenyFirewallRule s of None \<Rightarrow> (NETMANAGER_ERR_LOCAL_PTR_NULL, s)
      | Some r \<Rightarrow>
        let s = EnableFirewall enable r s;
            s = ReportFirewallPolicyChange ''UpdateIdleDenyPolicy'' FIREWALL_CHAIN_IDLE_DENY enable (Some r) s
        in (NETMANAGER_SUCCESS, s \<lparr> f_idleDenyMode := enable \<rparr>))"

definition SetUidsDeniedListChain :: "u32 list \<Rightarrow> bool \<Rightarrow> 'a NetPolicyFirewall_scheme \<Rightarrow> int \<times> 'a NetPolicyFirewall_scheme" where
  "SetUidsDeniedListChain uids isAdd s =
     (if length uids > MAX_LIST_SIZE then (NETMANAGER_ERR_PARAMETER_ERROR, s)
      else case idleDenyFirewallRule s of None \<Rightarrow> (NETMANAGER_ERR_LOCAL_PTR_NULL, s)
      | Some r \<Rightarrow>
        let (r, s) = SetDenied_uids uids (if isAdd then FIREWALL_RULE_DENY else FIREWALL_RULE_ALLOW) r s;
            s = s \<lparr> idleDenyFirewallRule := Some r \<rparr>
        in (NETMANAGER_SUCCESS,
            ReportFirewallPolicyChange ''SetUidsDeniedListChain'' FIREWALL_CHAIN_IDLE_DENY (f_idleDenyMode s) (Some r) s))"

text \<open>The first half of \<^verbatim>\<open>ResetPolicies\<close>, up to the second file write; False when one of its early returns was taken.\<close>

definition fw_clear_lists :: "'a NetPolicyFirewall_scheme \<Rightarrow> bool \<times> 'a NetPolicyFirewall_scheme" where
  "fw_clear_lists s =
     (case deviceIdleFirewallRule s of None \<Rightarrow> (False, s) | Some di \<Rightarrow>
      let (di, s) = ClearAllowedList di s; (di, s) = ClearDeniedList di s; s = s \<lparr> deviceIdleFirewallRule := Some di \<rparr> in
      case powerSaveFirewallRule s of None \<Rightarrow> (False, s) | Some ps \<Rightarrow>
      let (ps, s) = ClearAllowedList ps s; (ps, s) = ClearDeniedList ps s; s = s \<lparr> powerSaveFirewallRule := Some ps \<rparr> in
      case idleDenyFirewallRule s of None \<Rightarrow> (False, s) | Some idl \<Rightarrow>
      let (idl, s) = ClearDeniedList idl s;
          s = s \<lparr> idleDenyFirewallRule := Some idl, f_deviceIdleAllowedList := {}, f_deviceIdleDeniedList := {} \<rparr>;
          s = WriteFirewallRules FIREWALL_CHAIN_DEVICE_IDLE {} {} s;
          s = s \<lparr> f_powerSaveAllowedList := {}, f_powerSaveDeniedList := {} \<rparr>
      in (True, WriteFirewallRules FIREWALL_CHAIN_POWER_SAVE {} {} s))"

definition fw_ResetPolicies :: "'a NetPolicyFirewall_scheme \<Rightarrow> 'a NetPolicyFirewall_scheme" where
  "fw_ResetPolicies s =
     (let (cleared, s) = fw_clear_lists s in
      if cleared then
        let s = snd (UpdateDeviceIdlePolicy False s); s = snd (UpdatePowerSavePolicy False s)
        in snd (UpdateIdleDenyPolicy False s)
      else s)"

definition fw_DeleteUid :: "u32 \<Rightarrow> 'a NetPolicyFirewall_scheme \<Rightarrow> 'a NetPolicyFirewall_scheme" where
  "fw_DeleteUid uid s =
     (let s = snd (SetDeviceIdleTrustlist [uid] False s);
          s = snd (SetPowerSaveTrustlist [uid] False s)
      in s \<lparr> deviceIdleFirewallRule := map_option (RemoveFromAllowedList uid) (deviceIdleFirewallRule s),
             powerSaveFirewallRule := map_option (RemoveFromAllowedList uid) (powerSaveFirewallRule s) \<rparr>)"

definition fw_HandleEvent :: "PolicyEvent \<Rightarrow> 'a NetPolicyFirewall_scheme \<Rightarrow> 'a NetPolicyFirewall_scheme" where
  "fw_HandleEvent e s =
     (if eventId e = MSG_UID_REMOVED then fw_DeleteUid (ev_deletedUid e) s
      else if eventId e = MSG_POWER_SAVE_MODE_CHANGED then snd (UpdatePowerSavePolicy (ev_powerSaveMode e) s)
      else s)"

subsection \<open>Invariant\<close>

definition trusts :: "FirewallRule \<Rightarrow> u32 set \<Rightarrow> bool" where
  "trusts r A \<longleftrightarrow> distinct (allowedList r) \<and> set (allowedList r) = A"

definition chain_ok :: "FirewallRule option \<Rightarrow> u32 \<Rightarrow> u32 set \<Rightarrow> bool" where
  "chain_ok opt chain A = (case opt of None \<Rightarrow> False | Some r \<Rightarrow> chainType r = chain \<and> trusts r A \<and> card A \<le> MAX_LIST_SIZE)"

definition fw_ok :: "'a NetPolicyFirewall_scheme \<Rightarrow> bool" where
  "fw_ok s \<longleftrightarrow> chain_ok (deviceIdleFirewallRule s) FIREWALL_CHAIN_DEVICE_IDLE (f_deviceIdleAllowedList s)
     \<and> chain_ok (powerSaveFirewallRule s) FIREWALL_CHAIN_POWER_SAVE (f_powerSaveAllowedList s)
     \<and> map_option chainType (idleDenyFirewallRule s) = Some FIREWALL_CHAIN_IDLE_DENY"

lemma SetAllowed_uid_type [simp]: "chainType (SetAllowed_uid u rule r) = chainType r"
  by (simp add: SetAllowed_uid_def)

lemma fold_allowed_type [simp]: "chainType (fold (\<lambda>u. SetAllowed_uid u rule) us r) = chainType r"
  by (induction us arbitrary: r) simp_all

lemma trusts_allow: "trusts r A \<Longrightarrow> trusts (fold (\<lambda>u. SetAllowed_uid u FIREWALL_RULE_ALLOW) us r) (A \<union> set us)"
proof (induction us arbitrary: r A)
  case (Cons u us)
  have "trusts (SetAllowed_uid u FIREWALL_RULE_ALLOW r) (insert u A)"
    using Cons.prems by (auto simp: trusts_def SetAllowed_uid_def)
  from Cons.IH [OF this] show ?case by simp
qed simp

lemma trusts_deny: "trusts r A \<Longrightarrow> trusts (fold (\<lambda>u. SetAllowed_uid u FIREWALL_RULE_DENY) us r) (A - set us)"
proof (induction us arbitrary: r A)
  case (Cons u us)
  have "trusts (SetAllowed_uid u FIREWALL_RULE_DENY r) (A - {u})"
    using Cons.prems by (simp add: trusts_def SetAllowed_uid_def chain_consts set_remove1_eq)
  from Cons.IH [OF this] show ?case by (simp add: Diff_insert2 [symmetric] set_diff_eq) 
qed simp

lemma SetAllowed_set_trusts: "trusts r A \<Longrightarrow> trusts (fst (SetAllowed_set B r s)) (A \<union> B)"
  using trusts_allow [of r A "sorted_list_of_set B"] by (simp add: SetAllowed_set_def Let_def)

lemma chain_ok_update:
  assumes "chain_ok (Some r) chain A" "isAllowed \<longrightarrow> card A + length us \<le> MAX_LIST_SIZE"
  shows "chain_ok (Some (fold (\<lambda>u. SetAllowed_uid u (if isAllowed then FIREWALL_RULE_ALLOW else FIREWALL_RULE_DENY)) us r)) chain
    (if isAllowed then A \<union> set us else A - set us)"
proof -
  have "card (A \<union> set us) \<le> card A + length us" using card_Un_le [of A "set us"] card_length [of us] by linarith
  moreover have "card (A - set us) \<le> card A" by (simp add: card_mono)
  ultimately show ?thesis using assms trusts_allow [of r A us] trusts_deny [of r A us] by (auto simp: chain_ok_def)
qed

lemmas fw_prims = emit_def SendEvent_def WriteFirewallRules_def WriteFile_def ReportFirewallPolicyChange_def EnableFirewall_def
  SetAllowed_chain_def SetDenied_chain_def SetAllowed_uids_def UpdateFirewallPolicyList_def Let_def

lemma SUCCESS_neq [simp]: "NETMANAGER_ERR_PARAMETER_ERROR \<noteq> NETMANAGER_SUCCESS" "NETMANAGER_ERR_LOCAL_PTR_NULL \<noteq> NETMANAGER_SUCCESS"
  "NETMANAGER_ERR_STATUS_EXIST \<noteq> NETMANAGER_SUCCESS"
  by (simp_all add: NETMANAGER_ERR_PARAMETER_ERROR_def NETMANAGER_ERR_LOCAL_PTR_NULL_def NETMANAGER_ERR_STATUS_EXIST_def
      NETMANAGER_SUCCESS_def)

lemma idle_list_update:
  fixes us b s
  defines "t \<equiv> SetDeviceIdleTrustlist us b s"
  assumes ok: "fw_ok s"
  shows "fw_ok (snd t)" "fst t \<noteq> NETMANAGER_SUCCESS \<Longrightarrow> snd t = s"
    "fst t = NETMANAGER_SUCCESS \<Longrightarrow> f_deviceIdleAllowedList (snd t) =
      (if b then f_deviceIdleAllowedList s \<union> set us else f_deviceIdleAllowedList s - set us)"
    "fst t = NETMANAGER_SUCCESS \<longleftrightarrow> length us \<le> MAX_LIST_SIZE \<and> (b \<longrightarrow> card (f_deviceIdleAllowedList s) + length us \<le> MAX_LIST_SIZE)"
proof -
  obtain r where r: "deviceIdleFirewallRule s = Some r" "chain_ok (Some r) FIREWALL_CHAIN_DEVICE_IDLE (f_deviceIdleAllowedList s)"
    using ok by (auto simp: fw_ok_def chain_ok_def split: option.splits)
  show "fst t \<noteq> NETMANAGER_SUCCESS \<Longrightarrow> snd t = s" "fst t = NETMANAGER_SUCCESS \<Longrightarrow> f_deviceIdleAllowedList (snd t) =
      (if b then f_deviceIdleAllowedList s \<union> set us else f_deviceIdleAllowedList s - set us)"
    "fst t = NETMANAGER_SUCCESS \<longleftrightarrow> length us \<le> MAX_LIST_SIZE \<and> (b \<longrightarrow> card (f_deviceIdleAllowedList s) + length us \<le> MAX_LIST_SIZE)"
    unfolding t_def SetDeviceIdleTrustlist_def r(1) by (auto simp: fw_prims not_less split: if_splits)
  show "fw_ok (snd t)"
    using ok chain_ok_update [OF r(2), of b us] unfolding t_def SetDeviceIdleTrustlist_def r(1) fw_ok_def
    by (auto simp: fw_prims r(1))
qed

lemma power_list_update:
  fixes us b s
  defines "t \<equiv> SetPowerSaveTrustlist us b s"
  assumes ok: "fw_ok s"
  shows "fw_ok (snd t)" "fst t \<noteq> NETMANAGER_SUCCESS \<Longrightarrow> snd t = s"
    "fst t = NETMANAGER_SUCCESS \<Longrightarrow> f_powerSaveAllowedList (snd t) =
      (if b then f_powerSaveAllowedList s \<union> set us else f_powerSaveAllowedList s - set us)"
    "fst t = NETMANAGER_SUCCESS \<longleftrightarrow> length us \<le> MAX_LIST_SIZE \<and> (b \<longrightarrow> card (f_powerSaveAllowedList s) + length us \<le> MAX_LIST_SIZE)"
proof -
  obtain r where r: "powerSaveFirewallRule s = Some r" "chain_ok (Some r) FIREWALL_CHAIN_POWER_SAVE (f_powerSaveAllowedList s)"
    using ok by (auto simp: fw_ok_def chain_ok_def split: option.splits)
  show "fst t \<noteq> NETMANAGER_SUCCESS \<Longrightarrow> snd t = s" "fst t = NETMANAGER_SUCCESS \<Longrightarrow> f_powerSaveAllowedList (snd t) =
      (if b then f_powerSaveAllowedList s \<union> set us else f_powerSaveAllowedList s - set us)"
    "fst t = NETMANAGER_SUCCESS \<longleftrightarrow> length us \<le> MAX_LIST_SIZE \<and> (b \<longrightarrow> card (f_powerSaveAllowedList s) + length us \<le> MAX_LIST_SIZE)"
    unfolding t_def SetPowerSaveTrustlist_def r(1) by (auto simp: fw_prims chain_consts not_less split: if_splits)
  show "fw_ok (snd t)"
    using ok chain_ok_update [OF r(2), of b us] unfolding t_def SetPowerSaveTrustlist_def r(1) fw_ok_def
    by (auto simp: fw_prims FIREWALL_CHAIN_DEVICE_IDLE_def FIREWALL_CHAIN_POWER_SAVE_def r(1))
qed

text \<open>The contract of a trust list, for its clients: an update either fails and changes nothing, or adds or removes exactly the given
  user ids; the list never exceeds its limit.\<close>

locale trust_list =
  fixes ok :: "'s \<Rightarrow> bool" and members :: "'s \<Rightarrow> u32 set" and update :: "u32 list \<Rightarrow> bool \<Rightarrow> 's \<Rightarrow> int \<times> 's"
  assumes ok_update: "ok s \<Longrightarrow> ok (snd (update us b s))"
    and update_fails: "ok s \<Longrightarrow> fst (update us b s) \<noteq> NETMANAGER_SUCCESS \<Longrightarrow> snd (update us b s) = s"
    and update_works: "ok s \<Longrightarrow> fst (update us b s) = NETMANAGER_SUCCESS \<Longrightarrow>
      members (snd (update us b s)) = (if b then members s \<union> set us else members s - set us)"
    and limit: "ok s \<Longrightarrow> card (members s) \<le> MAX_LIST_SIZE"
begin

definition updates :: "(u32 list \<times> bool) list \<Rightarrow> 's \<Rightarrow> 's" where
  "updates ops s = fold (\<lambda>(us, b) s. snd (update us b s)) ops s"

lemma updates_ok: "ok s \<Longrightarrow> ok (updates ops s)"
  by (induction ops arbitrary: s) (auto simp: updates_def ok_update)

lemma updates_limit: "ok s \<Longrightarrow> card (members (updates ops s)) \<le> MAX_LIST_SIZE"
  by (rule limit [OF updates_ok])

lemma unnamed_kept: "ok s \<Longrightarrow> u \<notin> set us \<Longrightarrow> u \<in> members (snd (update us b s)) \<longleftrightarrow> u \<in> members s"
  by (cases "fst (update us b s) = NETMANAGER_SUCCESS") (auto simp: update_works update_fails)

lemma last_update_decides:
  assumes "ok s" "fst (update us b (updates ops s)) = NETMANAGER_SUCCESS" "u \<in> set us"
    and "\<And>us' b'. (us', b') \<in> set later \<Longrightarrow> u \<notin> set us'"
  shows "u \<in> members (updates later (snd (update us b (updates ops s)))) \<longleftrightarrow> b"
proof -
  define t where "t = snd (update us b (updates ops s))"
  have t: "ok t" "u \<in> members t \<longleftrightarrow> b" using assms(1-3) by (simp_all add: t_def ok_update updates_ok update_works)
  have "u \<in> members (updates later t) \<longleftrightarrow> b" using assms(4)
  proof (induction later rule: rev_induct)
    case (snoc op later)
    then show ?case using unnamed_kept [OF updates_ok [OF t(1), of later], of u "fst op" "snd op"]
      by (cases op) (fastforce simp: updates_def)
  qed (simp add: updates_def t)
  then show ?thesis by (simp add: t_def)
qed

end

lemma fw_ok_limits: "fw_ok s \<Longrightarrow> card (f_deviceIdleAllowedList s) \<le> MAX_LIST_SIZE"
  "fw_ok s \<Longrightarrow> card (f_powerSaveAllowedList s) \<le> MAX_LIST_SIZE"
  by (auto simp: fw_ok_def chain_ok_def split: option.splits)

interpretation idle_list: trust_list fw_ok f_deviceIdleAllowedList SetDeviceIdleTrustlist
  by unfold_locales (rule idle_list_update fw_ok_limits; assumption)+

interpretation power_list: trust_list fw_ok f_powerSaveAllowedList SetPowerSaveTrustlist
  by unfold_locales (rule power_list_update fw_ok_limits; assumption)+

subsection \<open>The other operations\<close>

text \<open>No operation of this part touches the rules or the bandwidth lists of the daemon.\<close>

definition rules_kept :: "'a NetPolicyRule_scheme \<Rightarrow> 'a NetPolicyRule_scheme \<Rightarrow> bool" where
  "rules_kept s t \<longleftrightarrow> uidPolicyRules t = uidPolicyRules s \<and> same_modes s t \<and> (\<forall>u. bandwidth (calls t) u = bandwidth (calls s) u)"

lemma rules_kept_refl [simp]: "rules_kept s s"
  by (simp add: rules_kept_def)

lemma rules_kept_trans: "rules_kept s t \<Longrightarrow> rules_kept t u \<Longrightarrow> rules_kept s u"
  unfolding rules_kept_def by (metis same_modes_trans)

lemma rules_kept_ok: "rules_kept s t \<Longrightarrow> rule_ok s \<Longrightarrow> rule_ok t" "rules_kept s t \<Longrightarrow> all_fresh s \<Longrightarrow> all_fresh t"
  by (auto simp: rules_kept_def rule_ok_def all_fresh_def fresh_same)

lemmas fw_ops = UpdateDeviceIdlePolicy_def UpdatePowerSavePolicy_def UpdateIdleDenyPolicy_def SetUidsDeniedListChain_def
  SetDenied_uids_def fw_prims

lemma fw_rules_kept:
  "rules_kept s (snd (SetDeviceIdleTrustlist us b s))" "rules_kept s (snd (SetPowerSaveTrustlist us b s))"
  "rules_kept s (snd (UpdateDeviceIdlePolicy b s))" "rules_kept s (snd (UpdatePowerSavePolicy b s))"
  "rules_kept s (snd (UpdateIdleDenyPolicy b s))" "rules_kept s (snd (SetUidsDeniedListChain us b s))"
  by (simp_all add: SetDeviceIdleTrustlist_def SetPowerSaveTrustlist_def fw_ops rules_kept_def same_modes_def bandwidth_append
      split: option.splits)

lemma mode_ops_ok:
  assumes "fw_ok s"
  shows "fw_ok (snd (UpdateDeviceIdlePolicy b s))" "fw_ok (snd (UpdatePowerSavePolicy b s))" "fw_ok (snd (UpdateIdleDenyPolicy b s))"
  using assms by (auto simp: fw_ok_def fw_ops split: option.splits)

lemma fold_deny_type [simp]: "chainType (fold (deny_step rule) us r) = chainType r"
  by (induction us arbitrary: r) (simp_all add: deny_step_def)

lemma deny_op_ok: "fw_ok s \<Longrightarrow> fw_ok (snd (SetUidsDeniedListChain us b s))"
  by (auto simp: fw_ok_def fw_ops split: option.splits)

lemma remove_ok:
  assumes "chain_ok opt chain A" "u \<notin> A"
  shows "chain_ok (map_option (RemoveFromAllowedList u) opt) chain A"
  using assms by (auto simp: chain_ok_def trusts_def RemoveFromAllowedList_def remove1_idem split: option.splits)

lemma fw_DeleteUid_ok:
  assumes ok: "fw_ok s"
  shows "fw_ok (fw_DeleteUid uid s)" "rules_kept s (fw_DeleteUid uid s)"
    "uid \<notin> f_deviceIdleAllowedList (fw_DeleteUid uid s)" "uid \<notin> f_powerSaveAllowedList (fw_DeleteUid uid s)"
proof -
  let ?s1 = "snd (SetDeviceIdleTrustlist [uid] False s)"
  let ?s2 = "snd (SetPowerSaveTrustlist [uid] False ?s1)"
  have ok1: "fw_ok ?s1" and ok2: "fw_ok ?s2" using ok by (simp_all add: idle_list_update power_list_update)
  have "uid \<notin> f_deviceIdleAllowedList ?s1"
    using idle_list_update(3, 4) [OF ok, of "[uid]" False] by (simp add: MAX_LIST_SIZE_def)
  moreover have "f_deviceIdleAllowedList ?s2 = f_deviceIdleAllowedList ?s1"
    by (simp add: SetPowerSaveTrustlist_def fw_prims chain_consts split: option.splits)
  ultimately have u: "uid \<notin> f_deviceIdleAllowedList ?s2" "uid \<notin> f_powerSaveAllowedList ?s2"
    using power_list_update(3, 4) [OF ok1, of "[uid]" False] by (simp_all add: MAX_LIST_SIZE_def)
  show "fw_ok (fw_DeleteUid uid s)"
    using ok2 u unfolding fw_DeleteUid_def Let_def fw_ok_def by (simp add: remove_ok)
  show "uid \<notin> f_deviceIdleAllowedList (fw_DeleteUid uid s)" "uid \<notin> f_powerSaveAllowedList (fw_DeleteUid uid s)"
    using u by (simp_all add: fw_DeleteUid_def Let_def)
  have "rules_kept ?s2 (fw_DeleteUid uid s)" by (simp add: fw_DeleteUid_def Let_def rules_kept_def same_modes_def)
  then show "rules_kept s (fw_DeleteUid uid s)" using rules_kept_trans fw_rules_kept(1, 2) by blast
qed

lemma fw_HandleEvent_ok: "fw_ok s \<Longrightarrow> fw_ok (fw_HandleEvent e s)" "fw_ok s \<Longrightarrow> rules_kept s (fw_HandleEvent e s)"
  by (simp_all add: fw_HandleEvent_def fw_DeleteUid_ok mode_ops_ok fw_rules_kept)

lemma fw_clear_lists_ok:
  assumes ok: "fw_ok s"
  defines "t \<equiv> snd (fw_clear_lists s)"
  shows "fst (fw_clear_lists s)" "fw_ok t" "rules_kept s t" "f_deviceIdleAllowedList t = {}" "f_powerSaveAllowedList t = {}"
    "f_deviceIdleMode t = f_deviceIdleMode s" "f_powerSaveMode t = f_powerSaveMode s" "events t = events s"
proof -
  obtain di ps idl where r: "deviceIdleFirewallRule s = Some di" "powerSaveFirewallRule s = Some ps" "idleDenyFirewallRule s = Some idl"
    "chainType di = FIREWALL_CHAIN_DEVICE_IDLE" "chainType ps = FIREWALL_CHAIN_POWER_SAVE" "chainType idl = FIREWALL_CHAIN_IDLE_DENY"
    using ok by (auto simp: fw_ok_def chain_ok_def split: option.splits)
  show "fst (fw_clear_lists s)" "fw_ok t" "rules_kept s t" "f_deviceIdleAllowedList t = {}" "f_powerSaveAllowedList t = {}"
    "f_deviceIdleMode t = f_deviceIdleMode s" "f_powerSaveMode t = f_powerSaveMode s" "events t = events s"
    unfolding t_def
    by (simp_all add: r fw_clear_lists_def ClearAllowedList_def ClearDeniedList_def fw_prims fw_ok_def chain_ok_def trusts_def
        rules_kept_def same_modes_def bandwidth_append)
qed

lemma fw_ResetPolicies_ok:
  assumes ok: "fw_ok s"
  shows "fw_ok (fw_ResetPolicies s)" "rules_kept s (fw_ResetPolicies s)"
proof -
  let ?t = "snd (fw_clear_lists s)"
  have eq: "fw_ResetPolicies s = snd (UpdateIdleDenyPolicy False (snd (UpdatePowerSavePolicy False (snd (UpdateDeviceIdlePolicy False ?t)))))"
    using fw_clear_lists_ok(1) [OF ok] by (simp add: fw_ResetPolicies_def split_beta Let_def)
  show "fw_ok (fw_ResetPolicies s)" using fw_clear_lists_ok(2) [OF ok] by (simp add: eq mode_ops_ok)
  show "rules_kept s (fw_ResetPolicies s)"
    unfolding eq by (meson rules_kept_trans fw_rules_kept fw_clear_lists_ok(3) [OF ok])
qed

text \<open>The lists that \<^verbatim>\<open>Init\<close> reads from the file are those that an earlier run stored, within the limit.\<close>

lemma chain_lists_put [simp]: "chain_lists c (np \<lparr> netFirewallRules := map_put d l m \<rparr>) =
  (if c = d then l else chain_lists c (np \<lparr> netFirewallRules := m \<rparr>))"
  by (simp add: chain_lists_def)

lemma fw_Init_ok:
  assumes stored: "card (file_allowedList (chain_lists FIREWALL_CHAIN_DEVICE_IDLE (netPolicy s))) \<le> MAX_LIST_SIZE"
    "card (file_allowedList (chain_lists FIREWALL_CHAIN_POWER_SAVE (netPolicy s))) \<le> MAX_LIST_SIZE"
    and start: "f_deviceIdleAllowedList s = {}" "f_powerSaveAllowedList s = {}"
  shows "fw_ok (fw_Init s)" "rules_kept s (fw_Init s)"
    "f_deviceIdleAllowedList (fw_Init s) = file_allowedList (chain_lists FIREWALL_CHAIN_DEVICE_IDLE (netPolicy s))"
    "f_powerSaveAllowedList (fw_Init s) = file_allowedList (chain_lists FIREWALL_CHAIN_POWER_SAVE (netPolicy s))"
    "events (fw_Init s) = events s" "f_powerSaveMode (fw_Init s) = f_powerSaveMode s"
proof -
  have t: "trusts \<lparr> chainType = c, allowedList = [], deniedList = [] \<rparr> {}" for c by (simp add: trusts_def)
  have fold: "trusts (fold (\<lambda>u. SetAllowed_uid u FIREWALL_RULE_ALLOW) (sorted_list_of_set A) \<lparr> chainType = c, allowedList = [], deniedList = [] \<rparr>) A"
    for c A using trusts_allow [OF t, where us = "sorted_list_of_set A"] by simp
  show "fw_ok (fw_Init s)" "rules_kept s (fw_Init s)"
    "f_deviceIdleAllowedList (fw_Init s) = file_allowedList (chain_lists FIREWALL_CHAIN_DEVICE_IDLE (netPolicy s))"
    "f_powerSaveAllowedList (fw_Init s) = file_allowedList (chain_lists FIREWALL_CHAIN_POWER_SAVE (netPolicy s))"
    "events (fw_Init s) = events s" "f_powerSaveMode (fw_Init s) = f_powerSaveMode s"
    using stored by (simp_all add: fold fw_Init_def CreateFirewallRule_def ReadFirewallRules_def SetAllowed_set_def fw_prims start fw_ok_def chain_ok_def
        rules_kept_def same_modes_def bandwidth_append FIREWALL_CHAIN_DEVICE_IDLE_def FIREWALL_CHAIN_POWER_SAVE_def)
qed

subsection \<open>The deny list\<close>

lemma fold_deny_set:
  assumes "distinct us"
  shows "set (deniedList (fold (deny_step FIREWALL_RULE_DENY) us r)) =
    (set (deniedList r) - set us) \<union> (set us - set (deniedList r))"
  using assms
proof (induction us arbitrary: r)
  case (Cons u us)
  then have "u \<notin> set us" by simp
  then show ?case using Cons.IH [of "deny_step FIREWALL_RULE_DENY u r"] Cons.prems
    by (auto simp: deny_step_def)
qed simp

lemma fold_allow_set: "set (deniedList (fold (deny_step FIREWALL_RULE_ALLOW) us r)) = set (deniedList r) - set us"
  by (induction us arbitrary: r) (auto simp: deny_step_def chain_consts)

text \<open>The state before \<^verbatim>\<open>Init\<close>, with nothing stored.\<close>

definition new_manager :: "NetPolicy \<Rightarrow> NetPolicyFirewall" where
  "new_manager np = NetPolicyRule.extend (new_rules np) (NetPolicyFirewall.fields None None None False False False {} {} {} {})"

lemma new_manager_sel [simp]: "deviceIdleFirewallRule (new_manager np) = None" "powerSaveFirewallRule (new_manager np) = None"
  "idleDenyFirewallRule (new_manager np) = None" "f_deviceIdleAllowedList (new_manager np) = {}"
  "f_powerSaveAllowedList (new_manager np) = {}" "\<not> f_deviceIdleMode (new_manager np)" "\<not> f_powerSaveMode (new_manager np)"
  "netPolicy (new_manager np) = np" "events (new_manager np) = []" "rule_start (new_manager np)"
  by (simp_all add: new_manager_def NetPolicyRule.extend_def NetPolicyFirewall.fields_def new_rules_def rule_start_def bandwidth_def)

text \<open>C28: \<^verbatim>\<open>SetUidsDeniedListChain\<close> with \<^verbatim>\<open>isAdd\<close> exchanges the given user ids in the idle deny list: those that were not denied are
  added, and those that were already denied are taken off; the daemon is sent the resulting list.\<close>

theorem deny_list_exchanges:
  assumes "idleDenyFirewallRule s = Some r" "distinct us" "length us \<le> MAX_LIST_SIZE"
    and "SetUidsDeniedListChain us True s = (code, t)"
  shows "\<exists>r'. code = NETMANAGER_SUCCESS \<and> idleDenyFirewallRule t = Some r' \<and>
    set (deniedList r') = (set (deniedList r) - set us) \<union> (set us - set (deniedList r)) \<and>
    FirewallSetUidsDeniedListChain (chainType r) (deniedList r') \<in> set (calls t)"
  using assms(1, 3, 4) fold_deny_set [OF assms(2), of r]
  by (auto simp: SetUidsDeniedListChain_def SetDenied_uids_def fw_prims)

definition denying :: "u32 list \<Rightarrow> NetPolicyFirewall" where
  "denying us = (new_manager empty_store)
     \<lparr> idleDenyFirewallRule := Some \<lparr> chainType = FIREWALL_CHAIN_IDLE_DENY, allowedList = [], deniedList = us \<rparr> \<rparr>"

theorem deny_list_exchanges_witness:
  "\<exists>r'. idleDenyFirewallRule (snd (SetUidsDeniedListChain [10001] True (denying [10001, 10002]))) = Some r' \<and>
    set (deniedList r') = {10002}"
  using deny_list_exchanges [of "denying [10001, 10002]" _ "[10001]", OF _ _ _ prod.collapse [symmetric]]
  by (auto simp: denying_def MAX_LIST_SIZE_def)

end
