(* ===== verification/Po_Traffic.thy ===== *)
theory Po_Traffic
  imports Po_Firewall
begin

text \<open>
  Quota policies: \<^verbatim>\<open>NetQuotaPolicy\<close> (\<^verbatim>\<open>net_quota_policy.cpp\<close>) and \<^verbatim>\<open>NetPolicyTraffic\<close> (\<^verbatim>\<open>net_policy_traffic.cpp\<close>). The clock, the
  time zone functions of the C library and the answers of the connection and statistics services are the record \<^verbatim>\<open>quota_env\<close>, an
  argument of every operation; it is constant during one operation. Sums and products of 64-bit integers wrap around
  (\<^verbatim>\<open>wrap64\<close>). \<^verbatim>\<open>iface_quotas\<close> reads the interface quotas of the daemon off the calls made so far. The theorems relate them to the
  metered interfaces, and state what becomes of thresholds that are not given.
\<close>

definition wrap64 :: "int \<Rightarrow> int" where
  "wrap64 x = (x + 2 ^ 63) mod 2 ^ 64 - 2 ^ 63"

definition c_div :: "int \<Rightarrow> int \<Rightarrow> int" where
  "c_div a b = (if 0 \<le> a then a div b else - (- a div b))"

subsection \<open>Environment\<close>

record tm =
  tm_sec :: int
  tm_min :: int
  tm_hour :: int
  tm_mday :: int
  tm_mon :: int
  tm_year :: int
  tm_wday :: int
  tm_yday :: int
  tm_isdst :: int

record quota_env =
  time_now :: int
  localtime_r :: "int \<Rightarrow> tm"
  mktime :: "tm \<Rightarrow> int"
  GetIfaceNameByType :: "int \<Rightarrow> string \<Rightarrow> string"
  GetIfaceStatsDetail :: "string \<Rightarrow> int \<Rightarrow> int \<Rightarrow> 64 word \<times> 64 word"

subsection \<open>One quota policy\<close>

definition PERIOD_DURATION_SIZE :: nat where "PERIOD_DURATION_SIZE = 2"
definition PERIOD_START :: int where "PERIOD_START = 1"
definition DAY_MAX :: int where "DAY_MAX = 31"
definition MONTH_MAX :: int where "MONTH_MAX = 12"
definition YEAR_MAX :: int where "YEAR_MAX = 366"
definition LONG_MAX :: int where "LONG_MAX = 2 ^ 63 - 1"
definition QUOTA_POLICY_NO_PERIOD :: string where "QUOTA_POLICY_NO_PERIOD = ''--''"

definition IsOverWarning :: "int \<Rightarrow> NetQuotaPolicy \<Rightarrow> bool" where
  "IsOverWarning totalQuota q \<longleftrightarrow> totalQuota > warningBytes (quotapolicy q)"

definition IsOverLimit :: "int \<Rightarrow> NetQuotaPolicy \<Rightarrow> bool" where
  "IsOverLimit totalQuota q \<longleftrightarrow> totalQuota > limitBytes (quotapolicy q)"

text \<open>The callers pass a copy of the policy, so that the repaired duration is not kept.\<close>

definition GetPeriodStart :: "quota_env \<Rightarrow> NetQuotaPolicy \<Rightarrow> int" where
  "GetPeriodStart env q =
     (let d = (if length (periodDuration (quotapolicy q)) < PERIOD_DURATION_SIZE then ''M'' else periodDuration (quotapolicy q));
          now = time_now env
      in if now < 0 then - 1
         else let tm = localtime_r env now; cycle = take 1 d; start = StrToInt (drop 1 d) 0;
                  tm = (if cycle = ''D'' then tm \<lparr> tm_hour := start, tm_min := 0, tm_sec := 0 \<rparr>
                        else if cycle = ''Y'' then tm \<lparr> tm_hour := 0, tm_min := 0, tm_sec := 0, tm_yday := start - 1 \<rparr>
                        else tm \<lparr> tm_hour := 0, tm_min := 0, tm_sec := 0, tm_mday := start \<rparr>)
              in mktime env tm)"

definition Reset :: "NetQuotaPolicy \<Rightarrow> NetQuotaPolicy" where
  "Reset q = q \<lparr> quotapolicy := (quotapolicy q) \<lparr> periodDuration := ''M1'', warningBytes := DATA_USAGE_UNKNOWN,
     limitBytes := DATA_USAGE_UNKNOWN, lastWarningRemind := REMIND_NEVER, lastLimitRemind := REMIND_NEVER, metered := False,
     limitAction := LIMIT_ACTION_NONE \<rparr> \<rparr>"

subsection \<open>Validity\<close>

definition IsValidNetType :: "int \<Rightarrow> bool" where
  "IsValidNetType nt \<longleftrightarrow> nt \<in> {0, 1, 2, 3, 4, 5}"

definition IsValidNetRemindType :: "u32 \<Rightarrow> bool" where
  "IsValidNetRemindType remindType \<longleftrightarrow> remindType = 1 \<or> remindType = 2"

definition IsValidPeriodDuration :: "string \<Rightarrow> bool" where
  "IsValidPeriodDuration d \<longleftrightarrow>
     (if d = [] \<or> length d < PERIOD_DURATION_SIZE then False
      else let cycle = take 1 d; start = StrToInt (drop 1 d) 0 in
           (cycle = ''D'' \<and> start \<ge> PERIOD_START \<and> start \<le> DAY_MAX) \<or>
           (cycle = ''M'' \<and> start \<ge> PERIOD_START \<and> start \<le> MONTH_MAX) \<or>
           (cycle = ''Y'' \<and> start \<ge> PERIOD_START \<and> start \<le> YEAR_MAX))"

definition IsValidQuotaPolicy :: "NetQuotaPolicy \<Rightarrow> bool" where
  "IsValidQuotaPolicy q \<longleftrightarrow> IsValidNetType (netType (networkmatchrule q)) \<and> IsValidPeriodDuration (periodDuration (quotapolicy q))"

text \<open>The body of the loop of \<^verbatim>\<open>FormalizeQuotaPolicies\<close>, for a valid policy.\<close>

definition formalize :: "NetQuotaPolicy \<Rightarrow> NetQuotaPolicy" where
  "formalize q =
     (let p = quotapolicy q;
          p = (if limitBytes p = DATA_USAGE_UNKNOWN then p \<lparr> limitAction := LIMIT_ACTION_ALERT_ONLY \<rparr>
               else if warningBytes p = DATA_USAGE_UNKNOWN then p \<lparr> warningBytes := c_div (wrap64 (limitBytes p * 90)) 100 \<rparr>
               else p);
          p = (if limitAction p = LIMIT_ACTION_ALERT_ONLY then p \<lparr> limitBytes := DATA_USAGE_UNLIMITED \<rparr> else p);
          p = (if warningBytes p > limitBytes p then p \<lparr> warningBytes := DATA_USAGE_UNLIMITED \<rparr> else p);
          p = (if limitBytes p = DATA_USAGE_UNLIMITED then p \<lparr> limitAction := LIMIT_ACTION_ALERT_ONLY \<rparr> else p)
      in q \<lparr> quotapolicy := p \<rparr>)"

subsection \<open>State\<close>

record NetPolicyTraffic = NetPolicyFirewall +
  quotaPolicies :: "NetQuotaPolicy list"
  meteredIfaces :: "string list"

definition FormalizeQuotaPolicies :: "NetQuotaPolicy list \<Rightarrow> 'a NetPolicyTraffic_scheme \<Rightarrow> 'a NetPolicyTraffic_scheme" where
  "FormalizeQuotaPolicies qs s = s \<lparr> quotaPolicies := map formalize (filter IsValidQuotaPolicy qs) \<rparr>"

definition GetMatchIfaces :: "quota_env \<Rightarrow> NetQuotaPolicy \<Rightarrow> string" where
  "GetMatchIfaces env q =
     (let r = networkmatchrule q;
          idt = (if netType r = 0 then ''simId'' @ simId r
                 else if netType r = 1 then ident r
                 else if netType r = 3 then ident r
                 else [])
      in if netType r \<ge> BEARER_DEFAULT then [] else GetIfaceNameByType env (netType r) idt)"

definition GetTotalQuota :: "quota_env \<Rightarrow> NetQuotaPolicy \<Rightarrow> int" where
  "GetTotalQuota env q =
     (let iface = GetMatchIfaces env q; start = GetPeriodStart env q; e = time_now env in
      if e < 0 then 0
      else let (rxBytes, txBytes) = GetIfaceStatsDetail env iface start e; quota = sint (rxBytes + txBytes)
           in if quota < 0 then 0 else quota)"

definition GetQuotaRemain :: "quota_env \<Rightarrow> NetQuotaPolicy \<Rightarrow> int" where
  "GetQuotaRemain env q =
     (let start = GetPeriodStart env q; totalQuota = GetTotalQuota env q; p = quotapolicy q;
          hasLimit = (limitBytes p \<noteq> DATA_USAGE_UNKNOWN)
      in if (hasLimit \<or> metered p) \<and> hasLimit \<and> periodDuration p \<noteq> QUOTA_POLICY_NO_PERIOD then
           if lastLimitRemind p \<ge> start then LONG_MAX
           else let quota = wrap64 (limitBytes p - totalQuota) in if quota < 0 then 0 else quota
         else LONG_MAX)"

fun set_quotas :: "quota_env \<Rightarrow> NetQuotaPolicy list \<Rightarrow> 'a policy_base_scheme \<Rightarrow> string list \<times> 'a policy_base_scheme" where
  "set_quotas env [] s = ([], s)"
| "set_quotas env (q # qs) s =
     (let iface = GetMatchIfaces env q in
      if iface = [] \<or> \<not> metered (quotapolicy q) then set_quotas env qs s
      else let quotaRemain = GetQuotaRemain env q;
               s = (if quotaRemain \<ge> 0 then emit [BandwidthSetIfaceQuota iface quotaRemain] s else s);
               (ifaces, s) = set_quotas env qs s
           in (iface # ifaces, s))"

definition UpdateMeteredIfacesQuota :: "quota_env \<Rightarrow> 'a NetPolicyTraffic_scheme \<Rightarrow> string list \<times> 'a NetPolicyTraffic_scheme" where
  "UpdateMeteredIfacesQuota env s =
     (let (newMeteredIfaces, s) = set_quotas env (quotaPolicies s) s
      in (newMeteredIfaces, emit (map BandwidthRemoveIfaceQuota (filter (\<lambda>i. i \<notin> set newMeteredIfaces) (meteredIfaces s))) s))"

definition UpdateMeteredIfaces :: "string list \<Rightarrow> 'a NetPolicyTraffic_scheme \<Rightarrow> 'a NetPolicyTraffic_scheme" where
  "UpdateMeteredIfaces newMeteredIfaces s =
     NotifyNetMeteredIfacesChange newMeteredIfaces (s \<lparr> meteredIfaces := newMeteredIfaces \<rparr>)"

definition NotifyQuotaWarning :: "int \<Rightarrow> 'a policy_base_scheme \<Rightarrow> 'a policy_base_scheme" where
  "NotifyQuotaWarning totalQuota s = emit [QuotaBroadcast ''usual.event.QUOTA_WARNING'' totalQuota] s"

definition NotifyQuotaLimitReminded :: "int \<Rightarrow> 'a policy_base_scheme \<Rightarrow> 'a policy_base_scheme" where
  "NotifyQuotaLimitReminded totalQuota s = emit [QuotaBroadcast ''usual.event.NET_QUOTA_LIMIT_REMINDED'' totalQuota] s"

definition NotifyQuotaLimit :: "int \<Rightarrow> 'a policy_base_scheme \<Rightarrow> 'a policy_base_scheme" where
  "NotifyQuotaLimit totalQuota s = emit [QuotaBroadcast ''usual.event.NET_QUOTA_LIMIT'' totalQuota] s"

definition notify_quota :: "quota_env \<Rightarrow> NetQuotaPolicy \<Rightarrow> 'a policy_base_scheme \<Rightarrow> 'a policy_base_scheme" where
  "notify_quota env q s =
     (let start = GetPeriodStart env q; totalQuota = GetTotalQuota env q in
      if IsOverLimit totalQuota q then
        if lastLimitRemind (quotapolicy q) > start then NotifyQuotaLimitReminded totalQuota s
        else NotifyQuotaLimit totalQuota s
      else if IsOverWarning totalQuota q \<and> lastWarningRemind (quotapolicy q) < start then NotifyQuotaWarning totalQuota s
      else s)"

definition UpdateQuotaNotify :: "quota_env \<Rightarrow> 'a NetPolicyTraffic_scheme \<Rightarrow> 'a NetPolicyTraffic_scheme" where
  "UpdateQuotaNotify env s = fold (notify_quota env) (quotaPolicies s) s"

definition UpdateQuotaPoliciesInner :: "quota_env \<Rightarrow> 'a NetPolicyTraffic_scheme \<Rightarrow> int \<times> 'a NetPolicyTraffic_scheme" where
  "UpdateQuotaPoliciesInner env s =
     (let (ifaces, s) = UpdateMeteredIfacesQuota env s;
          s = UpdateMeteredIfaces ifaces s;
          s = UpdateQuotaNotify env s;
          (written, s) = file_WriteQuotaPolicies (quotaPolicies s) s
      in if \<not> written then (NETMANAGER_ERR_WRITE_DATA_FAIL, s)
         else (NETMANAGER_SUCCESS, NotifyNetQuotaPolicyChange (quotaPolicies s) s))"

subsection \<open>Operations\<close>

definition UpdateQuotaPolicies :: "quota_env \<Rightarrow> NetQuotaPolicy list \<Rightarrow> 'a NetPolicyTraffic_scheme \<Rightarrow> int \<times> 'a NetPolicyTraffic_scheme" where
  "UpdateQuotaPolicies env qs s =
     (if qs = [] then (POLICY_ERR_INVALID_QUOTA_POLICY, s) else UpdateQuotaPoliciesInner env (FormalizeQuotaPolicies qs s))"

definition GetNetQuotaPolicies :: "'a NetPolicyTraffic_scheme \<Rightarrow> int \<times> NetQuotaPolicy list" where
  "GetNetQuotaPolicies s = (NETMANAGER_SUCCESS, quotaPolicies s)"

definition remind :: "quota_env \<Rightarrow> u32 \<Rightarrow> NetQuotaPolicy \<Rightarrow> NetQuotaPolicy" where
  "remind env remindType q =
     (if remindType = 1 then q \<lparr> quotapolicy := (quotapolicy q) \<lparr> lastWarningRemind := time_now env \<rparr> \<rparr>
      else q \<lparr> quotapolicy := (quotapolicy q) \<lparr> lastLimitRemind := time_now env \<rparr> \<rparr>)"

definition UpdateRemindPolicy ::
  "quota_env \<Rightarrow> int \<Rightarrow> string \<Rightarrow> u32 \<Rightarrow> 'a NetPolicyTraffic_scheme \<Rightarrow> int \<times> 'a NetPolicyTraffic_scheme" where
  "UpdateRemindPolicy env nt sim remindType s =
     (if \<not> IsValidNetType nt then (NETMANAGER_ERR_PARAMETER_ERROR, s)
      else if \<not> IsValidNetRemindType remindType then (NETMANAGER_ERR_PARAMETER_ERROR, s)
      else (NETMANAGER_SUCCESS, snd (UpdateQuotaPoliciesInner env (s \<lparr> quotaPolicies :=
        map (\<lambda>q. if netType (networkmatchrule q) = nt \<and> simId (networkmatchrule q) = sim then remind env remindType q else q)
          (quotaPolicies s) \<rparr>))))"

definition IsMeteredIfaces :: "string \<Rightarrow> 'a NetPolicyTraffic_scheme \<Rightarrow> bool" where
  "IsMeteredIfaces ifaceName s \<longleftrightarrow> ifaceName \<in> set (meteredIfaces s)"

definition traffic_ResetPolicies_sim :: "quota_env \<Rightarrow> string \<Rightarrow> 'a NetPolicyTraffic_scheme \<Rightarrow> int \<times> 'a NetPolicyTraffic_scheme" where
  "traffic_ResetPolicies_sim env sim s = UpdateQuotaPoliciesInner env
     (s \<lparr> quotaPolicies := map (\<lambda>q. if simId (networkmatchrule q) = sim then Reset q else q) (quotaPolicies s) \<rparr>)"

definition traffic_ResetPolicies :: "quota_env \<Rightarrow> 'a NetPolicyTraffic_scheme \<Rightarrow> int \<times> 'a NetPolicyTraffic_scheme" where
  "traffic_ResetPolicies env s = UpdateQuotaPoliciesInner env (s \<lparr> quotaPolicies := map Reset (quotaPolicies s) \<rparr>)"

definition ReachedLimit :: "quota_env \<Rightarrow> string \<Rightarrow> 'a NetPolicyTraffic_scheme \<Rightarrow> 'a NetPolicyTraffic_scheme" where
  "ReachedLimit env iface s = (if IsMeteredIfaces iface s then snd (UpdateQuotaPoliciesInner env s) else s)"

definition UpdateNetPolicy :: "quota_env \<Rightarrow> 'a NetPolicyTraffic_scheme \<Rightarrow> 'a NetPolicyTraffic_scheme" where
  "UpdateNetPolicy env s = snd (UpdateQuotaPoliciesInner env s)"

definition ToQuotaPolicy :: "NetPolicyQuota \<Rightarrow> NetQuotaPolicy \<Rightarrow> NetQuotaPolicy" where
  "ToQuotaPolicy e q = q
     \<lparr> quotapolicy := (quotapolicy q) \<lparr> lastLimitRemind := StrToLong (q_lastLimitSnooze e) REMIND_NEVER,
         limitBytes := StrToLong (q_limitBytes e) DATA_USAGE_UNKNOWN, metered := StrToBool (q_metered e) False,
         periodDuration := q_periodDuration e, periodStartTime := StrToLong (q_periodStartTime e) 0,
         warningBytes := StrToLong (q_warningBytes e) DATA_USAGE_UNKNOWN \<rparr>,
       networkmatchrule := \<lparr> netType = StrToInt (q_netType e) BEARER_DEFAULT, simId = q_simId e, ident = q_ident e \<rparr> \<rparr>"

fun read_quotas :: "NetPolicyQuota list \<Rightarrow> NetQuotaPolicy \<Rightarrow> NetQuotaPolicy list" where
  "read_quotas [] tmp = []"
| "read_quotas (e # es) tmp = (let tmp = ToQuotaPolicy e tmp in tmp # read_quotas es tmp)"

definition file_ReadQuotaPolicies :: "'a policy_base_scheme \<Rightarrow> NetQuotaPolicy list" where
  "file_ReadQuotaPolicies s = read_quotas (netQuotaPolicies (netPolicy s)) new_quota_policy"

definition ReadQuotaPolicies :: "quota_env \<Rightarrow> 'a NetPolicyTraffic_scheme \<Rightarrow> 'a NetPolicyTraffic_scheme" where
  "ReadQuotaPolicies env s =
     snd (UpdateQuotaPoliciesInner env (s \<lparr> quotaPolicies := quotaPolicies s @ file_ReadQuotaPolicies s \<rparr>))"

definition traffic_Init :: "quota_env \<Rightarrow> 'a NetPolicyTraffic_scheme \<Rightarrow> 'a NetPolicyTraffic_scheme" where
  "traffic_Init env s = ReadQuotaPolicies env s"

definition IsQuotaPolicyExist :: "int \<Rightarrow> string \<Rightarrow> 'a policy_base_scheme \<Rightarrow> bool" where
  "IsQuotaPolicyExist nt sim s \<longleftrightarrow>
     (\<exists>q\<in>set (file_ReadQuotaPolicies s). nt = netType (networkmatchrule q) \<and> sim = simId (networkmatchrule q))"

subsection \<open>Quotas of the daemon\<close>

fun iface_quota_call :: "policy_call \<Rightarrow> (string \<rightharpoonup> int) \<Rightarrow> (string \<rightharpoonup> int)" where
  "iface_quota_call (BandwidthSetIfaceQuota i v) m = m(i \<mapsto> v)"
| "iface_quota_call (BandwidthRemoveIfaceQuota i) m = m(i := None)"
| "iface_quota_call _ m = m"

definition iface_quotas :: "policy_call list \<Rightarrow> (string \<rightharpoonup> int)" where
  "iface_quotas cs = fold iface_quota_call cs Map.empty"

definition quota_ok :: "'a NetPolicyTraffic_scheme \<Rightarrow> bool" where
  "quota_ok s \<longleftrightarrow> dom (iface_quotas (calls s)) = set (meteredIfaces s)"

text \<open>The quota that the policies ask for on an interface: the rest of the last metered policy that matches it.\<close>

definition wanted_quota :: "quota_env \<Rightarrow> NetQuotaPolicy list \<Rightarrow> string \<Rightarrow> int option" where
  "wanted_quota env qs i =
     (let ms = filter (\<lambda>q. metered (quotapolicy q) \<and> GetMatchIfaces env q = i) qs in
      if i = [] \<or> ms = [] then None else Some (GetQuotaRemain env (last ms)))"

subsection \<open>One update of all quotas\<close>

lemma wrap64_id: "- (2 ^ 63) \<le> x \<Longrightarrow> x < 2 ^ 63 \<Longrightarrow> wrap64 x = x"
  by (simp add: wrap64_def)

lemma wrap64_range: "- (2 ^ 63) \<le> wrap64 x" "wrap64 x < 2 ^ 63"
  using pos_mod_bound [of "2 ^ 64" "x + 2 ^ 63"] pos_mod_sign [of "2 ^ 64" "x + 2 ^ 63"] by (simp_all add: wrap64_def)

lemma GetTotalQuota_nonneg [simp]: "0 \<le> GetTotalQuota env q"
  by (simp add: GetTotalQuota_def Let_def split_beta)

lemma GetQuotaRemain_range: "0 \<le> GetQuotaRemain env q" "GetQuotaRemain env q \<le> LONG_MAX"
  using wrap64_range(2) [of "limitBytes (quotapolicy q) - GetTotalQuota env q"]
  by (simp_all add: GetQuotaRemain_def Let_def LONG_MAX_def)

lemma emit_emit [simp]: "emit ds (emit cs s) = emit (cs @ ds) s" "emit [] s = s"
  by (simp_all add: emit_def)

lemma emit_sel [simp]: "calls (emit cs s) = calls s @ cs" "netPolicy (emit cs s) = netPolicy s" "events (emit cs s) = events s"
  "callbacks (emit cs s) = callbacks s" "file_writes (emit cs s) = file_writes s"
  by (simp_all add: emit_def)

lemma emit_traffic [simp]: "quotaPolicies (emit cs t) = quotaPolicies t" "meteredIfaces (emit cs t) = meteredIfaces t"
  for t :: "'a NetPolicyTraffic_scheme"
  by (simp_all add: emit_def)

definition metered_policies :: "quota_env \<Rightarrow> NetQuotaPolicy list \<Rightarrow> NetQuotaPolicy list" where
  "metered_policies env qs = filter (\<lambda>q. GetMatchIfaces env q \<noteq> [] \<and> metered (quotapolicy q)) qs"

lemma set_quotas_eq: "set_quotas env qs s = (map (GetMatchIfaces env) (metered_policies env qs),
    emit (map (\<lambda>q. BandwidthSetIfaceQuota (GetMatchIfaces env q) (GetQuotaRemain env q)) (metered_policies env qs)) s)"
  by (induction env qs s rule: set_quotas.induct) (simp_all add: metered_policies_def Let_def GetQuotaRemain_range)

definition quota_broadcast :: "quota_env \<Rightarrow> NetQuotaPolicy \<Rightarrow> policy_call list" where
  "quota_broadcast env q =
     (let start = GetPeriodStart env q; total = GetTotalQuota env q in
      if IsOverLimit total q then [QuotaBroadcast (if lastLimitRemind (quotapolicy q) > start
        then ''usual.event.NET_QUOTA_LIMIT_REMINDED'' else ''usual.event.NET_QUOTA_LIMIT'') total]
      else if IsOverWarning total q \<and> lastWarningRemind (quotapolicy q) < start
        then [QuotaBroadcast ''usual.event.QUOTA_WARNING'' total] else [])"

lemma notify_quota_eq: "notify_quota env q s = emit (quota_broadcast env q) s"
  by (simp add: notify_quota_def quota_broadcast_def NotifyQuotaLimit_def NotifyQuotaLimitReminded_def NotifyQuotaWarning_def Let_def)

lemma notify_quotas_eq: "fold (notify_quota env) qs s = emit (concat (map (quota_broadcast env) qs)) s"
  by (induction qs arbitrary: s) (simp_all add: notify_quota_eq)

text \<open>The calls of one update, in order: quotas set, quotas removed, metered interfaces, thresholds, changed policies.\<close>

definition update_calls :: "quota_env \<Rightarrow> 'a NetPolicyTraffic_scheme \<Rightarrow> policy_call list" where
  "update_calls env s =
     (let ms = metered_policies env (quotaPolicies s); ifaces = map (GetMatchIfaces env) ms in
      map (\<lambda>q. BandwidthSetIfaceQuota (GetMatchIfaces env q) (GetQuotaRemain env q)) ms
      @ map BandwidthRemoveIfaceQuota (filter (\<lambda>i. i \<notin> set ifaces) (meteredIfaces s))
      @ map (\<lambda>cb. NetMeteredIfacesChange cb ifaces) (callbacks s)
      @ concat (map (quota_broadcast env) (quotaPolicies s))
      @ (if quotaPolicies s = [] then [] else map (\<lambda>cb. NetQuotaPolicyChange cb (quotaPolicies s)) (callbacks s)))"

lemma Inner_result:
  fixes env s
  defines "t \<equiv> snd (UpdateQuotaPoliciesInner env s)"
  shows "fst (UpdateQuotaPoliciesInner env s) = NETMANAGER_SUCCESS"
    "calls t = calls s @ update_calls env s" "quotaPolicies t = quotaPolicies s"
    "meteredIfaces t = map (GetMatchIfaces env) (metered_policies env (quotaPolicies s))" "events t = events s"
    "netQuotaPolicies (netPolicy t) = write_quotas (quotaPolicies s) []"
  unfolding t_def
  by (simp_all add: UpdateQuotaPoliciesInner_def UpdateMeteredIfacesQuota_def set_quotas_eq UpdateMeteredIfaces_def UpdateQuotaNotify_def
      notify_quotas_eq NotifyNetMeteredIfacesChange_def NotifyNetQuotaPolicyChange_def file_WriteQuotaPolicies_def WriteFile_def
      file_defaults_def update_calls_def Let_def)

lemma iface_quotas_append: "iface_quotas (cs @ ds) = fold iface_quota_call ds (iface_quotas cs)"
  by (simp add: iface_quotas_def)

lemma quota_calls_neutral: "\<forall>c\<in>set cs. \<forall>i v. c \<noteq> BandwidthSetIfaceQuota i v \<and> c \<noteq> BandwidthRemoveIfaceQuota i \<Longrightarrow>
    fold iface_quota_call cs m = m"
proof (induction cs arbitrary: m)
  case (Cons c cs)
  then have "iface_quota_call c m = m" by (cases c) auto
  then show ?case using Cons by simp
qed simp

lemma quota_removals: "fold iface_quota_call (map BandwidthRemoveIfaceQuota is) m i = (if i \<in> set is then None else m i)"
  by (induction "is" arbitrary: m) auto

lemma quota_settings: "fold iface_quota_call (map (\<lambda>q. BandwidthSetIfaceQuota (f q) (g q)) qs) m i =
    (if filter (\<lambda>q. f q = i) qs = [] then m i else Some (g (last (filter (\<lambda>q. f q = i) qs))))"
  by (induction qs arbitrary: m) auto

lemma wanted_quota_metered: "wanted_quota env qs i =
    (let ms = filter (\<lambda>q. GetMatchIfaces env q = i) (metered_policies env qs) in
     if ms = [] then None else Some (GetQuotaRemain env (last ms)))"
proof (cases "i = []")
  case True
  then show ?thesis by (simp add: wanted_quota_def metered_policies_def filter_empty_conv)
next
  case False
  then have "filter (\<lambda>q. GetMatchIfaces env q = i) (metered_policies env qs) =
      filter (\<lambda>q. metered (quotapolicy q) \<and> GetMatchIfaces env q = i) qs"
    unfolding metered_policies_def filter_filter by (metis (lifting))
  with False show ?thesis by (simp add: wanted_quota_def)
qed

lemma update_calls_quotas:
  "fold iface_quota_call (update_calls env s) m i =
    (case wanted_quota env (quotaPolicies s) i of None \<Rightarrow> if i \<in> set (meteredIfaces s) then None else m i | Some v \<Rightarrow> Some v)"
proof -
  let ?ms = "metered_policies env (quotaPolicies s)"
  let ?rest = "map (\<lambda>cb. NetMeteredIfacesChange cb (map (GetMatchIfaces env) ?ms)) (callbacks s)
      @ concat (map (quota_broadcast env) (quotaPolicies s))
      @ (if quotaPolicies s = [] then [] else map (\<lambda>cb. NetQuotaPolicyChange cb (quotaPolicies s)) (callbacks s))"
  have rest: "fold iface_quota_call ?rest m' = m'" for m'
    by (rule quota_calls_neutral) (auto simp: quota_broadcast_def Let_def split: if_splits)
  have "filter (\<lambda>q. GetMatchIfaces env q = i) ?ms = [] \<longleftrightarrow> i \<notin> GetMatchIfaces env ` set ?ms" by (auto simp: filter_empty_conv)
  then show ?thesis
    unfolding update_calls_def Let_def fold_append comp_apply rest [unfolded fold_append comp_apply] quota_removals quota_settings
      wanted_quota_metered by auto
qed

lemma Inner_quotas:
  assumes "quota_ok s"
  shows "iface_quotas (calls (snd (UpdateQuotaPoliciesInner env s))) = wanted_quota env (quotaPolicies s)"
    "set (meteredIfaces (snd (UpdateQuotaPoliciesInner env s))) = dom (wanted_quota env (quotaPolicies s))"
    "quota_ok (snd (UpdateQuotaPoliciesInner env s))"
proof -
  have none: "iface_quotas (calls s) i = None" if "i \<notin> set (meteredIfaces s)" for i
    using assms that by (auto simp: quota_ok_def)
  show q: "iface_quotas (calls (snd (UpdateQuotaPoliciesInner env s))) = wanted_quota env (quotaPolicies s)"
    by (rule ext) (simp add: Inner_result iface_quotas_append update_calls_quotas none split: option.split)
  show m: "set (meteredIfaces (snd (UpdateQuotaPoliciesInner env s))) = dom (wanted_quota env (quotaPolicies s))"
    by (auto simp: Inner_result wanted_quota_metered Let_def dom_def filter_empty_conv)
  show "quota_ok (snd (UpdateQuotaPoliciesInner env s))" unfolding quota_ok_def q m ..
qed

lemma quota_ok_policies [simp]: "quota_ok (s \<lparr> quotaPolicies := qs \<rparr>) = quota_ok s"
  by (simp add: quota_ok_def)

lemma traffic_ops_quota_ok:
  assumes "quota_ok s"
  shows "quota_ok (snd (UpdateQuotaPolicies env qs s))" "quota_ok (snd (UpdateRemindPolicy env nt sim r s))"
    "quota_ok (snd (traffic_ResetPolicies_sim env sim s))" "quota_ok (snd (traffic_ResetPolicies env s))"
    "quota_ok (ReachedLimit env iface s)" "quota_ok (UpdateNetPolicy env s)" "quota_ok (traffic_Init env s)"
  using assms by (simp_all add: UpdateQuotaPolicies_def FormalizeQuotaPolicies_def UpdateRemindPolicy_def traffic_ResetPolicies_sim_def
      traffic_ResetPolicies_def ReachedLimit_def UpdateNetPolicy_def traffic_Init_def ReadQuotaPolicies_def Inner_quotas(3))

subsection \<open>Thresholds\<close>

lemma formalize_limits:
  fixes q
  defines "p \<equiv> quotapolicy (formalize q)"
  shows "limitBytes p \<noteq> DATA_USAGE_UNKNOWN" "limitAction p = LIMIT_ACTION_ALERT_ONLY \<longleftrightarrow> limitBytes p = DATA_USAGE_UNLIMITED"
    "warningBytes p \<le> limitBytes p \<or> warningBytes p = DATA_USAGE_UNLIMITED"
  unfolding p_def formalize_def Let_def
  by (auto simp: DATA_USAGE_UNKNOWN_def DATA_USAGE_UNLIMITED_def LIMIT_ACTION_ALERT_ONLY_def)

text \<open>C30: A warning threshold that is not given becomes nine tenths of the limit, as long as the product fits into 64 bits; for the value
  that stands for no limit the product wraps around and the threshold becomes 0, so that any traffic is over it.\<close>

theorem default_warning:
  assumes "warningBytes (quotapolicy q) = DATA_USAGE_UNKNOWN"
  shows "(0 \<le> limitBytes (quotapolicy q) \<and> limitBytes (quotapolicy q) \<le> LONG_MAX div 90 \<longrightarrow>
      warningBytes (quotapolicy (formalize q)) = limitBytes (quotapolicy q) * 90 div 100) \<and>
    (limitBytes (quotapolicy q) = DATA_USAGE_UNLIMITED \<longrightarrow>
      warningBytes (quotapolicy (formalize q)) = 0 \<and> (\<forall>total. 0 < total \<longrightarrow> IsOverWarning total (formalize q)))"
proof (intro conjI impI)
  assume l: "0 \<le> limitBytes (quotapolicy q) \<and> limitBytes (quotapolicy q) \<le> LONG_MAX div 90"
  then have "wrap64 (limitBytes (quotapolicy q) * 90) = limitBytes (quotapolicy q) * 90"
    by (intro wrap64_id) (simp_all add: LONG_MAX_def)
  moreover have "limitBytes (quotapolicy q) * 90 div 100 \<le> limitBytes (quotapolicy q)" using l by linarith
  moreover have "limitBytes (quotapolicy q) \<le> DATA_USAGE_UNLIMITED"
    using l by (simp add: LONG_MAX_def DATA_USAGE_UNLIMITED_def)
  ultimately show "warningBytes (quotapolicy (formalize q)) = limitBytes (quotapolicy q) * 90 div 100"
    using assms l by (simp add: formalize_def c_div_def Let_def DATA_USAGE_UNKNOWN_def)
next
  assume "limitBytes (quotapolicy q) = DATA_USAGE_UNLIMITED"
  then show "warningBytes (quotapolicy (formalize q)) = 0"
    using assms by (simp add: formalize_def c_div_def wrap64_def Let_def DATA_USAGE_UNKNOWN_def DATA_USAGE_UNLIMITED_def)
  then show "\<forall>total. 0 < total \<longrightarrow> IsOverWarning total (formalize q)" by (simp add: IsOverWarning_def)
qed

definition quota_of :: "string \<Rightarrow> int \<Rightarrow> NetQuotaPolicy" where
  "quota_of sim limit = \<lparr> networkmatchrule = \<lparr> netType = 0, simId = sim, ident = [] \<rparr>,
     quotapolicy = (quotapolicy new_quota_policy) \<lparr> limitBytes := limit, metered := True \<rparr> \<rparr>"

lemma quota_of_sel [simp]: "warningBytes (quotapolicy (quota_of sim l)) = DATA_USAGE_UNKNOWN" "limitBytes (quotapolicy (quota_of sim l)) = l"
  "networkmatchrule (quota_of sim l) = \<lparr> netType = 0, simId = sim, ident = [] \<rparr>" "metered (quotapolicy (quota_of sim l))"
  by (simp_all add: quota_of_def new_quota_policy_def)

theorem default_warning_witness: "warningBytes (quotapolicy (formalize (quota_of ''1'' 1000))) = 900 \<and>
    warningBytes (quotapolicy (formalize (quota_of ''1'' DATA_USAGE_UNLIMITED))) = 0"
  using default_warning [OF quota_of_sel(1), of "''1''" 1000] default_warning [OF quota_of_sel(1), of "''1''" DATA_USAGE_UNLIMITED]
  by (simp add: LONG_MAX_def)

text \<open>C31: A reset of the quota policies of a card reports each of them as over its limit, however little traffic there was: the reset limit
  is the value that stands for an unknown limit, and it is not replaced before the comparison.\<close>

theorem reset_reports_limit:
  assumes "q \<in> set (quotaPolicies s)" "simId (networkmatchrule q) = sim" "- 1 \<le> GetPeriodStart env (Reset q)"
  shows "QuotaBroadcast ''usual.event.NET_QUOTA_LIMIT'' (GetTotalQuota env (Reset q)) \<in>
    set (calls (snd (traffic_ResetPolicies_sim env sim s)))"
proof -
  have "limitBytes (quotapolicy (Reset q)) = - 1" by (simp add: Reset_def DATA_USAGE_UNKNOWN_def)
  then have "limitBytes (quotapolicy (Reset q)) < GetTotalQuota env (Reset q)"
    using GetTotalQuota_nonneg [of env "Reset q"] by linarith
  moreover have "lastLimitRemind (quotapolicy (Reset q)) = - 1" by (simp add: Reset_def REMIND_NEVER_def)
  ultimately have "quota_broadcast env (Reset q) = [QuotaBroadcast ''usual.event.NET_QUOTA_LIMIT'' (GetTotalQuota env (Reset q))]"
    using assms(3) by (simp add: quota_broadcast_def IsOverLimit_def Let_def)
  then show ?thesis
    using assms(1, 2) by (force simp: traffic_ResetPolicies_sim_def Inner_result update_calls_def Let_def)
qed

text \<open>An environment with one interface and no traffic.\<close>

definition quiet :: quota_env where
  "quiet = \<lparr> time_now = 1000000, localtime_r = (\<lambda>t. \<lparr> tm_sec = 0, tm_min = 0, tm_hour = 0, tm_mday = 1, tm_mon = 0, tm_year = 70,
     tm_wday = 0, tm_yday = 0, tm_isdst = 0 \<rparr>), mktime = (\<lambda>tm. (tm_mday tm - 1) * 86400 + tm_hour tm * 3600),
     GetIfaceNameByType = (\<lambda>t i. if t = 0 \<and> i = ''simId1'' then ''rmnet0'' else []), GetIfaceStatsDetail = (\<lambda>i a b. (0, 0)) \<rparr>"

definition new_traffic :: "NetPolicy \<Rightarrow> NetQuotaPolicy list \<Rightarrow> NetPolicyTraffic" where
  "new_traffic np qs = NetPolicyFirewall.extend (new_manager np) (NetPolicyTraffic.fields qs [])"

lemma new_traffic_sel [simp]: "quotaPolicies (new_traffic np qs) = qs" "meteredIfaces (new_traffic np qs) = []" "calls (new_traffic np qs) = []"
  "netPolicy (new_traffic np qs) = np" "events (new_traffic np qs) = []" "callbacks (new_traffic np qs) = []"
  by (simp_all add: new_traffic_def NetPolicyFirewall.extend_def NetPolicyTraffic.fields_def new_manager_def NetPolicyRule.extend_def
      NetPolicyFirewall.fields_def new_rules_def)

lemma quiet_total: "GetTotalQuota quiet q = 0"
  by (simp add: GetTotalQuota_def quiet_def Let_def)

theorem reset_reports_limit_witness:
  "QuotaBroadcast ''usual.event.NET_QUOTA_LIMIT'' 0 \<in>
    set (calls (snd (traffic_ResetPolicies_sim quiet ''1'' (new_traffic empty_store [quota_of ''1'' 1000]))))"
proof -
  have "StrToInt ''1'' 0 = 1" by code_simp
  then have "- 1 \<le> GetPeriodStart quiet (Reset (quota_of ''1'' 1000))"
    by (simp add: GetPeriodStart_def Reset_def PERIOD_DURATION_SIZE_def quiet_def Let_def)
  then show ?thesis
    using reset_reports_limit [of "quota_of ''1'' 1000" "new_traffic empty_store [quota_of ''1'' 1000]" "''1''" quiet]
    by (simp add: quiet_total)
qed

subsection \<open>Restart\<close>

lemma to_string_int_inject [simp]: "to_string_int x = to_string_int y \<longleftrightarrow> x = y"
  by (metis strto_to_string option.inject)

text \<open>What the policy file keeps of a policy.\<close>

definition restored :: "NetQuotaPolicy \<Rightarrow> NetQuotaPolicy" where
  "restored q = \<lparr> networkmatchrule = networkmatchrule q, quotapolicy = (quotapolicy new_quota_policy)
     \<lparr> periodStartTime := periodStartTime (quotapolicy q), periodDuration := periodDuration (quotapolicy q),
       warningBytes := warningBytes (quotapolicy q), limitBytes := limitBytes (quotapolicy q),
       lastLimitRemind := lastLimitRemind (quotapolicy q), metered := metered (quotapolicy q) \<rparr> \<rparr>"








lemma restored_restored [simp]: "restored (restored q) = restored q"
  by (simp add: restored_def)




end
