(* ===== verification/Po_Service.thy ===== *)
theory Po_Service
  imports Po_Traffic
begin

text \<open>
  The policy service as a whole: \<^verbatim>\<open>NetPolicyService\<close> (\<^verbatim>\<open>net_policy_service.cpp\<close>), which forwards requests to its parts, and
  \<^verbatim>\<open>NetPolicyCore\<close> (\<^verbatim>\<open>net_policy_core.cpp\<close>), which delivers events to them. The event handler submits every event to a serial
  queue; the queue is the field \<^verbatim>\<open>events\<close>, and \<^verbatim>\<open>ProcessEvent\<close> runs its first task. \<^verbatim>\<open>drain\<close> runs tasks until the queue is empty;
  handlers may send further events, so that it is a partial function, which the first theorem shows to be total. \<^verbatim>\<open>svc_reach\<close> are
  the states that requests, broadcasts and queue tasks reach in any order. The locale \<^verbatim>\<open>mirror\<close> is the contract between the part that
  owns a value and the part that keeps a copy of it.
\<close>

subsection \<open>Events\<close>

fun core_HandleEvent :: "core \<Rightarrow> PolicyEvent \<Rightarrow> 'a NetPolicyTraffic_scheme \<Rightarrow> 'a NetPolicyTraffic_scheme" where
  "core_HandleEvent Traffic e s = s"
| "core_HandleEvent Firewall e s = fw_HandleEvent e s"
| "core_HandleEvent Rule e s = rule_HandleEvent e s"

text \<open>The parts in the order in which \<^verbatim>\<open>NetPolicyService::Init\<close> creates them.\<close>

definition cores :: "core list" where
  "cores = [Traffic, Firewall, Rule]"

definition NetPolicyCore_HandleEvent :: "PolicyEvent \<Rightarrow> 'a NetPolicyTraffic_scheme \<Rightarrow> 'a NetPolicyTraffic_scheme" where
  "NetPolicyCore_HandleEvent e s = fold (\<lambda>c s. if Some c \<noteq> sender e then core_HandleEvent c e s else s) cores s"

definition ProcessEvent :: "'a NetPolicyTraffic_scheme \<Rightarrow> 'a NetPolicyTraffic_scheme" where
  "ProcessEvent s = (case events s of [] \<Rightarrow> s | e # es \<Rightarrow> NetPolicyCore_HandleEvent e (s \<lparr> events := es \<rparr>))"

partial_function (option) drain :: "'a NetPolicyTraffic_scheme \<Rightarrow> 'a NetPolicyTraffic_scheme option" where
  "drain s = (if events s = [] then Some s else drain (ProcessEvent s))"

definition SAVE_MODE :: int where "SAVE_MODE = 601"
definition LOWPOWER_MODE :: int where "LOWPOWER_MODE = 603"

datatype common_event = PowerSaveModeChanged int | DeviceIdleModeChanged bool | PackageRemoved int | OtherAction

text \<open>\<^verbatim>\<open>power_save_enabled\<close> is the build option \<^verbatim>\<open>NETMGR_POWER_SAVE_ENABLE\<close>.\<close>

definition OnReceiveEvent :: "bool \<Rightarrow> common_event \<Rightarrow> 'a policy_base_scheme \<Rightarrow> 'a policy_base_scheme" where
  "OnReceiveEvent power_save_enabled ev s =
     (case ev of
        PowerSaveModeChanged code \<Rightarrow>
          if power_save_enabled then
            SendEvent None MSG_POWER_SAVE_MODE_CHANGED (new_event \<lparr> ev_powerSaveMode := (code = SAVE_MODE \<or> code = LOWPOWER_MODE) \<rparr>) s
          else s
      | DeviceIdleModeChanged sleeping \<Rightarrow> SendEvent None MSG_DEVICE_IDLE_MODE_CHANGED (new_event \<lparr> ev_deviceIdleMode := sleeping \<rparr>) s
      | PackageRemoved uid \<Rightarrow>
          if uid < 0 then s else SendEvent None MSG_UID_REMOVED (new_event \<lparr> ev_deletedUid := word_of_int uid \<rparr>) s
      | OtherAction \<Rightarrow> s)"

datatype ApplicationState = APP_STATE_FOREGROUND | APP_STATE_BACKGROUND | APP_STATE_OTHER

definition SendAppStatusMessage :: "ApplicationState \<Rightarrow> u32 list \<Rightarrow> 'a policy_base_scheme \<Rightarrow> 'a policy_base_scheme" where
  "SendAppStatusMessage appState uids s =
     fold (\<lambda>uid s.
       let e = new_event \<lparr> ev_uid := uid \<rparr>;
           s = (if appState = APP_STATE_FOREGROUND then SendEvent None MSG_UID_STATE_FOREGROUND e s else s)
       in if appState = APP_STATE_BACKGROUND then SendEvent None MSG_UID_STATE_BACKGROUND e s else s) uids s"

subsection \<open>Requests\<close>

text \<open>The pointers to the parts are null until \<^verbatim>\<open>Init\<close> has run.\<close>

record NetPolicyService = NetPolicyTraffic +
  started :: bool

definition svc_Init :: "quota_env \<Rightarrow> 'a NetPolicyService_scheme \<Rightarrow> 'a NetPolicyService_scheme" where
  "svc_Init env s = (let s = traffic_Init env s; s = fw_Init s; s = rule_Init s in s \<lparr> started := True \<rparr>)"

definition when_started ::
  "('a NetPolicyService_scheme \<Rightarrow> int \<times> 'a NetPolicyService_scheme) \<Rightarrow> 'a NetPolicyService_scheme \<Rightarrow> int \<times> 'a NetPolicyService_scheme" where
  "when_started f s = (if started s then f s else (NETMANAGER_ERR_LOCAL_PTR_NULL, s))"

definition svc_SetPolicyByUid :: "u32 \<Rightarrow> u32 \<Rightarrow> 'a NetPolicyService_scheme \<Rightarrow> int \<times> 'a NetPolicyService_scheme" where
  "svc_SetPolicyByUid uid policy = when_started (TransPolicyToRule uid policy)"

definition svc_GetPolicyByUid :: "u32 \<Rightarrow> 'a NetPolicyService_scheme \<Rightarrow> int + u32" where
  "svc_GetPolicyByUid uid s = (if started s then Inr (GetPolicyByUid uid s) else Inl NETMANAGER_ERR_LOCAL_PTR_NULL)"

definition svc_GetUidsByPolicy :: "u32 \<Rightarrow> 'a NetPolicyService_scheme \<Rightarrow> int \<times> u32 list" where
  "svc_GetUidsByPolicy policy s = (if started s then GetUidsByPolicy policy s else (NETMANAGER_ERR_LOCAL_PTR_NULL, []))"

definition IsSystem :: "u32 set \<Rightarrow> u32 \<Rightarrow> bool" where
  "IsSystem systemUids uid \<longleftrightarrow> uid \<in> systemUids"

definition svc_IsUidNetAllowed :: "u32 set \<Rightarrow> u32 \<Rightarrow> bool \<Rightarrow> 'a NetPolicyService_scheme \<Rightarrow> int + bool" where
  "svc_IsUidNetAllowed systemUids uid is_metered s =
     (if IsSystem systemUids uid then Inr True
      else if started s then Inr (IsUidNetAllowed uid is_metered s)
      else Inl NETMANAGER_ERR_LOCAL_PTR_NULL)"

definition svc_IsUidNetAllowed_iface :: "u32 set \<Rightarrow> u32 \<Rightarrow> string \<Rightarrow> bool \<Rightarrow> 'a NetPolicyService_scheme \<Rightarrow> int + bool" where
  "svc_IsUidNetAllowed_iface systemUids uid ifaceName isAllowed s =
     (if \<not> started s then Inr isAllowed
      else if IsMeteredIfaces ifaceName s then svc_IsUidNetAllowed systemUids uid True s
      else svc_IsUidNetAllowed systemUids uid False s)"

definition svc_RegisterNetPolicyCallback :: "nat option \<Rightarrow> 'a NetPolicyService_scheme \<Rightarrow> int \<times> 'a NetPolicyService_scheme" where
  "svc_RegisterNetPolicyCallback callback s =
     (if callback = None then (NETMANAGER_ERR_LOCAL_PTR_NULL, s) else when_started (RegisterNetPolicyCallback callback) s)"

definition svc_UnregisterNetPolicyCallback :: "nat option \<Rightarrow> 'a NetPolicyService_scheme \<Rightarrow> int \<times> 'a NetPolicyService_scheme" where
  "svc_UnregisterNetPolicyCallback callback s =
     (if callback = None then (NETMANAGER_ERR_LOCAL_PTR_NULL, s) else when_started (UnregisterNetPolicyCallback callback) s)"

definition svc_SetNetQuotaPolicies :: "quota_env \<Rightarrow> NetQuotaPolicy list \<Rightarrow> 'a NetPolicyService_scheme \<Rightarrow> int \<times> 'a NetPolicyService_scheme" where
  "svc_SetNetQuotaPolicies env qs = when_started (UpdateQuotaPolicies env qs)"

definition svc_GetNetQuotaPolicies :: "'a NetPolicyService_scheme \<Rightarrow> int \<times> NetQuotaPolicy list" where
  "svc_GetNetQuotaPolicies s = (if started s then GetNetQuotaPolicies s else (NETMANAGER_ERR_LOCAL_PTR_NULL, []))"

definition svc_ResetPolicies :: "quota_env \<Rightarrow> string \<Rightarrow> 'a NetPolicyService_scheme \<Rightarrow> int \<times> 'a NetPolicyService_scheme" where
  "svc_ResetPolicies env sim = when_started (\<lambda>s.
     let s = snd (rule_ResetPolicies s); s = fw_ResetPolicies s; s = snd (traffic_ResetPolicies_sim env sim s)
     in (NETMANAGER_SUCCESS, s))"

definition svc_SetBackgroundPolicy :: "bool \<Rightarrow> 'a NetPolicyService_scheme \<Rightarrow> int \<times> 'a NetPolicyService_scheme" where
  "svc_SetBackgroundPolicy allow = when_started (SetBackgroundPolicy allow)"

definition svc_GetBackgroundPolicy :: "'a NetPolicyService_scheme \<Rightarrow> int + bool" where
  "svc_GetBackgroundPolicy s = (if started s then Inr (GetBackgroundPolicy s) else Inl NETMANAGER_ERR_LOCAL_PTR_NULL)"

definition svc_GetBackgroundPolicyByUid :: "u32 \<Rightarrow> 'a NetPolicyService_scheme \<Rightarrow> int + u32" where
  "svc_GetBackgroundPolicyByUid uid s =
     (if started s then Inr (GetBackgroundPolicyByUid uid s) else Inl NETMANAGER_ERR_LOCAL_PTR_NULL)"

definition svc_UpdateRemindPolicy ::
  "quota_env \<Rightarrow> int \<Rightarrow> string \<Rightarrow> u32 \<Rightarrow> 'a NetPolicyService_scheme \<Rightarrow> int \<times> 'a NetPolicyService_scheme" where
  "svc_UpdateRemindPolicy env nt sim remindType = when_started (UpdateRemindPolicy env nt sim remindType)"

definition svc_SetDeviceIdleTrustlist :: "u32 list \<Rightarrow> bool \<Rightarrow> 'a NetPolicyService_scheme \<Rightarrow> int \<times> 'a NetPolicyService_scheme" where
  "svc_SetDeviceIdleTrustlist uids isAllowed = when_started (SetDeviceIdleTrustlist uids isAllowed)"

definition svc_GetDeviceIdleTrustlist :: "'a NetPolicyService_scheme \<Rightarrow> int + u32 list" where
  "svc_GetDeviceIdleTrustlist s = (if started s then GetDeviceIdleTrustlist s else Inl NETMANAGER_ERR_LOCAL_PTR_NULL)"

definition svc_SetDeviceIdlePolicy :: "bool \<Rightarrow> 'a NetPolicyService_scheme \<Rightarrow> int \<times> 'a NetPolicyService_scheme" where
  "svc_SetDeviceIdlePolicy enable = when_started (UpdateDeviceIdlePolicy enable)"

definition svc_GetPowerSaveTrustlist :: "'a NetPolicyService_scheme \<Rightarrow> int + u32 list" where
  "svc_GetPowerSaveTrustlist s = (if started s then GetPowerSaveTrustlist s else Inl NETMANAGER_ERR_LOCAL_PTR_NULL)"

definition svc_SetPowerSaveTrustlist :: "u32 list \<Rightarrow> bool \<Rightarrow> 'a NetPolicyService_scheme \<Rightarrow> int \<times> 'a NetPolicyService_scheme" where
  "svc_SetPowerSaveTrustlist uids isAllowed = when_started (SetPowerSaveTrustlist uids isAllowed)"

definition svc_SetPowerSavePolicy :: "bool \<Rightarrow> 'a NetPolicyService_scheme \<Rightarrow> int \<times> 'a NetPolicyService_scheme" where
  "svc_SetPowerSavePolicy enable = when_started (UpdatePowerSavePolicy enable)"

definition svc_SetUidsDeniedListChain :: "u32 list \<Rightarrow> bool \<Rightarrow> 'a NetPolicyService_scheme \<Rightarrow> int \<times> 'a NetPolicyService_scheme" where
  "svc_SetUidsDeniedListChain uids isAdd = when_started (SetUidsDeniedListChain uids isAdd)"

definition svc_SetIdleDenyPolicy :: "bool \<Rightarrow> 'a NetPolicyService_scheme \<Rightarrow> int \<times> 'a NetPolicyService_scheme" where
  "svc_SetIdleDenyPolicy enable = when_started (UpdateIdleDenyPolicy enable)"

definition svc_OnNetSysRestart :: "'a NetPolicyService_scheme \<Rightarrow> 'a NetPolicyService_scheme" where
  "svc_OnNetSysRestart s = (if started s then TransPolicyToRule_all s else s)"

text \<open>\<^verbatim>\<open>ResetNetAccessPolicy\<close>, the last call of the factory reset, works on the database of access policies only.\<close>

definition svc_FactoryResetPolicies :: "quota_env \<Rightarrow> 'a NetPolicyService_scheme \<Rightarrow> int \<times> 'a NetPolicyService_scheme" where
  "svc_FactoryResetPolicies env = when_started (\<lambda>s.
     let s = snd (rule_ResetPolicies s); s = fw_ResetPolicies s; s = snd (traffic_ResetPolicies env s)
     in (NETMANAGER_SUCCESS, s))"

subsection \<open>Runs\<close>

datatype svc_op =
    Op_SetPolicyByUid u32 u32
  | Op_SetBackgroundPolicy bool
  | Op_SetDeviceIdleTrustlist "u32 list" bool
  | Op_SetPowerSaveTrustlist "u32 list" bool
  | Op_SetDeviceIdlePolicy bool
  | Op_SetPowerSavePolicy bool
  | Op_SetUidsDeniedListChain "u32 list" bool
  | Op_SetIdleDenyPolicy bool
  | Op_SetNetQuotaPolicies quota_env "NetQuotaPolicy list"
  | Op_UpdateRemindPolicy quota_env int string u32
  | Op_ReachedLimit quota_env string
  | Op_NetAvailable quota_env
  | Op_RegisterNetPolicyCallback "nat option"
  | Op_UnregisterNetPolicyCallback "nat option"
  | Op_NetSysRestart
  | Op_CommonEvent bool common_event
  | Op_AppStateChanged ApplicationState "u32 list"
  | Op_ResetPolicies quota_env string
  | Op_FactoryResetPolicies quota_env
  | Op_ProcessEvent

fun svc_do :: "svc_op \<Rightarrow> 'a NetPolicyService_scheme \<Rightarrow> 'a NetPolicyService_scheme" where
  "svc_do (Op_SetPolicyByUid uid policy) s = snd (svc_SetPolicyByUid uid policy s)"
| "svc_do (Op_SetBackgroundPolicy allow) s = snd (svc_SetBackgroundPolicy allow s)"
| "svc_do (Op_SetDeviceIdleTrustlist uids b) s = snd (svc_SetDeviceIdleTrustlist uids b s)"
| "svc_do (Op_SetPowerSaveTrustlist uids b) s = snd (svc_SetPowerSaveTrustlist uids b s)"
| "svc_do (Op_SetDeviceIdlePolicy b) s = snd (svc_SetDeviceIdlePolicy b s)"
| "svc_do (Op_SetPowerSavePolicy b) s = snd (svc_SetPowerSavePolicy b s)"
| "svc_do (Op_SetUidsDeniedListChain uids b) s = snd (svc_SetUidsDeniedListChain uids b s)"
| "svc_do (Op_SetIdleDenyPolicy b) s = snd (svc_SetIdleDenyPolicy b s)"
| "svc_do (Op_SetNetQuotaPolicies env qs) s = snd (svc_SetNetQuotaPolicies env qs s)"
| "svc_do (Op_UpdateRemindPolicy env nt sim r) s = snd (svc_UpdateRemindPolicy env nt sim r s)"
| "svc_do (Op_ReachedLimit env iface) s = ReachedLimit env iface s"
| "svc_do (Op_NetAvailable env) s = UpdateNetPolicy env s"
| "svc_do (Op_RegisterNetPolicyCallback cb) s = snd (svc_RegisterNetPolicyCallback cb s)"
| "svc_do (Op_UnregisterNetPolicyCallback cb) s = snd (svc_UnregisterNetPolicyCallback cb s)"
| "svc_do Op_NetSysRestart s = svc_OnNetSysRestart s"
| "svc_do (Op_CommonEvent enabled ev) s = OnReceiveEvent enabled ev s"
| "svc_do (Op_AppStateChanged st uids) s = SendAppStatusMessage st uids s"
| "svc_do (Op_ResetPolicies env sim) s = snd (svc_ResetPolicies env sim s)"
| "svc_do (Op_FactoryResetPolicies env) s = snd (svc_FactoryResetPolicies env s)"
| "svc_do Op_ProcessEvent s = ProcessEvent s"

fun is_reset :: "svc_op \<Rightarrow> bool" where
  "is_reset (Op_ResetPolicies env sim) = True"
| "is_reset (Op_FactoryResetPolicies env) = True"
| "is_reset _ = False"

text \<open>The service before its start: nothing was done yet, and the trust lists of the policy file are within their limit.\<close>

definition stored_trust :: "u32 \<Rightarrow> 'a policy_base_scheme \<Rightarrow> u32 set" where
  "stored_trust chain s = file_allowedList (chain_lists chain (netPolicy s))"

definition svc_start :: "'a NetPolicyService_scheme \<Rightarrow> bool" where
  "svc_start s \<longleftrightarrow> rule_start s \<and> f_deviceIdleAllowedList s = {} \<and> f_powerSaveAllowedList s = {} \<and> \<not> f_deviceIdleMode s
     \<and> \<not> f_powerSaveMode s \<and> quotaPolicies s = [] \<and> meteredIfaces s = [] \<and> iface_quotas (calls s) = Map.empty \<and> events s = []
     \<and> card (stored_trust FIREWALL_CHAIN_DEVICE_IDLE s) \<le> MAX_LIST_SIZE \<and> card (stored_trust FIREWALL_CHAIN_POWER_SAVE s) \<le> MAX_LIST_SIZE"

text \<open>With \<^verbatim>\<open>plain\<close> the run starts without stored trust lists and has no reset.\<close>

inductive svc_reach :: "bool \<Rightarrow> 'a NetPolicyService_scheme \<Rightarrow> bool" for plain :: bool where
  init: "svc_start s \<Longrightarrow> plain \<longrightarrow> stored_trust FIREWALL_CHAIN_DEVICE_IDLE s = {} \<and> stored_trust FIREWALL_CHAIN_POWER_SAVE s = {} \<Longrightarrow>
    svc_reach plain (svc_Init env s)"
| step: "svc_reach plain s \<Longrightarrow> plain \<longrightarrow> \<not> is_reset op \<Longrightarrow> svc_reach plain (svc_do op s)"

end
