(* ===== verification/Po_Agree.thy ===== *)
theory Po_Agree
  imports Po_Service
begin

text \<open>
  Properties of the policy service as a whole: the event queue always empties, the parts agree on the values that they share once it has,
  the trust lists are those of the policy file, and the interface quotas of the daemon are those that the quota policies ask for.
\<close>

subsection \<open>What the rule part leaves alone\<close>

definition rule_frame :: "'a NetPolicyRule_scheme \<Rightarrow> 'a NetPolicyRule_scheme \<Rightarrow> bool" where
  "rule_frame s t \<longleftrightarrow> NetPolicyRule.more t = NetPolicyRule.more s \<and> events t = events s
     \<and> netFirewallRules (netPolicy t) = netFirewallRules (netPolicy s) \<and> iface_quotas (calls t) = iface_quotas (calls s)"

lemma rule_frame_refl [simp]: "rule_frame s s"
  by (simp add: rule_frame_def)

lemma rule_frame_trans: "rule_frame s t \<Longrightarrow> rule_frame t u \<Longrightarrow> rule_frame s u"
  by (simp add: rule_frame_def)

lemma rule_frame_update [simp]: "rule_frame s (t \<lparr> uidPolicyRules := m \<rparr>) = rule_frame s t"
  "rule_frame s (t \<lparr> deviceIdleMode := b \<rparr>) = rule_frame s t" "rule_frame s (t \<lparr> powerSaveMode := b \<rparr>) = rule_frame s t"
  "rule_frame s (t \<lparr> backgroundAllow := b \<rparr>) = rule_frame s t" "rule_frame s (t \<lparr> deviceIdleAllowedList := l \<rparr>) = rule_frame s t"
  "rule_frame s (t \<lparr> powerSaveAllowedList := l \<rparr>) = rule_frame s t" "rule_frame s (t \<lparr> foregroundUidList := l \<rparr>) = rule_frame s t"
  by (simp_all add: rule_frame_def)

lemma rule_frame_emit [simp]:
  "\<forall>c\<in>set cs. \<forall>i v. c \<noteq> BandwidthSetIfaceQuota i v \<and> c \<noteq> BandwidthRemoveIfaceQuota i \<Longrightarrow> rule_frame s (emit cs t) = rule_frame s t"
  by (simp add: rule_frame_def emit_def iface_quotas_append quota_calls_neutral)

lemma rule_frame_notify [simp]: "rule_frame s (NotifyNetUidPolicyChange u p t) = rule_frame s t"
  "rule_frame s (NotifyNetUidRuleChange u p t) = rule_frame s t" "rule_frame s (NotifyNetBackgroundPolicyChange b t) = rule_frame s t"
  by (auto simp: NotifyNetUidPolicyChange_def NotifyNetUidRuleChange_def NotifyNetBackgroundPolicyChange_def)

lemma rule_frame_file [simp]: "rule_frame s (WritePolicyByUid_op op u p t) = rule_frame s t"
  "rule_frame s (WritePolicyByUid u p t) = rule_frame s t" "rule_frame s (RemoveInexistentUid u t) = rule_frame s t"
  "rule_frame s (WriteBackgroundPolicy b t) = rule_frame s t"
  by (simp_all add: WritePolicyByUid_def RemoveInexistentUid_def WriteBackgroundPolicy_def WritePolicyByUid_op_def WriteFile_def
      file_defaults_def rule_frame_def Let_def)

lemma rule_frame_NetsysCtrl [simp]: "rule_frame s (NetsysCtrl u n t) = rule_frame s t"
  by (simp add: NetsysCtrl_def ProcessCtrlNone_def ProcessCtrlAddAllowedList_def PowerSaveUpdataAllowedList_def Let_def)

lemma rule_frame_trans_entry [simp]: "rule_frame s (snd (TransConditionToRuleAndNetsys u pr t)) = rule_frame s t"
  by (simp add: TransConditionToRuleAndNetsys_def Let_def)

lemma rule_frame_entries [simp]: "rule_frame s (snd (trans_entries es t)) = rule_frame s t"
  by (induction es arbitrary: t) (simp_all add: trans_entries_Cons Let_def)

lemma rule_frame_ops [simp]: "rule_frame s (TransPolicyToRule_all t) = rule_frame s t" "rule_frame s (retrans u pr t) = rule_frame s t"
  "rule_frame s (TransPolicyToRule_uid u t) = rule_frame s t" "rule_frame s (snd (TransPolicyToRule u p t)) = rule_frame s t"
  "rule_frame s (snd (SetBackgroundPolicy b t)) = rule_frame s t" "rule_frame s (rule_DeleteUid u t) = rule_frame s t"
  by (simp_all add: TransPolicyToRule_all_def retrans_def TransPolicyToRule_uid_def TransPolicyToRule_def SetBackgroundPolicy_def
      rule_DeleteUid_def split_beta Let_def split: option.split)

lemma rule_frame_reset_uids [simp]: "rule_frame s (reset_uids us t) = rule_frame s t"
  by (induction us t rule: reset_uids.induct) simp_all

lemma rule_frame_init_uids [simp]: "rule_frame s (init_uids is t) = rule_frame s t"
  by (induction "is" t rule: init_uids.induct) simp_all

lemma rule_frame_rule [simp]: "rule_frame s (snd (rule_ResetPolicies t)) = rule_frame s t" "rule_frame s (rule_Init t) = rule_frame s t"
  "rule_frame s (rule_HandleEvent e t) = rule_frame s t"
  by (simp_all add: rule_ResetPolicies_def rule_Init_def rule_HandleEvent_def UpdateForegroundUidList_def)

lemma rule_frame_sel:
  assumes "rule_frame s t"
  shows "f_deviceIdleAllowedList t = f_deviceIdleAllowedList s" "f_powerSaveAllowedList t = f_powerSaveAllowedList s"
    "f_powerSaveMode t = f_powerSaveMode s" "deviceIdleFirewallRule t = deviceIdleFirewallRule s"
    "powerSaveFirewallRule t = powerSaveFirewallRule s" "idleDenyFirewallRule t = idleDenyFirewallRule s"
  using assms by (cases s; cases t; simp add: rule_frame_def)+

lemma rule_frame_fw_ok: "rule_frame s t \<Longrightarrow> fw_ok t = fw_ok s"
  by (simp add: fw_ok_def rule_frame_sel)

lemma rule_frame_quota: "rule_frame s t \<Longrightarrow> quota_ok t = quota_ok s" "rule_frame s t \<Longrightarrow> quotaPolicies t = quotaPolicies s"
  for s t :: "'a NetPolicyTraffic_scheme"
  by (cases s; cases t; simp add: rule_frame_def quota_ok_def)+

lemma rule_frame_events: "rule_frame s t \<Longrightarrow> events t = events s"
  by (simp add: rule_frame_def)

text \<open>The copies that the rule part keeps, after an event.\<close>

lemma rule_modes [simp]: "same_modes s (TransPolicyToRule_all s)" "same_modes s (TransPolicyToRule_uid u s)" "same_modes s (rule_DeleteUid u s)"
proof -
  have upd: "same_modes s (t \<lparr> uidPolicyRules := m \<rparr>) = same_modes s t" for s t :: "'a NetPolicyRule_scheme" and m by (simp add: same_modes_def)
  show "same_modes s (TransPolicyToRule_all s)" by (simp add: TransPolicyToRule_all_def split_beta Let_def upd trans_entries_modes)
  show "same_modes s (TransPolicyToRule_uid u s)"
    by (simp add: TransPolicyToRule_uid_def retrans_def split_beta Let_def upd trans_kept split: option.split)
  show "same_modes s (rule_DeleteUid u s)" by (simp add: rule_DeleteUid_def Let_def same_modes_def emit_def RemoveInexistentUid_def)
qed

lemma rule_HandleEvent_copies:
  "powerSaveMode (rule_HandleEvent e s) = (if eventId e = MSG_POWER_SAVE_MODE_CHANGED then ev_powerSaveMode e else powerSaveMode s)"
  "deviceIdleAllowedList (rule_HandleEvent e s) = (if eventId e = MSG_DEVICE_IDLE_LIST_UPDATED then ev_deviceIdleList e else deviceIdleAllowedList s)"
  "powerSaveAllowedList (rule_HandleEvent e s) = (if eventId e = MSG_POWER_SAVE_LIST_UPDATED then ev_powerSaveList e else powerSaveAllowedList s)"
proof -
  have a: "powerSaveMode (TransPolicyToRule_all t) = powerSaveMode t" "deviceIdleAllowedList (TransPolicyToRule_all t) = deviceIdleAllowedList t"
    "powerSaveAllowedList (TransPolicyToRule_all t) = powerSaveAllowedList t" for t :: "'a NetPolicyRule_scheme"
    using rule_modes(1) [of t] by (simp_all add: same_modes_def)
  have u: "powerSaveMode (TransPolicyToRule_uid u t) = powerSaveMode t" "deviceIdleAllowedList (TransPolicyToRule_uid u t) = deviceIdleAllowedList t"
    "powerSaveAllowedList (TransPolicyToRule_uid u t) = powerSaveAllowedList t" for u and t :: "'a NetPolicyRule_scheme"
    using rule_modes(2) [of t] by (simp_all add: same_modes_def)
  have d: "powerSaveMode (rule_DeleteUid u t) = powerSaveMode t" "deviceIdleAllowedList (rule_DeleteUid u t) = deviceIdleAllowedList t"
    "powerSaveAllowedList (rule_DeleteUid u t) = powerSaveAllowedList t" for u and t :: "'a NetPolicyRule_scheme"
    using rule_modes(3) [of t] by (simp_all add: same_modes_def)
  show "powerSaveMode (rule_HandleEvent e s) = (if eventId e = MSG_POWER_SAVE_MODE_CHANGED then ev_powerSaveMode e else powerSaveMode s)"
  "deviceIdleAllowedList (rule_HandleEvent e s) = (if eventId e = MSG_DEVICE_IDLE_LIST_UPDATED then ev_deviceIdleList e else deviceIdleAllowedList s)"
  "powerSaveAllowedList (rule_HandleEvent e s) = (if eventId e = MSG_POWER_SAVE_LIST_UPDATED then ev_powerSaveList e else powerSaveAllowedList s)"
    by (simp_all add: rule_HandleEvent_def a u d UpdateForegroundUidList_def msg_defs)
qed

subsection \<open>What the firewall part sends and leaves alone\<close>

text \<open>An event that the firewall part handles makes it send at most two events.\<close>

definition fw_sends :: "nat \<Rightarrow> 'a NetPolicyFirewall_scheme \<Rightarrow> 'a NetPolicyFirewall_scheme \<Rightarrow> bool" where
  "fw_sends n s t \<longleftrightarrow> NetPolicyFirewall.more t = NetPolicyFirewall.more s \<and> same_modes s t \<and> iface_quotas (calls t) = iface_quotas (calls s)
     \<and> (\<exists>es. events t = events s @ es \<and> (\<forall>e\<in>set es. sender e = Some Firewall) \<and> length es \<le> n)"

lemma fw_sends_refl [simp]: "fw_sends n s s"
  by (simp add: fw_sends_def)

lemma fw_sends_trans:
  assumes "fw_sends m s t" "fw_sends n t u"
  shows "fw_sends (m + n) s u"
proof -
  obtain es ds where "events t = events s @ es" "\<forall>e\<in>set es. sender e = Some Firewall" "length es \<le> m"
    "events u = events t @ ds" "\<forall>e\<in>set ds. sender e = Some Firewall" "length ds \<le> n"
    using assms unfolding fw_sends_def by blast
  then have "events u = events s @ (es @ ds)" "\<forall>e\<in>set (es @ ds). sender e = Some Firewall" "length (es @ ds) \<le> m + n" by auto
  then show ?thesis using assms same_modes_trans unfolding fw_sends_def by fastforce
qed

lemma fw_sends_mono: "fw_sends m s t \<Longrightarrow> m \<le> n \<Longrightarrow> fw_sends n s t"
  unfolding fw_sends_def using le_trans by blast

lemma fw_sends_ops:
  "fw_sends 1 s (snd (SetDeviceIdleTrustlist us b s))" "fw_sends 1 s (snd (SetPowerSaveTrustlist us b s))"
  "fw_sends 1 s (snd (UpdateDeviceIdlePolicy b s))" "fw_sends 1 s (snd (UpdatePowerSavePolicy b s))"
  "fw_sends 0 s (snd (UpdateIdleDenyPolicy b s))" "fw_sends 0 s (snd (SetUidsDeniedListChain us b s))"
  by (auto simp: SetDeviceIdleTrustlist_def SetPowerSaveTrustlist_def fw_ops fw_sends_def same_modes_def iface_quotas_append split: option.splits)

lemma fw_sends_clear: "fw_sends 0 s (snd (fw_clear_lists s))"
  by (auto simp: fw_clear_lists_def ClearAllowedList_def ClearDeniedList_def fw_prims fw_sends_def same_modes_def iface_quotas_append
      split: option.splits)

lemma fw_sends_DeleteUid: "fw_sends 2 s (fw_DeleteUid u s)"
proof -
  have "fw_sends 0 t (t \<lparr> deviceIdleFirewallRule := a, powerSaveFirewallRule := b \<rparr>)" for t :: "'a NetPolicyFirewall_scheme" and a b
    by (simp add: fw_sends_def same_modes_def)
  from fw_sends_trans [OF fw_sends_trans [OF fw_sends_ops(1, 2)] this]
  show ?thesis by (simp add: fw_DeleteUid_def Let_def numeral_2_eq_2)
qed

lemma fw_sends_HandleEvent: "fw_sends 2 s (fw_HandleEvent e s)"
  by (simp add: fw_HandleEvent_def fw_sends_DeleteUid fw_sends_mono [OF fw_sends_ops(4)])

lemma fw_sends_ResetPolicies: "fw_sends 2 s (fw_ResetPolicies s)"
proof -
  let ?t = "snd (fw_clear_lists s)"
  from fw_sends_trans [OF fw_sends_trans [OF fw_sends_trans [OF fw_sends_clear fw_sends_ops(3)] fw_sends_ops(4)] fw_sends_ops(5)]
  have "fw_sends 2 s (snd (UpdateIdleDenyPolicy False (snd (UpdatePowerSavePolicy False (snd (UpdateDeviceIdlePolicy False ?t))))))"
    by (simp add: numeral_2_eq_2)
  then show ?thesis by (simp add: fw_ResetPolicies_def split_beta Let_def fw_sends_mono [OF fw_sends_clear])
qed

lemma fw_sends_quota: "fw_sends n s t \<Longrightarrow> quota_ok t = quota_ok s" "fw_sends n s t \<Longrightarrow> quotaPolicies t = quotaPolicies s"
  for s t :: "'a NetPolicyTraffic_scheme"
  by (cases s; cases t; simp add: fw_sends_def quota_ok_def)+

subsection \<open>The queue empties\<close>

definition weight :: "PolicyEvent \<Rightarrow> nat" where
  "weight e = (if sender e = Some Firewall then 1 else 3)"

definition load :: "'a policy_base_scheme \<Rightarrow> nat" where
  "load s = sum_list (map weight (events s))"

lemma load_bound: "load s \<le> 3 * length (events s)"
proof -
  have "sum_list (map weight es) \<le> 3 * length es" for es by (induction es) (simp_all add: weight_def)
  then show ?thesis by (simp add: load_def)
qed

lemma fw_sends_load:
  assumes "fw_sends n s t"
  shows "load t \<le> load s + n"
proof -
  obtain es where es: "events t = events s @ es" "\<forall>e\<in>set es. sender e = Some Firewall" "length es \<le> n"
    using assms unfolding fw_sends_def by blast
  have "sum_list (map weight es) = length es" using es(2) by (induction es) (simp_all add: weight_def)
  then show ?thesis using es by (simp add: load_def)
qed

lemma HandleEvent_cases: "NetPolicyCore_HandleEvent e s =
    (if sender e = Some Rule then fw_HandleEvent e s
     else rule_HandleEvent e (if sender e = Some Firewall then s else fw_HandleEvent e s))"
  by (simp add: NetPolicyCore_HandleEvent_def cores_def)

lemma load_rule [simp]: "load (rule_HandleEvent e s) = load s"
  using rule_frame_events [of s "rule_HandleEvent e s"] by (simp add: load_def)

lemma ProcessEvent_load:
  assumes "events s \<noteq> []"
  shows "load (ProcessEvent s) < load s"
proof -
  obtain e es where e: "events s = e # es" using assms by (cases "events s") auto
  have "load (NetPolicyCore_HandleEvent e (s \<lparr> events := es \<rparr>)) \<le> load (s \<lparr> events := es \<rparr>) + (if sender e = Some Firewall then 0 else 2)"
    using fw_sends_load [OF fw_sends_HandleEvent, of e "s \<lparr> events := es \<rparr>"] by (simp add: HandleEvent_cases)
  then show ?thesis by (simp add: ProcessEvent_def e load_def weight_def split: if_splits)
qed

lemma drain_steps: "\<exists>n\<le>load s. drain s = Some ((ProcessEvent ^^ n) s) \<and> events ((ProcessEvent ^^ n) s) = []"
proof (induction "load s" arbitrary: s rule: less_induct)
  case less
  show ?case
  proof (cases "events s = []")
    case True
    then show ?thesis by (intro exI [of _ 0]) (simp add: drain.simps)
  next
    case False
    from less [OF ProcessEvent_load [OF False]] obtain n where
      "n \<le> load (ProcessEvent s)" "drain (ProcessEvent s) = Some ((ProcessEvent ^^ n) (ProcessEvent s))"
      "events ((ProcessEvent ^^ n) (ProcessEvent s)) = []" by blast
    with False ProcessEvent_load [OF False] show ?thesis
      by (intro exI [of _ "Suc n"]) (simp add: drain.simps [of s] funpow_swap1)
  qed
qed

subsection \<open>Copies of values that another part owns\<close>

text \<open>A value of the firewall part that changed is the value of the last event sent for it.\<close>

definition publishes :: "('a NetPolicyTraffic_scheme \<Rightarrow> 'v) \<Rightarrow> int \<Rightarrow> (PolicyEvent \<Rightarrow> 'v) \<Rightarrow> 'a NetPolicyTraffic_scheme \<Rightarrow>
    'a NetPolicyTraffic_scheme \<Rightarrow> bool" where
  "publishes own msg val s t \<longleftrightarrow> (\<exists>es. events t = events s @ es \<and> (\<forall>e\<in>set es. sender e = Some Firewall)
     \<and> last (own s # map val (filter (\<lambda>e. eventId e = msg) es)) = own t)"

lemma publishes_new: "publishes own msg val s t \<longleftrightarrow> (let es = drop (length (events s)) (events t) in
    events t = events s @ es \<and> (\<forall>e\<in>set es. sender e = Some Firewall) \<and> last (own s # map val (filter (\<lambda>e. eventId e = msg) es)) = own t)"
  unfolding publishes_def Let_def by (metis append_eq_conv_conj)

lemma publishes_refl [simp]: "publishes own msg val s s"
  by (simp add: publishes_def)

lemma publishes_trans:
  assumes "publishes own msg val s t" "publishes own msg val t u"
  shows "publishes own msg val s u"
proof -
  obtain es where es: "events t = events s @ es" "\<forall>e\<in>set es. sender e = Some Firewall"
    "last (own s # map val (filter (\<lambda>e. eventId e = msg) es)) = own t" using assms(1) unfolding publishes_def by blast
  obtain ds where ds: "events u = events t @ ds" "\<forall>e\<in>set ds. sender e = Some Firewall"
    "last (own t # map val (filter (\<lambda>e. eventId e = msg) ds)) = own u" using assms(2) unfolding publishes_def by blast
  have "last (own s # map val (filter (\<lambda>e. eventId e = msg) (es @ ds))) = own u"
    using es(3) ds(3) by (auto simp: last_append split: if_splits)
  with es ds show ?thesis unfolding publishes_def by (intro exI [of _ "es @ ds"]) auto
qed

text \<open>The lists are changed by events of the firewall part only.\<close>

definition admissible :: "PolicyEvent \<Rightarrow> bool" where
  "admissible e \<longleftrightarrow> sender e = Some Firewall \<or>
     eventId e \<noteq> MSG_DEVICE_IDLE_LIST_UPDATED \<and> eventId e \<noteq> MSG_POWER_SAVE_LIST_UPDATED"

definition copies_kept :: "'a NetPolicyRule_scheme \<Rightarrow> 'a NetPolicyRule_scheme \<Rightarrow> bool" where
  "copies_kept s t \<longleftrightarrow> powerSaveMode t = powerSaveMode s \<and> deviceIdleAllowedList t = deviceIdleAllowedList s
     \<and> powerSaveAllowedList t = powerSaveAllowedList s"

locale mirror =
  fixes own :: "'a NetPolicyTraffic_scheme \<Rightarrow> 'v" and copy :: "'a NetPolicyTraffic_scheme \<Rightarrow> 'v" and msg :: int
    and val :: "PolicyEvent \<Rightarrow> 'v"
  assumes own_rule: "rule_frame s t \<Longrightarrow> own t = own s"
    and own_queue: "own (s \<lparr> events := es \<rparr>) = own s"
    and copy_kept: "copies_kept s t \<Longrightarrow> copy t = copy s"
    and copy_event: "copy (rule_HandleEvent e s) = (if eventId e = msg then val e else copy s)"
    and sends: "fw_ok s \<Longrightarrow> publishes own msg val s (fw_HandleEvent e s)"
    and echoes: "fw_ok s \<Longrightarrow> admissible e \<Longrightarrow> eventId e = msg \<Longrightarrow> sender e \<noteq> Some Firewall \<Longrightarrow> own (fw_HandleEvent e s) = val e"
begin

definition pending :: "PolicyEvent list \<Rightarrow> 'v list" where
  "pending es = map val (filter (\<lambda>e. eventId e = msg \<and> sender e = Some Firewall) es)"

definition agree :: "'a NetPolicyTraffic_scheme \<Rightarrow> bool" where
  "agree s \<longleftrightarrow> last (copy s # pending (events s)) = own s"

lemma settled: "agree s \<Longrightarrow> events s = [] \<Longrightarrow> copy s = own s"
  by (simp add: agree_def pending_def)

lemma agree_rule: "rule_frame s t \<Longrightarrow> copies_kept s t \<Longrightarrow> agree t = agree s"
  by (simp add: agree_def own_rule copy_kept rule_frame_events)

lemma agree_publish:
  assumes "agree s" "publishes own msg val s t" "copies_kept s t"
  shows "agree t"
proof -
  obtain es where es: "events t = events s @ es" "\<forall>e\<in>set es. sender e = Some Firewall"
    "last (own s # map val (filter (\<lambda>e. eventId e = msg) es)) = own t" using assms(2) unfolding publishes_def by blast
  have "pending es = map val (filter (\<lambda>e. eventId e = msg) es)" unfolding pending_def using es(2) by (metis (mono_tags, lifting) filter_cong)
  then have "pending (events t) = pending (events s) @ map val (filter (\<lambda>e. eventId e = msg) es)" by (simp add: pending_def es(1))
  with es(3) assms(1) show ?thesis by (auto simp: agree_def copy_kept [OF assms(3)] last_append split: if_splits)
qed

lemma agree_event:
  assumes "agree s" "fw_ok s" "\<forall>e\<in>set (events s). admissible e"
  shows "agree (ProcessEvent s)"
proof (cases "events s")
  case (Cons e es)
  let ?s = "s \<lparr> events := es \<rparr>" let ?f = "fw_HandleEvent e ?s"
  have ok: "fw_ok ?s" using assms(2) by (simp add: fw_ok_def)
  have copies: "copies_kept s ?s" "copies_kept ?s ?f"
    using fw_sends_HandleEvent [of ?s e] by (simp_all add: copies_kept_def fw_sends_def same_modes_def)
  have rule: "agree (rule_HandleEvent e t)" if "agree t" "eventId e = msg \<longrightarrow> pending (events t) \<noteq> [] \<or> val e = own t" for t
    using that own_rule [of t "rule_HandleEvent e t"] rule_frame_events [of t "rule_HandleEvent e t"]
    by (auto simp: agree_def copy_event split: if_splits)
  show ?thesis
  proof (cases "sender e = Some Firewall")
    case True
    have "agree (rule_HandleEvent e ?s)"
      using assms(1) True own_rule [of ?s "rule_HandleEvent e ?s"] rule_frame_events [of ?s "rule_HandleEvent e ?s"] own_queue [of es s]
      by (auto simp: agree_def Cons pending_def copy_event copy_kept [OF copies(1)] split: if_splits)
    then show ?thesis using True by (simp add: ProcessEvent_def Cons HandleEvent_cases)
  next
    case False
    have "agree ?s" using assms(1) False by (simp add: agree_def Cons pending_def copy_kept [OF copies(1)] own_queue)
    then have f: "agree ?f" by (rule agree_publish [OF _ sends [OF ok] copies(2)])
    have "eventId e = msg \<longrightarrow> val e = own ?f" using echoes [OF ok, of e] False assms(3) by (simp add: Cons)
    with f False show ?thesis by (simp add: ProcessEvent_def Cons HandleEvent_cases rule)
  qed
qed (simp add: ProcessEvent_def assms)

end

abbreviation pub_mode :: "'a NetPolicyTraffic_scheme \<Rightarrow> 'a NetPolicyTraffic_scheme \<Rightarrow> bool" where
  "pub_mode \<equiv> publishes f_powerSaveMode MSG_POWER_SAVE_MODE_CHANGED ev_powerSaveMode"

abbreviation pub_lists :: "'a NetPolicyTraffic_scheme \<Rightarrow> 'a NetPolicyTraffic_scheme \<Rightarrow> bool" where
  "pub_lists s t \<equiv> publishes f_deviceIdleAllowedList MSG_DEVICE_IDLE_LIST_UPDATED ev_deviceIdleList s t \<and>
     publishes f_powerSaveAllowedList MSG_POWER_SAVE_LIST_UPDATED ev_powerSaveList s t"

lemma pub_trans: "pub_mode s t \<Longrightarrow> pub_mode t u \<Longrightarrow> pub_mode s u" "pub_lists s t \<Longrightarrow> pub_lists t u \<Longrightarrow> pub_lists s u"
  using publishes_trans by blast+

lemma pub_ops:
  "pub_mode s (snd (SetDeviceIdleTrustlist us b s)) \<and> pub_lists s (snd (SetDeviceIdleTrustlist us b s))"
  "pub_mode s (snd (SetPowerSaveTrustlist us b s)) \<and> pub_lists s (snd (SetPowerSaveTrustlist us b s))"
  "pub_mode s (snd (UpdateDeviceIdlePolicy b s)) \<and> pub_lists s (snd (UpdateDeviceIdlePolicy b s))"
  "pub_mode s (snd (UpdatePowerSavePolicy b s)) \<and> pub_lists s (snd (UpdatePowerSavePolicy b s))"
  "pub_mode s (snd (UpdateIdleDenyPolicy b s)) \<and> pub_lists s (snd (UpdateIdleDenyPolicy b s))"
  "pub_mode s (snd (SetUidsDeniedListChain us b s)) \<and> pub_lists s (snd (SetUidsDeniedListChain us b s))"
  by (simp_all add: SetDeviceIdleTrustlist_def SetPowerSaveTrustlist_def fw_ops publishes_new msg_defs FIREWALL_CHAIN_DEVICE_IDLE_def
      FIREWALL_CHAIN_POWER_SAVE_def split: option.split)

lemma pub_DeleteUid: "pub_mode s (fw_DeleteUid u s) \<and> pub_lists s (fw_DeleteUid u s)"
proof -
  let ?s2 = "snd (SetPowerSaveTrustlist [u] False (snd (SetDeviceIdleTrustlist [u] False s)))"
  have "pub_mode ?s2 (fw_DeleteUid u s) \<and> pub_lists ?s2 (fw_DeleteUid u s)" by (simp add: fw_DeleteUid_def publishes_def Let_def)
  then show ?thesis using pub_ops(1, 2) pub_trans by meson
qed

lemma pub_HandleEvent: "pub_mode s (fw_HandleEvent e s) \<and> pub_lists s (fw_HandleEvent e s)"
  unfolding fw_HandleEvent_def using pub_DeleteUid [of s "ev_deletedUid e"] pub_ops(4) [of s "ev_powerSaveMode e"] by (simp add: msg_defs)

lemma pub_ResetPolicies:
  assumes "fw_ok s"
  shows "pub_mode s (fw_ResetPolicies s)"
proof -
  have "pub_mode s (snd (fw_clear_lists s))" using fw_clear_lists_ok(7, 8) [OF assms] by (simp add: publishes_def)
  then have "pub_mode s (snd (UpdateIdleDenyPolicy False (snd (UpdatePowerSavePolicy False (snd (UpdateDeviceIdlePolicy False
      (snd (fw_clear_lists s))))))))" using pub_ops(3-5) pub_trans(1) by meson
  then show ?thesis using fw_clear_lists_ok(1) [OF assms] by (simp add: fw_ResetPolicies_def split_beta Let_def)
qed

lemma fw_HandleEvent_mode:
  assumes "fw_ok s" "eventId e = MSG_POWER_SAVE_MODE_CHANGED"
  shows "f_powerSaveMode (fw_HandleEvent e s) = ev_powerSaveMode e"
  using assms by (auto simp: fw_HandleEvent_def fw_ops msg_defs fw_ok_def chain_ok_def split: option.splits)

interpretation power_mode: mirror f_powerSaveMode powerSaveMode MSG_POWER_SAVE_MODE_CHANGED ev_powerSaveMode
  by unfold_locales (simp_all add: rule_frame_sel copies_kept_def rule_HandleEvent_copies pub_HandleEvent fw_HandleEvent_mode)

interpretation idle_trust: mirror f_deviceIdleAllowedList deviceIdleAllowedList MSG_DEVICE_IDLE_LIST_UPDATED ev_deviceIdleList
  by unfold_locales (simp_all add: rule_frame_sel copies_kept_def rule_HandleEvent_copies pub_HandleEvent admissible_def)

interpretation power_trust: mirror f_powerSaveAllowedList powerSaveAllowedList MSG_POWER_SAVE_LIST_UPDATED ev_powerSaveList
  by unfold_locales (simp_all add: rule_frame_sel copies_kept_def rule_HandleEvent_copies pub_HandleEvent admissible_def)

subsection \<open>What the traffic part leaves alone\<close>

definition traffic_frame :: "'a NetPolicyTraffic_scheme \<Rightarrow> 'a NetPolicyTraffic_scheme \<Rightarrow> bool" where
  "traffic_frame s t \<longleftrightarrow> NetPolicyTraffic.more t = NetPolicyTraffic.more s \<and> events t = events s \<and> rules_kept s t
     \<and> netFirewallRules (netPolicy t) = netFirewallRules (netPolicy s) \<and> f_deviceIdleAllowedList t = f_deviceIdleAllowedList s
     \<and> f_powerSaveAllowedList t = f_powerSaveAllowedList s \<and> f_powerSaveMode t = f_powerSaveMode s
     \<and> deviceIdleFirewallRule t = deviceIdleFirewallRule s \<and> powerSaveFirewallRule t = powerSaveFirewallRule s
     \<and> idleDenyFirewallRule t = idleDenyFirewallRule s"

lemma bandwidth_neutral:
  assumes "\<forall>c\<in>set cs. \<forall>m. bw_call u c m = m"
  shows "bandwidth (ds @ cs) u = bandwidth ds u"
proof -
  have "fold (bw_call u) cs m = m" for m using assms by (induction cs) (simp_all del: split_paired_All)
  then show ?thesis by (simp add: bandwidth_def)
qed

lemma update_calls_neutral: "c \<in> set (update_calls env s) \<Longrightarrow> bw_call u c m = m"
  by (auto simp: update_calls_def quota_broadcast_def Let_def split: if_splits)

lemma Inner_kept:
  fixes env s
  defines "t \<equiv> snd (UpdateQuotaPoliciesInner env s)"
  shows "NetPolicyTraffic.more t = NetPolicyTraffic.more s" "same_modes s t" "uidPolicyRules t = uidPolicyRules s"
    "netFirewallRules (netPolicy t) = netFirewallRules (netPolicy s)" "f_deviceIdleAllowedList t = f_deviceIdleAllowedList s"
    "f_powerSaveAllowedList t = f_powerSaveAllowedList s" "f_powerSaveMode t = f_powerSaveMode s"
    "deviceIdleFirewallRule t = deviceIdleFirewallRule s" "powerSaveFirewallRule t = powerSaveFirewallRule s"
    "idleDenyFirewallRule t = idleDenyFirewallRule s"
  unfolding t_def
  by (simp_all add: same_modes_def UpdateQuotaPoliciesInner_def UpdateMeteredIfacesQuota_def set_quotas_eq
      UpdateMeteredIfaces_def UpdateQuotaNotify_def notify_quotas_eq NotifyNetMeteredIfacesChange_def NotifyNetQuotaPolicyChange_def
      file_WriteQuotaPolicies_def WriteFile_def file_defaults_def emit_def Let_def)

lemma Inner_frame: "traffic_frame s (snd (UpdateQuotaPoliciesInner env s))"
proof -
  have "bandwidth (calls (snd (UpdateQuotaPoliciesInner env s))) u = bandwidth (calls s) u" for u
    unfolding Inner_result(2) by (rule bandwidth_neutral) (simp add: update_calls_neutral)
  then show ?thesis by (simp add: traffic_frame_def rules_kept_def Inner_kept Inner_result(5))
qed

lemma traffic_frame_policies [simp]: "traffic_frame (s \<lparr> quotaPolicies := qs \<rparr>) t = traffic_frame s t"
  by (simp add: traffic_frame_def rules_kept_def same_modes_def)

lemma traffic_frame_refl [simp]: "traffic_frame s s"
  by (simp add: traffic_frame_def)

lemma traffic_frame_ops:
  "traffic_frame s (snd (UpdateQuotaPolicies env qs s))" "traffic_frame s (snd (UpdateRemindPolicy env nt sim r s))"
  "traffic_frame s (snd (traffic_ResetPolicies_sim env sim s))" "traffic_frame s (snd (traffic_ResetPolicies env s))"
  "traffic_frame s (ReachedLimit env iface s)" "traffic_frame s (UpdateNetPolicy env s)" "traffic_frame s (traffic_Init env s)"
  using Inner_frame [of "s \<lparr> quotaPolicies := q \<rparr>" env for q] Inner_frame [of s env]
  by (simp_all add: UpdateQuotaPolicies_def FormalizeQuotaPolicies_def UpdateRemindPolicy_def traffic_ResetPolicies_sim_def
      traffic_ResetPolicies_def ReachedLimit_def UpdateNetPolicy_def traffic_Init_def ReadQuotaPolicies_def)

subsection \<open>Invariant of the service\<close>

definition trust_stored :: "'a NetPolicyFirewall_scheme \<Rightarrow> bool" where
  "trust_stored s \<longleftrightarrow> stored_trust FIREWALL_CHAIN_DEVICE_IDLE s = f_deviceIdleAllowedList s
     \<and> stored_trust FIREWALL_CHAIN_POWER_SAVE s = f_powerSaveAllowedList s"

definition svc_inv :: "bool \<Rightarrow> 'a NetPolicyService_scheme \<Rightarrow> bool" where
  "svc_inv plain s \<longleftrightarrow> started s \<and> fw_ok s \<and> rule_ok s \<and> quota_ok s \<and> trust_stored s \<and> (\<forall>e\<in>set (events s). admissible e)
     \<and> power_mode.agree s \<and> (plain \<longrightarrow> idle_trust.agree s \<and> power_trust.agree s)"

lemma inv_rule:
  assumes inv: "svc_inv plain s" and "rule_frame s t" "copies_kept s t" "rule_ok t"
  shows "svc_inv plain t"
proof -
  have "started t = started s" using assms(2) by (cases s; cases t; simp add: rule_frame_def)
  moreover have "trust_stored t = trust_stored s"
    using assms(2) by (simp add: trust_stored_def stored_trust_def chain_lists_def rule_frame_sel) (simp add: rule_frame_def)
  ultimately show ?thesis
    using assms by (simp add: svc_inv_def rule_frame_fw_ok rule_frame_quota rule_frame_events power_mode.agree_rule idle_trust.agree_rule
        power_trust.agree_rule)
qed

lemma inv_firewall:
  assumes inv: "svc_inv plain s" and step: "fw_sends n s t" "fw_ok t" "rules_kept s t" "trust_stored t"
    and pub: "pub_mode s t" "plain \<longrightarrow> pub_lists s t"
  shows "svc_inv plain t"
proof -
  have copies: "copies_kept s t" using step(1) by (simp add: fw_sends_def copies_kept_def same_modes_def)
  have "started t = started s" using step(1) by (cases s; cases t; simp add: fw_sends_def)
  moreover have "\<forall>e\<in>set (events t). admissible e" using inv step(1) by (auto simp: svc_inv_def fw_sends_def admissible_def)
  moreover have "power_mode.agree t" using inv power_mode.agree_publish [OF _ pub(1) copies] by (simp add: svc_inv_def)
  moreover have "plain \<longrightarrow> idle_trust.agree t \<and> power_trust.agree t"
    using inv pub(2) idle_trust.agree_publish [OF _ _ copies] power_trust.agree_publish [OF _ _ copies] by (auto simp: svc_inv_def)
  ultimately show ?thesis
    using inv step rules_kept_ok(1) by (auto simp: svc_inv_def fw_sends_quota)
qed

lemma publishes_same: "events t = events s \<Longrightarrow> own t = own s \<Longrightarrow> publishes own msg val s t"
  by (simp add: publishes_def)

lemma inv_traffic:
  assumes inv: "svc_inv plain s" and f: "traffic_frame s t" and "quota_ok t"
  shows "svc_inv plain t"
proof -
  have copies: "copies_kept s t" using f by (simp add: traffic_frame_def rules_kept_def copies_kept_def same_modes_def)
  have "started t = started s" using f by (cases s; cases t; simp add: traffic_frame_def)
  moreover have "fw_ok t = fw_ok s" "trust_stored t = trust_stored s" "events t = events s"
    using f by (simp_all add: traffic_frame_def fw_ok_def trust_stored_def stored_trust_def chain_lists_def)
  moreover have "rule_ok t" using f inv rules_kept_ok(1) [of s t] by (simp add: traffic_frame_def svc_inv_def)
  moreover have "pub_mode s t" "pub_lists s t" using f by (simp_all add: publishes_same traffic_frame_def)
  ultimately show ?thesis
    using inv assms(3) power_mode.agree_publish [OF _ _ copies] idle_trust.agree_publish [OF _ _ copies]
      power_trust.agree_publish [OF _ _ copies] by (simp add: svc_inv_def)
qed

text \<open>Events that are not of the firewall part.\<close>

lemma inv_enqueue:
  assumes inv: "svc_inv plain s" and es: "\<forall>e\<in>set es. sender e = None \<and> admissible e"
  shows "svc_inv plain (s \<lparr> events := events s @ es \<rparr>)"
proof -
  have none: "filter (\<lambda>e. eventId e = m \<and> sender e = Some Firewall) es = []" for m using es by (auto simp: filter_empty_conv)
  have "fw_ok (s \<lparr> events := es' \<rparr>) = fw_ok s" "quota_ok (s \<lparr> events := es' \<rparr>) = quota_ok s" "rule_ok (s \<lparr> events := es' \<rparr>) = rule_ok s"
    "trust_stored (s \<lparr> events := es' \<rparr>) = trust_stored s" for es'
    by (simp_all add: fw_ok_def quota_ok_def rule_ok_def trust_stored_def stored_trust_def)
  then show ?thesis using inv es
    by (auto simp: svc_inv_def power_mode.agree_def power_mode.pending_def idle_trust.agree_def idle_trust.pending_def
        power_trust.agree_def power_trust.pending_def none)
qed

lemma inv_callbacks: "svc_inv plain (s \<lparr> callbacks := cbs \<rparr>) = svc_inv plain s"
  by (simp add: svc_inv_def fw_ok_def quota_ok_def rule_ok_def trust_stored_def stored_trust_def
      power_mode.agree_def idle_trust.agree_def power_trust.agree_def)

lemma stored_trust_write [simp]: "stored_trust c (WriteFirewallRules d A D s) = (if c = d then A else stored_trust c s)"
  by (simp add: stored_trust_def WriteFirewallRules_def WriteFile_def file_defaults_def chain_lists_def Let_def)

lemma stored_trust_kept [simp]: "stored_trust c (emit cs s) = stored_trust c s" "stored_trust c (SendEvent from msg e s) = stored_trust c s"
  "stored_trust c (ReportFirewallPolicyChange fn chain b r s) = stored_trust c s"
  by (simp_all add: stored_trust_def SendEvent_def ReportFirewallPolicyChange_def emit_def split: option.split)

lemma stored_trust_updates [simp]: "stored_trust c (s \<lparr> deviceIdleFirewallRule := r \<rparr>) = stored_trust c s"
  "stored_trust c (s \<lparr> powerSaveFirewallRule := r \<rparr>) = stored_trust c s" "stored_trust c (s \<lparr> idleDenyFirewallRule := r \<rparr>) = stored_trust c s"
  "stored_trust c (s \<lparr> f_deviceIdleAllowedList := l \<rparr>) = stored_trust c s" "stored_trust c (s \<lparr> f_powerSaveAllowedList := l \<rparr>) = stored_trust c s"
  "stored_trust c (s \<lparr> f_deviceIdleDeniedList := l \<rparr>) = stored_trust c s" "stored_trust c (s \<lparr> f_powerSaveDeniedList := l \<rparr>) = stored_trust c s"
  "stored_trust c (s \<lparr> f_deviceIdleMode := b \<rparr>) = stored_trust c s" "stored_trust c (s \<lparr> f_powerSaveMode := b \<rparr>) = stored_trust c s"
  "stored_trust c (s \<lparr> f_idleDenyMode := b \<rparr>) = stored_trust c s"
  by (simp_all add: stored_trust_def)

lemma trust_kept [simp]: "f_deviceIdleAllowedList (emit cs s) = f_deviceIdleAllowedList s" "f_powerSaveAllowedList (emit cs s) = f_powerSaveAllowedList s"
  "f_deviceIdleAllowedList (SendEvent from msg e s) = f_deviceIdleAllowedList s" "f_powerSaveAllowedList (SendEvent from msg e s) = f_powerSaveAllowedList s"
  "f_deviceIdleAllowedList (WriteFirewallRules d A D s) = f_deviceIdleAllowedList s" "f_powerSaveAllowedList (WriteFirewallRules d A D s) = f_powerSaveAllowedList s"
  "f_deviceIdleAllowedList (ReportFirewallPolicyChange fn chain b r s) = f_deviceIdleAllowedList s"
  "f_powerSaveAllowedList (ReportFirewallPolicyChange fn chain b r s) = f_powerSaveAllowedList s"
  for s :: "'a NetPolicyFirewall_scheme"
  by (simp_all add: emit_def SendEvent_def WriteFirewallRules_def WriteFile_def ReportFirewallPolicyChange_def Let_def split: option.split)

lemma stored_trust_ops:
  assumes "trust_stored s"
  shows "trust_stored (snd (SetDeviceIdleTrustlist us b s))" "trust_stored (snd (SetPowerSaveTrustlist us b s))"
    "trust_stored (snd (UpdateDeviceIdlePolicy b s))" "trust_stored (snd (UpdatePowerSavePolicy b s))"
    "trust_stored (snd (UpdateIdleDenyPolicy b s))" "trust_stored (snd (SetUidsDeniedListChain us b s))"
  using assms
  by (simp_all add: trust_stored_def SetDeviceIdleTrustlist_def SetPowerSaveTrustlist_def UpdateDeviceIdlePolicy_def UpdatePowerSavePolicy_def
      UpdateIdleDenyPolicy_def SetUidsDeniedListChain_def SetDenied_uids_def SetAllowed_chain_def SetDenied_chain_def SetAllowed_uids_def
      EnableFirewall_def UpdateFirewallPolicyList_def FIREWALL_CHAIN_DEVICE_IDLE_def FIREWALL_CHAIN_POWER_SAVE_def Let_def split: option.split)

lemma stored_trust_clear: "fw_ok s \<Longrightarrow> trust_stored (snd (fw_clear_lists s))"
  by (auto simp: fw_clear_lists_def ClearAllowedList_def ClearDeniedList_def SetAllowed_chain_def SetDenied_chain_def trust_stored_def
      FIREWALL_CHAIN_DEVICE_IDLE_def FIREWALL_CHAIN_POWER_SAVE_def fw_ok_def chain_ok_def Let_def emit_def split: option.splits)

lemma stored_trust_events:
  assumes "fw_ok s" "trust_stored s"
  shows "trust_stored (fw_DeleteUid u s)" "trust_stored (fw_HandleEvent e s)" "trust_stored (fw_ResetPolicies s)"
proof -
  let ?s1 = "\<lambda>u. snd (SetDeviceIdleTrustlist [u] False s)"
  have "fw_ok (?s1 u)" "trust_stored (?s1 u)" for u using assms by (simp_all add: idle_list_update(1) stored_trust_ops(1))
  then have "trust_stored (snd (SetPowerSaveTrustlist [u] False (?s1 u)))" for u by (simp add: stored_trust_ops(2))
  then have d: "trust_stored (fw_DeleteUid u s)" for u by (simp add: fw_DeleteUid_def Let_def trust_stored_def stored_trust_def)
  show "trust_stored (fw_DeleteUid u s)" by (rule d)
  show "trust_stored (fw_HandleEvent e s)" using assms d by (simp add: fw_HandleEvent_def stored_trust_ops(4))
  show "trust_stored (fw_ResetPolicies s)"
    using fw_clear_lists_ok(1, 2) [OF assms(1)] stored_trust_clear [OF assms(1)]
    by (simp add: fw_ResetPolicies_def split_beta Let_def stored_trust_ops mode_ops_ok)
qed

subsection \<open>Every step keeps the invariant\<close>

lemma rule_copies:
  "copies_kept s (snd (TransPolicyToRule u p s))" "copies_kept s (snd (SetBackgroundPolicy b s))" "copies_kept s (TransPolicyToRule_all s)"
  "copies_kept s (snd (rule_ResetPolicies s))" "copies_kept s (rule_Init s)"
proof -
  have k: "copies_kept s u = copies_kept s t" if "same_modes t u" for s t u :: "'a NetPolicyRule_scheme"
    using that by (simp add: copies_kept_def same_modes_def)
  have retrans: "same_modes t (retrans u pr t)" for u pr and t :: "'a NetPolicyRule_scheme"
    using trans_kept(2) [of t u pr] by (simp add: retrans_def split_beta Let_def same_modes_def)
  have n: "same_modes t (NotifyNetUidPolicyChange u p (t \<lparr> uidPolicyRules := m \<rparr>))" for u p m and t :: "'a NetPolicyRule_scheme"
    by (simp add: NotifyNetUidPolicyChange_def emit_def same_modes_def)
  have set: "same_modes t (snd (TransPolicyToRule u p t))" for u p and t :: "'a NetPolicyRule_scheme"
    by (cases "IsValidNetPolicy p")
       (auto simp: TransPolicyToRule_def Let_def intro: retrans same_modes_trans [OF n retrans] split: option.split)
  have bg: "copies_kept t (snd (SetBackgroundPolicy b t))" for b and t :: "'a NetPolicyRule_scheme"
  proof -
    let ?t = "(NotifyNetBackgroundPolicyChange b t) \<lparr> backgroundAllow := b \<rparr>"
    have "copies_kept t (TransPolicyToRule_all ?t)" unfolding k [OF rule_modes(1)]
      by (simp add: copies_kept_def NotifyNetBackgroundPolicyChange_def emit_def)
    then show ?thesis by (simp add: SetBackgroundPolicy_def Let_def copies_kept_def emit_def WriteBackgroundPolicy_def WriteFile_def)
  qed
  have reset: "same_modes t (reset_uids us t)" for us and t :: "'a NetPolicyRule_scheme"
    by (induction us t rule: reset_uids.induct) (auto intro: same_modes_trans [OF set])
  have init: "same_modes t (init_uids is t)" for "is" and t :: "'a NetPolicyRule_scheme"
    by (induction "is" t rule: init_uids.induct) (auto intro: same_modes_trans [OF set])
  show "copies_kept s (snd (TransPolicyToRule u p s))" unfolding k [OF set] by (simp add: copies_kept_def)
  show "copies_kept s (TransPolicyToRule_all s)" unfolding k [OF rule_modes(1)] by (simp add: copies_kept_def)
  show "copies_kept s (snd (SetBackgroundPolicy b s))" by (rule bg)
  show "copies_kept s (snd (rule_ResetPolicies s))"
    using bg [of "reset_uids (map fst (uidPolicyRules s)) s" True] reset [of s "map fst (uidPolicyRules s)"]
    by (simp add: rule_ResetPolicies_def copies_kept_def same_modes_def)
  show "copies_kept s (rule_Init s)"
    using init [of "s \<lparr> backgroundAllow := ReadBackgroundPolicy s \<rparr>" "uidPolicies (netPolicy s)"]
    by (simp add: rule_Init_def copies_kept_def same_modes_def)
qed

lemma inv_event:
  assumes inv: "svc_inv plain s"
  shows "svc_inv plain (ProcessEvent s)"
proof (cases "events s")
  case (Cons e es)
  let ?s = "s \<lparr> events := es \<rparr>" let ?f = "if sender e = Some Firewall then ?s else fw_HandleEvent e ?s"
  have ok: "fw_ok ?s" "trust_stored ?s" "rule_ok ?s" "quota_ok ?s"
    using inv by (simp_all add: svc_inv_def fw_ok_def trust_stored_def stored_trust_def rule_ok_def quota_ok_def)
  have f: "fw_ok ?f" "trust_stored ?f" "rule_ok ?f" "quota_ok ?f" "fw_sends 2 ?s ?f"
    using ok fw_HandleEvent_ok [OF ok(1), of e] rules_kept_ok(1) [OF fw_HandleEvent_ok(2) [OF ok(1)] ok(3), of e]
      stored_trust_events(2) [OF ok(1, 2), of e] fw_sends_quota(1) [OF fw_sends_HandleEvent, of e ?s] fw_sends_HandleEvent [of ?s e] by simp_all
  have r: "fw_ok (rule_HandleEvent e t) = fw_ok t" "trust_stored (rule_HandleEvent e t) = trust_stored t"
    "quota_ok (rule_HandleEvent e t) = quota_ok t" "events (rule_HandleEvent e t) = events t" "started (rule_HandleEvent e t) = started t"
    for t :: "'a NetPolicyService_scheme"
  proof -
    have fr: "rule_frame t (rule_HandleEvent e t)" by simp
    show "fw_ok (rule_HandleEvent e t) = fw_ok t" "quota_ok (rule_HandleEvent e t) = quota_ok t" "events (rule_HandleEvent e t) = events t"
      using rule_frame_fw_ok [OF fr] rule_frame_quota(1) [OF fr] rule_frame_events [OF fr] by simp_all
    show "trust_stored (rule_HandleEvent e t) = trust_stored t"
      using fr by (simp add: trust_stored_def stored_trust_def chain_lists_def rule_frame_sel [OF fr] rule_frame_def)
    show "started (rule_HandleEvent e t) = started t" using fr by (cases t; cases "rule_HandleEvent e t"; simp add: rule_frame_def)
  qed
  have "rule_ok (rule_HandleEvent e t)" if "rule_ok t" for t :: "'a NetPolicyService_scheme" using rule_do_ok(1) [OF that, of "Event e"] by simp
  moreover have "started ?f = started s" using f(5) by (cases s; cases ?f; simp add: fw_sends_def)
  moreover have "\<forall>e\<in>set (events ?f). admissible e" using f(5) inv by (auto simp: svc_inv_def fw_sends_def admissible_def Cons)
  moreover have "ProcessEvent s = (if sender e = Some Rule then ?f else rule_HandleEvent e ?f)"
    by (simp add: ProcessEvent_def Cons HandleEvent_cases)
  moreover have "power_mode.agree (ProcessEvent s)" "plain \<longrightarrow> idle_trust.agree (ProcessEvent s) \<and> power_trust.agree (ProcessEvent s)"
    using inv power_mode.agree_event [of s] idle_trust.agree_event [of s] power_trust.agree_event [of s] by (auto simp: svc_inv_def)
  ultimately show ?thesis using f r inv by (auto simp: svc_inv_def)
qed (use inv in \<open>simp add: ProcessEvent_def\<close>)

lemma inv_send:
  assumes "svc_inv plain s" "m \<noteq> MSG_DEVICE_IDLE_LIST_UPDATED" "m \<noteq> MSG_POWER_SAVE_LIST_UPDATED"
  shows "svc_inv plain (SendEvent None m e s)"
  unfolding SendEvent_def by (rule inv_enqueue [OF assms(1)]) (simp add: admissible_def assms)

lemma inv_broadcast: "svc_inv plain s \<Longrightarrow> svc_inv plain (OnReceiveEvent b ev s)"
  by (simp add: OnReceiveEvent_def inv_send msg_defs split: common_event.split)

lemma inv_app_status: "svc_inv plain s \<Longrightarrow> svc_inv plain (SendAppStatusMessage st us s)"
  unfolding SendAppStatusMessage_def by (induction us arbitrary: s) (simp_all add: inv_send msg_defs Let_def)

lemma inv_firewall_ops:
  assumes inv: "svc_inv plain s"
  shows "svc_inv plain (snd (SetDeviceIdleTrustlist us b s))" "svc_inv plain (snd (SetPowerSaveTrustlist us b s))"
    "svc_inv plain (snd (UpdateDeviceIdlePolicy b s))" "svc_inv plain (snd (UpdatePowerSavePolicy b s))"
    "svc_inv plain (snd (UpdateIdleDenyPolicy b s))" "svc_inv plain (snd (SetUidsDeniedListChain us b s))"
proof -
  have ok: "fw_ok s" "trust_stored s" using inv by (simp_all add: svc_inv_def)
  show "svc_inv plain (snd (SetDeviceIdleTrustlist us b s))" "svc_inv plain (snd (SetPowerSaveTrustlist us b s))"
    "svc_inv plain (snd (UpdateDeviceIdlePolicy b s))" "svc_inv plain (snd (UpdatePowerSavePolicy b s))"
    "svc_inv plain (snd (UpdateIdleDenyPolicy b s))" "svc_inv plain (snd (SetUidsDeniedListChain us b s))"
    by (rule inv_firewall [OF inv], rule fw_sends_ops,
        simp_all add: idle_list_update(1) power_list_update(1) mode_ops_ok deny_op_ok fw_rules_kept stored_trust_ops pub_ops ok)+
qed

lemma inv_rule_ops:
  assumes inv: "svc_inv plain s"
  shows "svc_inv plain (snd (TransPolicyToRule u p s))" "svc_inv plain (snd (SetBackgroundPolicy b s))"
    "svc_inv plain (TransPolicyToRule_all s)" "svc_inv plain (snd (rule_ResetPolicies s))"
proof -
  have ok: "rule_ok s" using inv by (simp add: svc_inv_def)
  show "svc_inv plain (snd (TransPolicyToRule u p s))" "svc_inv plain (snd (SetBackgroundPolicy b s))"
    "svc_inv plain (TransPolicyToRule_all s)" "svc_inv plain (snd (rule_ResetPolicies s))"
    using rule_do_ok(1) [OF ok, of ResetAll]
    by (auto intro!: inv_rule [OF inv] simp: rule_copies TransPolicyToRule_ok SetBackgroundPolicy_ok TransPolicyToRule_all_ok ok)
qed

lemma inv_traffic_ops:
  assumes inv: "svc_inv plain s"
  shows "svc_inv plain (snd (UpdateQuotaPolicies env qs s))" "svc_inv plain (snd (UpdateRemindPolicy env nt sim r s))"
    "svc_inv plain (snd (traffic_ResetPolicies_sim env sim s))" "svc_inv plain (snd (traffic_ResetPolicies env s))"
    "svc_inv plain (ReachedLimit env iface s)" "svc_inv plain (UpdateNetPolicy env s)"
proof -
  have ok: "quota_ok s" using inv by (simp add: svc_inv_def)
  show "svc_inv plain (snd (UpdateQuotaPolicies env qs s))" "svc_inv plain (snd (UpdateRemindPolicy env nt sim r s))"
    "svc_inv plain (snd (traffic_ResetPolicies_sim env sim s))" "svc_inv plain (snd (traffic_ResetPolicies env s))"
    "svc_inv plain (ReachedLimit env iface s)" "svc_inv plain (UpdateNetPolicy env s)"
    by (rule inv_traffic [OF inv], rule traffic_frame_ops, rule traffic_ops_quota_ok [OF ok])+
qed

lemma inv_firewall_reset:
  assumes inv: "svc_inv False s"
  shows "svc_inv False (fw_ResetPolicies s)"
proof -
  have ok: "fw_ok s" "trust_stored s" using inv by (simp_all add: svc_inv_def)
  show ?thesis
    by (rule inv_firewall [OF inv fw_sends_ResetPolicies]) (simp_all add: fw_ResetPolicies_ok ok stored_trust_events pub_ResetPolicies)
qed

lemma inv_step:
  assumes inv: "svc_inv plain s" and "plain \<longrightarrow> \<not> is_reset op"
  shows "svc_inv plain (svc_do op s)"
proof -
  have st: "started s" using inv by (simp add: svc_inv_def)
  have reset: "svc_inv plain (snd (traffic_ResetPolicies_sim env sim (fw_ResetPolicies (snd (rule_ResetPolicies s)))))"
    "svc_inv plain (snd (traffic_ResetPolicies env (fw_ResetPolicies (snd (rule_ResetPolicies s)))))" if "\<not> plain" for env sim
    using that inv by (simp_all add: inv_traffic_ops inv_firewall_reset inv_rule_ops)
  have cb: "svc_inv plain (snd (RegisterNetPolicyCallback c s))" "svc_inv plain (snd (UnregisterNetPolicyCallback c s))" for c
    using inv by (simp_all add: RegisterNetPolicyCallback_def UnregisterNetPolicyCallback_def inv_callbacks split: option.split)
  show ?thesis
    using assms(2) reset
    by (cases op) (simp_all add: st when_started_def svc_SetPolicyByUid_def svc_SetBackgroundPolicy_def svc_SetDeviceIdleTrustlist_def
        svc_SetPowerSaveTrustlist_def svc_SetDeviceIdlePolicy_def svc_SetPowerSavePolicy_def svc_SetUidsDeniedListChain_def
        svc_SetIdleDenyPolicy_def svc_SetNetQuotaPolicies_def svc_UpdateRemindPolicy_def svc_RegisterNetPolicyCallback_def
        svc_UnregisterNetPolicyCallback_def svc_OnNetSysRestart_def svc_ResetPolicies_def svc_FactoryResetPolicies_def Let_def
        inv inv_rule_ops inv_firewall_ops inv_traffic_ops inv_broadcast inv_app_status inv_event cb)
qed

lemma fw_Init_step: "fw_sends 0 s (fw_Init s)" "stored_trust c (fw_Init s) = stored_trust c s"
  by (simp_all add: fw_Init_def CreateFirewallRule_def ReadFirewallRules_def SetAllowed_set_def SetAllowed_chain_def emit_def fw_sends_def
      same_modes_def iface_quotas_append stored_trust_def chain_lists_def FIREWALL_CHAIN_DEVICE_IDLE_def FIREWALL_CHAIN_POWER_SAVE_def Let_def
      split: option.split)

lemma rule_start_kept: "rules_kept s t \<Longrightarrow> rule_start s \<Longrightarrow> rule_start t"
  by (simp add: rule_start_def rules_kept_def same_modes_def)

lemma inv_init:
  assumes start: "svc_start s"
    and plain: "plain \<longrightarrow> stored_trust FIREWALL_CHAIN_DEVICE_IDLE s = {} \<and> stored_trust FIREWALL_CHAIN_POWER_SAVE s = {}"
  shows "svc_inv plain (svc_Init env s)"
proof -
  let ?t = "traffic_Init env s" let ?f = "fw_Init ?t" let ?r = "rule_Init ?f"
  have "quota_ok s" using start by (simp add: quota_ok_def svc_start_def)
  then have t: "traffic_frame s ?t" "quota_ok ?t" by (simp_all add: traffic_frame_ops traffic_ops_quota_ok)
  have ts: "stored_trust c ?t = stored_trust c s" for c using t(1) by (simp add: traffic_frame_def stored_trust_def chain_lists_def)
  have f: "fw_ok ?f" "rules_kept ?t ?f" "f_deviceIdleAllowedList ?f = stored_trust FIREWALL_CHAIN_DEVICE_IDLE s"
    "f_powerSaveAllowedList ?f = stored_trust FIREWALL_CHAIN_POWER_SAVE s" "events ?f = []" "\<not> f_powerSaveMode ?f"
    using fw_Init_ok [of ?t] start t(1) ts
    by (simp_all add: svc_start_def traffic_frame_def stored_trust_def)
  have "rules_kept s ?t" "rule_start s" using t(1) start by (simp_all add: svc_start_def traffic_frame_def)
  then have rs: "rule_start ?f" by (intro rule_start_kept [OF f(2)] rule_start_kept [of s ?t])
  have copies: "powerSaveMode ?r = powerSaveMode ?f" "deviceIdleAllowedList ?r = deviceIdleAllowedList ?f"
    "powerSaveAllowedList ?r = powerSaveAllowedList ?f" using rule_copies(5) [of ?f] by (simp_all add: copies_kept_def)
  have fr: "rule_frame ?f ?r" by simp
  have "fw_ok ?r" "quota_ok ?r" "events ?r = []" "rule_ok ?r"
    using f t(2) rule_frame_fw_ok [OF fr] rule_frame_quota(1) [OF fr] rule_frame_events [OF fr] fw_sends_quota(1) [OF fw_Init_step(1), of ?t]
      rule_Init_ok(1) [OF rs] by simp_all
  moreover have "trust_stored ?r"
    using fr f(3, 4) ts fw_Init_step(2) [of _ ?t] by (simp add: trust_stored_def rule_frame_sel [OF fr] stored_trust_def chain_lists_def rule_frame_def)
  moreover have "powerSaveMode ?r = f_powerSaveMode ?r" "plain \<longrightarrow> deviceIdleAllowedList ?r = f_deviceIdleAllowedList ?r \<and>
      powerSaveAllowedList ?r = f_powerSaveAllowedList ?r"
    using rs f plain by (simp_all add: copies rule_frame_sel [OF fr] rule_start_def)
  ultimately have "svc_inv plain (?r \<lparr> started := True \<rparr>)"
    by (simp add: svc_inv_def fw_ok_def quota_ok_def rule_ok_def trust_stored_def stored_trust_def power_mode.agree_def power_mode.pending_def
        idle_trust.agree_def idle_trust.pending_def power_trust.agree_def power_trust.pending_def)
  then show ?thesis by (simp add: svc_Init_def Let_def)
qed

lemma reach_inv: "svc_reach plain s \<Longrightarrow> svc_inv plain s"
  by (induction rule: svc_reach.induct) (simp_all add: inv_init inv_step)

lemma inv_steps: "svc_inv plain s \<Longrightarrow> svc_inv plain ((ProcessEvent ^^ n) s)"
  by (induction n) (simp_all add: inv_event)

subsection \<open>Theorems\<close>

text \<open>C14: The event queue always empties. Whatever is queued, and although handlers send further events, running the queue returns after at
  most three tasks for every queued event, with an empty queue.\<close>

theorem queue_empties:
  "\<exists>n. n \<le> 3 * length (events s) \<and> drain s = Some ((ProcessEvent ^^ n) s) \<and> events ((ProcessEvent ^^ n) s) = []"
  using drain_steps [of s] load_bound [of s] le_trans by blast

text \<open>C15: Once the queue is empty, the parts agree. After any requests and broadcasts the rule part has the power save mode of the firewall
  part; in runs that start without stored trust lists and have no reset, it also has its trust lists.\<close>

theorem parts_agree:
  assumes "svc_reach plain s" "drain s = Some t"
  shows "powerSaveMode t = f_powerSaveMode t \<and> (plain \<longrightarrow>
    deviceIdleAllowedList t = f_deviceIdleAllowedList t \<and> powerSaveAllowedList t = f_powerSaveAllowedList t)"
proof -
  obtain n where "drain s = Some ((ProcessEvent ^^ n) s)" "events ((ProcessEvent ^^ n) s) = []" using drain_steps [of s] by blast
  with assms(2) have "svc_inv plain t" "events t = []" using inv_steps [OF reach_inv [OF assms(1)], of n] by auto
  then show ?thesis using power_mode.settled [of t] idle_trust.settled [of t] power_trust.settled [of t] by (simp add: svc_inv_def)
qed

text \<open>C17: The trust list that the service returns is the stored one: in every reachable state it has no duplicates and at most 1000 entries,
  and it is exactly the set in the policy file.\<close>

theorem trust_list_is_stored:
  assumes "svc_reach plain s"
  shows "\<exists>us. svc_GetDeviceIdleTrustlist s = Inr us \<and> distinct us \<and> length us \<le> MAX_LIST_SIZE \<and>
    set us = stored_trust FIREWALL_CHAIN_DEVICE_IDLE s"
proof -
  have inv: "started s" "fw_ok s" "trust_stored s" using reach_inv [OF assms] by (simp_all add: svc_inv_def)
  then obtain r where "deviceIdleFirewallRule s = Some r" "distinct (allowedList r)" "set (allowedList r) = f_deviceIdleAllowedList s"
    by (auto simp: fw_ok_def chain_ok_def trusts_def split: option.splits)
  moreover from this have "length (allowedList r) \<le> MAX_LIST_SIZE" using fw_ok_limits(1) [OF inv(2)] by (metis distinct_card)
  ultimately show ?thesis
    using inv by (simp add: svc_GetDeviceIdleTrustlist_def GetDeviceIdleTrustlist_def trust_stored_def)
qed

text \<open>C16: The interface quotas of the daemon are what the policies ask for. In every reachable state an update with any policies leaves a quota
  on exactly the interfaces that a metered policy matches, with what is left for the last such policy, and these are the interfaces that
  the service calls metered.\<close>

theorem daemon_quotas_follow_policies:
  assumes "svc_reach plain s" "UpdateQuotaPoliciesInner env (s \<lparr> quotaPolicies := qs \<rparr>) = (code, t)"
  shows "iface_quotas (calls t) = wanted_quota env qs \<and> (IsMeteredIfaces i t \<longleftrightarrow> wanted_quota env qs i \<noteq> None)"
proof -
  have "quota_ok (s \<lparr> quotaPolicies := qs \<rparr>)" using reach_inv [OF assms(1)] by (simp add: svc_inv_def)
  from Inner_quotas [OF this, of env] show ?thesis using assms(2) by (auto simp: IsMeteredIfaces_def dom_def)
qed

subsection \<open>A run\<close>

definition new_service :: NetPolicyService where
  "new_service = NetPolicyTraffic.extend (new_traffic empty_store []) (NetPolicyService.fields False)"

lemma new_service_start: "svc_start new_service" "stored_trust c new_service = {}"
  by (simp_all add: new_service_def svc_start_def stored_trust_def chain_lists_def new_traffic_def new_manager_def new_rules_def empty_store_def
      NetPolicyTraffic.extend_def NetPolicyService.fields_def NetPolicyFirewall.extend_def NetPolicyTraffic.fields_def NetPolicyRule.extend_def
      NetPolicyFirewall.fields_def rule_start_def bandwidth_def iface_quotas_def MAX_LIST_SIZE_def)

definition trusting :: NetPolicyService where
  "trusting = svc_do (Op_SetDeviceIdleTrustlist [10001] True) (svc_Init quiet new_service)"

lemma trusting_reach: "svc_reach True trusting"
  unfolding trusting_def by (rule svc_reach.step [OF svc_reach.init]) (simp_all add: new_service_start)

theorem parts_agree_witness:
  "\<exists>t. drain trusting = Some t \<and> powerSaveMode t = f_powerSaveMode t \<and> deviceIdleAllowedList t = f_deviceIdleAllowedList t"
  using drain_steps [of trusting] parts_agree [OF trusting_reach] by blast

theorem trust_list_is_stored_witness:
  "\<exists>us. svc_GetDeviceIdleTrustlist trusting = Inr us \<and> distinct us \<and> set us = stored_trust FIREWALL_CHAIN_DEVICE_IDLE trusting"
  using trust_list_is_stored [OF trusting_reach] by blast

theorem daemon_quotas_follow_policies_witness:
  "iface_quotas (calls (snd (UpdateQuotaPoliciesInner quiet (trusting \<lparr> quotaPolicies := [quota_of ''1'' 1000] \<rparr>)))) ''rmnet0'' = Some 1000"
proof -
  have "StrToInt ''1'' 0 = 1" by code_simp
  then have "wanted_quota quiet [quota_of ''1'' 1000] ''rmnet0'' = Some 1000"
    by (simp add: wanted_quota_def GetMatchIfaces_def GetQuotaRemain_def GetPeriodStart_def quiet_total quota_of_def new_quota_policy_def
        DATA_USAGE_UNKNOWN_def QUOTA_POLICY_NO_PERIOD_def REMIND_NEVER_def PERIOD_DURATION_SIZE_def BEARER_DEFAULT_def wrap64_def Let_def)
       (simp add: quiet_def)
  then show ?thesis
    using daemon_quotas_follow_policies [OF trusting_reach prod.collapse [symmetric], of quiet "[quota_of ''1'' 1000]"] by simp
qed

end
